(* ===== verification/Prelude.thy ===== *)
theory Prelude
  imports Main "HOL-Library.Word" "HOL-Library.AList" "HOL-Library.Multiset"
begin

text \<open>
  Shared vocabulary of the development.

  \<^item> Machine integers of the Go source (\<open>uint8\<close>, \<open>uint16\<close>, \<open>uint32\<close>) as words, so that
    \<open>+\<close> wraps as in Go.
  \<^item> A Go \<open>map[K]V\<close> as an association list with distinct keys: \<open>mget\<close>, \<open>mput\<close>, \<open>mdel\<close> are
    \<open>m[k]\<close> with its \<open>ok\<close> flag, \<open>m[k] = v\<close> and \<open>delete(m, k)\<close>. The order of the list is the order in
    which a \<open>range\<close> over the map visits it; Go leaves that order open, so every theorem is stated for
    all lists, and the step relations of the components have a step that permutes the maps.
  \<^item> Go statements with an early \<open>return err\<close> as commands \<open>'s \<Rightarrow> 'e status \<times> 's\<close>: \<open>Done\<close>,
    \<open>Fail e\<close> (the error is returned, the writes made so far stay) or \<open>Panicked\<close>.
  \<^item> A service outside the repository (VPP behind its binary API) as a function from the history of
    the calls made so far, with their replies, to the reply of the next call. Nothing is assumed of it
    in the definitions; a theorem that needs a property of the service has it as a hypothesis.
\<close>

section \<open>Machine integers\<close>

type_synonym u8 = "8 word"
type_synonym u16 = "16 word"
type_synonym u32 = "32 word"

named_theorems go_defs \<open>unfolding rules of the command combinators\<close>
named_theorems go_intros \<open>introduction rules for the preservation of an invariant by a command\<close>

section \<open>Go maps\<close>

type_synonym ('k, 'v) gomap = "('k \<times> 'v) list"

definition mget :: "('k, 'v) gomap \<Rightarrow> 'k \<Rightarrow> 'v option" where
  "mget m k = map_of m k"

definition mput :: "'k \<Rightarrow> 'v \<Rightarrow> ('k, 'v) gomap \<Rightarrow> ('k, 'v) gomap" where
  "mput k v m = AList.update k v m"

definition mdel :: "'k \<Rightarrow> ('k, 'v) gomap \<Rightarrow> ('k, 'v) gomap" where
  "mdel k m = filter (\<lambda>p. fst p \<noteq> k) m"

definition mkeys :: "('k, 'v) gomap \<Rightarrow> 'k list" where
  "mkeys m = map fst m"

definition mvals :: "('k, 'v) gomap \<Rightarrow> 'v list" where
  "mvals m = map snd m"

definition mhas :: "('k, 'v) gomap \<Rightarrow> 'k \<Rightarrow> bool" where
  "mhas m k \<longleftrightarrow> mget m k \<noteq> None"

definition wf_map :: "('k, 'v) gomap \<Rightarrow> bool" where
  "wf_map m \<longleftrightarrow> distinct (mkeys m)"

lemma mget_Nil [simp]: "mget [] k = None"
  by (simp add: mget_def)

lemma mget_Cons: "mget (p # m) k = (if fst p = k then Some (snd p) else mget m k)"
  by (cases p) (simp add: mget_def)

lemma mget_Cons_pair [simp]: "mget ((a, b) # m) k = (if a = k then Some b else mget m k)"
  by (simp add: mget_def)

lemma mget_mput [simp]: "mget (mput k v m) k' = (if k' = k then Some v else mget m k')"
  by (simp add: mget_def mput_def update_conv)

lemma mget_mdel [simp]: "mget (mdel k m) k' = (if k' = k then None else mget m k')"
  by (induction m) (auto simp: mdel_def mget_Cons)

lemma mkeys_Nil [simp]: "mkeys [] = []"
  by (simp add: mkeys_def)

lemma mkeys_Cons [simp]: "mkeys (p # m) = fst p # mkeys m"
  by (simp add: mkeys_def)

lemma mvals_Nil [simp]: "mvals [] = []"
  by (simp add: mvals_def)

lemma mvals_Cons [simp]: "mvals (p # m) = snd p # mvals m"
  by (simp add: mvals_def)

lemma mget_None_iff: "mget m k = None \<longleftrightarrow> k \<notin> set (mkeys m)"
  by (simp add: mget_def mkeys_def map_of_eq_None_iff)

lemma mget_in_keys [dest]: "mget m k = Some v \<Longrightarrow> k \<in> set (mkeys m)"
  by (metis mget_None_iff option.distinct(1))

lemma mget_Some_in: "mget m k = Some v \<Longrightarrow> (k, v) \<in> set m"
  by (simp add: mget_def map_of_SomeD)

lemma mget_in_vals: "mget m k = Some v \<Longrightarrow> v \<in> set (mvals m)"
  by (force simp: mvals_def dest: mget_Some_in)

lemma mhas_iff: "mhas m k \<longleftrightarrow> k \<in> set (mkeys m)"
  by (simp add: mhas_def mget_None_iff)

lemma mhas_mput [simp]: "mhas (mput k v m) k' \<longleftrightarrow> k' = k \<or> mhas m k'"
  by (simp add: mhas_def)

lemma mhas_mdel [simp]: "mhas (mdel k m) k' \<longleftrightarrow> k' \<noteq> k \<and> mhas m k'"
  by (simp add: mhas_def)

lemma mhas_Nil [simp]: "\<not> mhas [] k"
  by (simp add: mhas_def)

lemma set_mkeys_mput [simp]: "set (mkeys (mput k v m)) = insert k (set (mkeys m))"
  by (auto simp: mhas_iff [symmetric])

lemma set_mkeys_mdel [simp]: "set (mkeys (mdel k m)) = set (mkeys m) - {k}"
  by (auto simp: mhas_iff [symmetric])

lemma wf_map_Nil [simp]: "wf_map []"
  by (simp add: wf_map_def)

lemma wf_map_mput [simp]: "wf_map m \<Longrightarrow> wf_map (mput k v m)"
  by (simp add: wf_map_def mput_def mkeys_def distinct_update)

lemma wf_map_mdel [simp]: "wf_map m \<Longrightarrow> wf_map (mdel k m)"
  by (simp add: wf_map_def mdel_def mkeys_def distinct_map_filter)

lemma wf_map_in_iff: "wf_map m \<Longrightarrow> (k, v) \<in> set m \<longleftrightarrow> mget m k = Some v"
  by (simp add: wf_map_def mkeys_def mget_def map_of_eq_Some_iff)

lemma wf_map_in_vals: "wf_map m \<Longrightarrow> v \<in> set (mvals m) \<longleftrightarrow> (\<exists>k. mget m k = Some v)"
  by (force simp: mvals_def wf_map_in_iff [symmetric])

lemma mdel_absent [simp]: "k \<notin> set (mkeys m) \<Longrightarrow> mdel k m = m"
  by (induction m) (auto simp: mdel_def)

lemma mput_Nil [simp]: "mput k v [] = [(k, v)]"
  by (simp add: mput_def)

lemma mput_Cons [simp]:
  "mput k v ((a, b) # m) = (if a = k then (k, v) # m else (a, b) # mput k v m)"
  by (simp add: mput_def)

lemma mdel_Nil [simp]: "mdel k [] = []"
  by (simp add: mdel_def)

lemma mdel_Cons [simp]: "mdel k ((a, b) # m) = (if a = k then mdel k m else (a, b) # mdel k m)"
  by (simp add: mdel_def)

text \<open>\<open>range\<close> with its body removing keys visits every entry of the map as it was at the start: the
  keys the body removes have been visited. \<open>mdel_all\<close> is such a loop that removes every key it is
  given.\<close>

definition mdel_all :: "'k list \<Rightarrow> ('k, 'v) gomap \<Rightarrow> ('k, 'v) gomap" where
  "mdel_all ks m = filter (\<lambda>p. fst p \<notin> set ks) m"

lemma mget_mdel_all [simp]: "mget (mdel_all ks m) k = (if k \<in> set ks then None else mget m k)"
  by (induction m) (auto simp: mdel_all_def mget_Cons)

lemma mdel_all_Nil [simp]: "mdel_all [] m = m"
  by (simp add: mdel_all_def)

lemma mdel_all_Cons: "mdel_all (k # ks) m = mdel_all ks (mdel k m)"
  by (auto simp: mdel_all_def mdel_def intro!: filter_cong)

section \<open>Commands with early return\<close>

datatype 'e status = Done | Fail 'e | Panicked

type_synonym ('s, 'e) cmd = "'s \<Rightarrow> 'e status \<times> 's"

definition skip :: "('s, 'e) cmd" where
  [go_defs]: "skip s = (Done, s)"

definition fail :: "'e \<Rightarrow> ('s, 'e) cmd" where
  [go_defs]: "fail e s = (Fail e, s)"

definition panic :: "('s, 'e) cmd" where
  [go_defs]: "panic s = (Panicked, s)"

definition upd :: "('s \<Rightarrow> 's) \<Rightarrow> ('s, 'e) cmd" where
  [go_defs]: "upd f s = (Done, f s)"

text \<open>\<open>c; d\<close>: the second statement runs only when the first neither returned nor panicked.\<close>

definition andthen :: "('s, 'e) cmd \<Rightarrow> ('s, 'e) cmd \<Rightarrow> ('s, 'e) cmd" where
  [go_defs]: "andthen c d s = (case c s of (Done, s') \<Rightarrow> d s' | (Fail e, s') \<Rightarrow> (Fail e, s')
     | (Panicked, s') \<Rightarrow> (Panicked, s'))"

text \<open>\<open>if err := c; err != nil { log }\<close>: the error is logged and the code goes on.\<close>

definition attempt :: "('s, 'e) cmd \<Rightarrow> ('s, 'e) cmd" where
  [go_defs]: "attempt c s = (case c s of (Done, s') \<Rightarrow> (Done, s') | (Fail e, s') \<Rightarrow> (Done, s')
     | (Panicked, s') \<Rightarrow> (Panicked, s'))"

text \<open>\<open>for _, x := range xs { ... }\<close> with the error of an iteration returned at once.\<close>

fun foreach :: "('x \<Rightarrow> ('s, 'e) cmd) \<Rightarrow> 'x list \<Rightarrow> ('s, 'e) cmd" where
  "foreach f [] s = (Done, s)"
| "foreach f (x # xs) s = (case f x s of (Done, s') \<Rightarrow> foreach f xs s'
     | (Fail e, s') \<Rightarrow> (Fail e, s') | (Panicked, s') \<Rightarrow> (Panicked, s'))"

text \<open>
  The same loop over the elements of a slice of pointers: every iteration may change the element in
  place, and the elements behind a failing one keep their value.
\<close>

fun foreach_mut :: "('x \<times> 's, 'e) cmd \<Rightarrow> ('x list \<times> 's, 'e) cmd" where
  "foreach_mut f ([], s) = (Done, ([], s))"
| "foreach_mut f (x # xs, s) =
     (case f (x, s) of
        (Done, (x', s')) \<Rightarrow> (case foreach_mut f (xs, s') of (st, (xs', s'')) \<Rightarrow> (st, (x' # xs', s'')))
      | (Fail e, (x', s')) \<Rightarrow> (Fail e, (x' # xs, s'))
      | (Panicked, (x', s')) \<Rightarrow> (Panicked, (x' # xs, s')))"

definition preserves :: "('s \<Rightarrow> bool) \<Rightarrow> ('s, 'e) cmd \<Rightarrow> bool" where
  "preserves I c \<longleftrightarrow> (\<forall>s. I s \<longrightarrow> I (snd (c s)))"

lemma preservesI: "(\<And>s. I s \<Longrightarrow> I (snd (c s))) \<Longrightarrow> preserves I c"
  by (simp add: preserves_def)

lemma preservesD: "preserves I c \<Longrightarrow> I s \<Longrightarrow> I (snd (c s))"
  by (simp add: preserves_def)

lemma preserves_skip [go_intros]: "preserves I skip"
  by (simp add: preserves_def skip_def)

lemma preserves_fail [go_intros]: "preserves I (fail e)"
  by (simp add: preserves_def fail_def)

lemma preserves_panic [go_intros]: "preserves I panic"
  by (simp add: preserves_def panic_def)

lemma preserves_andthen [go_intros]:
  "preserves I c \<Longrightarrow> preserves I d \<Longrightarrow> preserves I (andthen c d)"
  by (fastforce simp: preserves_def andthen_def split: prod.splits status.splits)

lemma preserves_attempt [go_intros]: "preserves I c \<Longrightarrow> preserves I (attempt c)"
  by (fastforce simp: preserves_def attempt_def split: prod.splits status.splits)

lemma preserves_foreach [go_intros]:
  assumes "\<And>x. x \<in> set xs \<Longrightarrow> preserves I (f x)"
  shows "preserves I (foreach f xs)"
proof (rule preservesI)
  fix s assume "I s"
  then show "I (snd (foreach f xs s))"
    using assms
  proof (induction xs arbitrary: s)
    case Nil
    then show ?case by simp
  next
    case (Cons x xs)
    from Cons.prems have "I (snd (f x s))"
      by (simp add: preservesD)
    with Cons show ?case
      by (auto split: prod.splits status.splits)
  qed
qed

lemma preserves_if [go_intros]:
  "(b \<Longrightarrow> preserves I c) \<Longrightarrow> (\<not> b \<Longrightarrow> preserves I d) \<Longrightarrow> preserves I (if b then c else d)"
  by simp

lemma andthen_Done: "andthen c d s = (Done, s'') \<longleftrightarrow> (\<exists>s'. c s = (Done, s') \<and> d s' = (Done, s''))"
  by (auto simp: andthen_def split: prod.splits status.splits)

lemma andthen_cases:
  assumes "andthen c d s = (st, s'')"
  obtains (first) "c s = (st, s'')" "st \<noteq> Done" | (second) s' where "c s = (Done, s')" "d s' = (st, s'')"
  using assms by (auto simp: andthen_def split: prod.splits status.splits)

lemma foreach_mut_Cons_cases:
  assumes "foreach_mut f (x # xs, s) = (st, (ys, s''))"
  obtains (stop) x' where "f (x, s) = (st, (x', s''))" "st \<noteq> Done" "ys = x' # xs"
  | (go) x' s' xs' where "f (x, s) = (Done, (x', s'))" "foreach_mut f (xs, s') = (st, (xs', s''))" "ys = x' # xs'"
  using assms by (auto split: prod.splits status.splits)

lemma length_foreach_mut: "length (fst (snd (foreach_mut f (xs, s)))) = length xs"
proof (induction xs arbitrary: s)
  case Nil
  then show ?case by simp
next
  case (Cons x xs)
  show ?case
  proof (cases "f (x, s)")
    case (fields st x' s')
    with Cons.IH [of s'] show ?thesis
      by (cases st) (auto split: prod.splits)
  qed
qed

section \<open>Services outside the repository\<close>

type_synonym ('c, 'r) hist = "('c \<times> 'r) list"

type_synonym ('c, 'r) service = "('c, 'r) hist \<Rightarrow> 'c \<Rightarrow> 'r"

text \<open>One call: the reply is what the service answers after this history, and the call and its reply
  become the newest entry of the history.\<close>

definition call :: "('c, 'r) service \<Rightarrow> 'c \<Rightarrow> ('c, 'r) hist \<Rightarrow> 'r \<times> ('c, 'r) hist" where
  "call svc c h = (let r = svc h c in (r, (c, r) # h))"

text \<open>A history that some service of this kind can have produced.\<close>

fun hist_of :: "('c, 'r) service \<Rightarrow> ('c, 'r) hist \<Rightarrow> bool" where
  "hist_of svc [] = True"
| "hist_of svc ((c, r) # h) = (r = svc h c \<and> hist_of svc h)"

lemma hist_of_call: "hist_of svc h \<Longrightarrow> hist_of svc (snd (call svc c h))"
  by (simp add: call_def Let_def)

end
