(* ===== verification/IndexAllocator.thy ===== *)
theory IndexAllocator
  imports Prelude
begin

text \<open>
  \<open>vpplink/index_allocator.go\<close>: an allocator of 32-bit indices with a free list used as a stack and
  a high-water mark, \<open>maxFreeID\<close>. The mutex makes each operation one step, so an operation is a
  function on the record. The loop of \<open>TakeIndex\<close> runs over \<open>uint32\<close> and may not end; it is an
  \<open>option\<close>-valued partial function, with \<open>None\<close> for a loop that never returns.
\<close>

record IndexAllocator =
  freeIndexList :: "u32 list"
  startID :: u32
  maxFreeID :: u32

datatype index_error = LowerThanMinimal u32 u32 | NotInFreelist u32

definition NewIndexAllocator :: "u32 \<Rightarrow> IndexAllocator" where
  "NewIndexAllocator start = \<lparr>freeIndexList = [], startID = start, maxFreeID = start\<rparr>"

definition AllocateIndex :: "IndexAllocator \<Rightarrow> u32 \<times> IndexAllocator" where
  "AllocateIndex i =
     (if freeIndexList i = []
      then (maxFreeID i, i\<lparr>maxFreeID := maxFreeID i + 1\<rparr>)
      else (last (freeIndexList i), i\<lparr>freeIndexList := butlast (freeIndexList i)\<rparr>))"

text \<open>\<open>for ii := i.maxFreeID; ii <= index; ii++\<close>\<close>

partial_function (option) fill_loop :: "u32 \<Rightarrow> u32 \<Rightarrow> u32 list \<Rightarrow> u32 list option" where
  "fill_loop ii index l = (if ii \<le> index then fill_loop (ii + 1) index (l @ [ii]) else Some l)"

text \<open>The first occurrence of the index is cut out of the free list.\<close>

fun find_index :: "u32 \<Rightarrow> nat \<Rightarrow> u32 list \<Rightarrow> nat option" where
  "find_index index ii [] = None"
| "find_index index ii (x # xs) = (if x = index then Some ii else find_index index (Suc ii) xs)"

definition TakeIndex :: "u32 \<Rightarrow> IndexAllocator \<Rightarrow> ((index_error + unit) \<times> IndexAllocator) option" where
  "TakeIndex index i =
     (if index < startID i then Some (Inl (LowerThanMinimal index (startID i)), i)
      else if maxFreeID i \<le> index then
        (case fill_loop (maxFreeID i) index (freeIndexList i) of
           None \<Rightarrow> None
         | Some l \<Rightarrow> Some (Inr (), i\<lparr>freeIndexList := l, maxFreeID := index + 1\<rparr>))
      else case find_index index 0 (freeIndexList i) of
             None \<Rightarrow> Some (Inl (NotInFreelist index), i)
           | Some found \<Rightarrow>
               Some (Inr (), i\<lparr>freeIndexList :=
                 take found (freeIndexList i) @ drop (Suc found) (freeIndexList i)\<rparr>))"

definition FreeIndex :: "u32 \<Rightarrow> IndexAllocator \<Rightarrow> IndexAllocator" where
  "FreeIndex index i = i\<lparr>freeIndexList := freeIndexList i @ [index]\<rparr>"

section \<open>Invariant and the set of indices handed out\<close>

definition idx_inv :: "IndexAllocator \<Rightarrow> bool" where
  "idx_inv i \<longleftrightarrow> startID i \<le> maxFreeID i \<and> distinct (freeIndexList i) \<and>
     (\<forall>x \<in> set (freeIndexList i). startID i \<le> x \<and> x < maxFreeID i)"

definition in_use :: "IndexAllocator \<Rightarrow> u32 set" where
  "in_use i = {x. startID i \<le> x \<and> x < maxFreeID i} - set (freeIndexList i)"

definition can_alloc :: "IndexAllocator \<Rightarrow> bool" where
  "can_alloc i \<longleftrightarrow> freeIndexList i \<noteq> [] \<or> maxFreeID i \<noteq> - 1"

lemma idx_inv_New: "idx_inv (NewIndexAllocator s)"
  by (simp add: idx_inv_def NewIndexAllocator_def)

lemma in_use_New: "in_use (NewIndexAllocator s) = {}"
  by (auto simp: in_use_def NewIndexAllocator_def)

lemma less_inc_iff: "(m :: u32) \<noteq> - 1 \<Longrightarrow> x < m + 1 \<longleftrightarrow> x < m \<or> x = m"
  by (meson inc_less_eq_iff not_less_iff_gr_or_eq verit_comp_simplify1(3))

lemma le_inc: "(m :: u32) \<noteq> - 1 \<Longrightarrow> s \<le> m \<Longrightarrow> s \<le> m + 1"
  by (metis less_inc_iff order_le_less)

lemma unat_inc: "(m :: u32) \<noteq> - 1 \<Longrightarrow> unat (m + 1) = Suc (unat m)"
  by (metis add.commute eq_neg_iff_add_eq_0 unatSuc)

lemma AllocateIndex_inv: "idx_inv i \<Longrightarrow> can_alloc i \<Longrightarrow> idx_inv (snd (AllocateIndex i))"
  by (cases "freeIndexList i" rule: rev_cases)
    (auto simp: AllocateIndex_def idx_inv_def can_alloc_def less_inc_iff le_inc)

lemma AllocateIndex_fresh: "idx_inv i \<Longrightarrow> can_alloc i \<Longrightarrow> fst (AllocateIndex i) \<notin> in_use i"
  by (cases "freeIndexList i" rule: rev_cases) (auto simp: AllocateIndex_def in_use_def)

lemma AllocateIndex_in_use:
  "idx_inv i \<Longrightarrow> can_alloc i \<Longrightarrow>
   in_use (snd (AllocateIndex i)) = insert (fst (AllocateIndex i)) (in_use i)"
  by (cases "freeIndexList i" rule: rev_cases)
    (auto simp: AllocateIndex_def in_use_def idx_inv_def can_alloc_def less_inc_iff)

lemma FreeIndex_inv: "idx_inv i \<Longrightarrow> x \<in> in_use i \<Longrightarrow> idx_inv (FreeIndex x i)"
  by (auto simp: FreeIndex_def idx_inv_def in_use_def)

lemma FreeIndex_in_use: "in_use (FreeIndex x i) = in_use i - {x}"
  by (auto simp: FreeIndex_def in_use_def)

section \<open>The contract of an index allocator\<close>

text \<open>\<open>alloc_n n\<close>: the indices of \<open>n\<close> allocations in a row.\<close>

fun alloc_n :: "('a \<Rightarrow> u32 \<times> 'a) \<Rightarrow> nat \<Rightarrow> 'a \<Rightarrow> u32 list \<times> 'a" where
  "alloc_n alloc 0 a = ([], a)"
| "alloc_n alloc (Suc n) a =
     (case alloc a of (x, a') \<Rightarrow> case alloc_n alloc n a' of (xs, a'') \<Rightarrow> (x # xs, a''))"

locale id_allocator =
  fixes inv :: "'a \<Rightarrow> bool"
    and used :: "'a \<Rightarrow> u32 set"
    and ready :: "'a \<Rightarrow> bool"
    and alloc :: "'a \<Rightarrow> u32 \<times> 'a"
    and release :: "u32 \<Rightarrow> 'a \<Rightarrow> 'a"
  assumes alloc_inv: "inv a \<Longrightarrow> ready a \<Longrightarrow> inv (snd (alloc a))"
    and alloc_fresh: "inv a \<Longrightarrow> ready a \<Longrightarrow> fst (alloc a) \<notin> used a"
    and alloc_used: "inv a \<Longrightarrow> ready a \<Longrightarrow> used (snd (alloc a)) = insert (fst (alloc a)) (used a)"
    and release_inv: "inv a \<Longrightarrow> x \<in> used a \<Longrightarrow> inv (release x a)"
    and release_used: "inv a \<Longrightarrow> x \<in> used a \<Longrightarrow> used (release x a) = used a - {x}"
begin

lemma alloc_release_used:
  assumes "inv a" "ready a"
  shows "used (release (fst (alloc a)) (snd (alloc a))) = used a"
  using assms by (simp add: alloc_inv alloc_used alloc_fresh release_used)

lemma alloc_n_distinct:
  assumes "inv a" "\<forall>k<n. ready (snd (alloc_n alloc k a))"
  shows "distinct (fst (alloc_n alloc n a)) \<and> set (fst (alloc_n alloc n a)) \<inter> used a = {} \<and>
    inv (snd (alloc_n alloc n a)) \<and>
    used (snd (alloc_n alloc n a)) = used a \<union> set (fst (alloc_n alloc n a))"
  using assms
proof (induction n arbitrary: a)
  case 0
  then show ?case by simp
next
  case (Suc n)
  obtain x a' where xa: "alloc a = (x, a')" by (cases "alloc a")
  from Suc.prems(2) have r: "ready a" by force
  with Suc.prems(1) xa have x: "x \<notin> used a" "used a' = insert x (used a)" "inv a'"
    using alloc_fresh alloc_used alloc_inv by fastforce+
  have "\<forall>k<n. ready (snd (alloc_n alloc k a'))"
  proof (intro allI impI)
    fix k assume "k < n"
    then have "ready (snd (alloc_n alloc (Suc k) a))" using Suc.prems(2) by blast
    then show "ready (snd (alloc_n alloc k a'))" by (simp add: xa split: prod.splits)
  qed
  from Suc.IH [OF x(3) this] show ?case
    using x by (auto simp: xa split: prod.splits)
qed

end

interpretation idx: id_allocator idx_inv in_use can_alloc AllocateIndex FreeIndex
  by unfold_locales
    (simp_all add: AllocateIndex_inv AllocateIndex_fresh AllocateIndex_in_use FreeIndex_inv
      FreeIndex_in_use)

section \<open>TakeIndex\<close>

lemma fill_loop_stops:
  assumes "index \<noteq> - 1" "ii \<le> index + 1"
  shows "\<exists>r. fill_loop ii index l = Some (l @ r) \<and> set r = {x. ii \<le> x \<and> x \<le> index} \<and> distinct r \<and>
    (ii \<le> index \<longrightarrow> r \<noteq> [] \<and> last r = index)"
  using assms
proof (induction "Suc (unat index) - unat ii" arbitrary: ii l rule: less_induct)
  case less
  show ?case
  proof (cases "ii \<le> index")
    case False
    then show ?thesis
      by (intro exI [of _ "[]"]) (auto simp: fill_loop.simps [of ii])
  next
    case True
    with less.prems have ne: "ii \<noteq> - 1" using word_order.extremum_uniqueI by blast
    have "ii < index + 1" using True less.prems by (simp add: less_inc_iff order_le_less)
    then have le: "ii + 1 \<le> index + 1" by (simp add: inc_le)
    have "Suc (unat index) - unat (ii + 1) < Suc (unat index) - unat ii"
      using True ne by (simp add: unat_inc word_le_nat_alt)
    from less.hyps [OF this less.prems(1) le] obtain r
      where r: "fill_loop (ii + 1) index (l @ [ii]) = Some ((l @ [ii]) @ r)"
        "set r = {x. ii + 1 \<le> x \<and> x \<le> index}" "distinct r"
        "ii + 1 \<le> index \<longrightarrow> r \<noteq> [] \<and> last r = index" by blast
    have mem: "x \<in> set r \<longleftrightarrow> ii < x \<and> x \<le> index" for x
      using r(2) ne by (simp add: inc_less_eq_iff)
    then have "set (ii # r) = {x. ii \<le> x \<and> x \<le> index}"
      using True by (auto simp: order_le_less)
    moreover have "distinct (ii # r)" using mem r(3) by simp
    moreover have "last (ii # r) = index"
    proof (cases "ii = index")
      case True
      with mem have "r = []" by (cases r) (auto simp: less_le_not_le)
      with True show ?thesis by simp
    next
      case False
      with True have "ii + 1 \<le> index" by (simp add: inc_le)
      with r(4) show ?thesis by simp
    qed
    ultimately show ?thesis
      using True r(1) by (intro exI [of _ "ii # r"]) (simp add: fill_loop.simps [of ii])
  qed
qed

lemma fill_loop_diverges: "fill_loop ii (- 1) l = None"
proof (rule ccontr)
  assume "fill_loop ii (- 1) l \<noteq> None"
  then obtain r where ret: "fill_loop ii (- 1) l = Some r" by blast
  have "(- 1 :: u32) \<noteq> - 1"
  proof (rule fill_loop.raw_induct [where P = "\<lambda>ii index l r. index \<noteq> - 1", OF _ ret])
    fix f :: "u32 \<Rightarrow> u32 \<Rightarrow> u32 list \<Rightarrow> u32 list option" and ii index l r
    assume IH: "\<And>ii index l r. f ii index l = Some r \<Longrightarrow> index \<noteq> - 1"
      and eq: "(if ii \<le> index then f (ii + 1) index (l @ [ii]) else Some l) = Some r"
    show "index \<noteq> - 1"
    proof (cases "ii \<le> index")
      case True
      with eq show ?thesis using IH by simp
    next
      case False
      then show ?thesis by (metis word_order.extremum)
    qed
  qed
  then show False by simp
qed

lemma find_index_None: "find_index x k l = None \<longleftrightarrow> x \<notin> set l"
  by (induction l arbitrary: k) auto

lemma find_index_Some:
  "find_index x k l = Some n \<Longrightarrow> \<exists>pre post. l = pre @ x # post \<and> n = k + length pre \<and> x \<notin> set pre"
proof (induction l arbitrary: k)
  case Nil
  then show ?case by simp
next
  case (Cons y l)
  show ?case
  proof (cases "y = x")
    case True
    with Cons.prems show ?thesis by (intro exI [of _ "[]"] exI [of _ l]) auto
  next
    case False
    with Cons obtain pre post where "l = pre @ x # post" "n = Suc k + length pre" "x \<notin> set pre"
      by fastforce
    with False show ?thesis by (intro exI [of _ "y # pre"] exI [of _ post]) auto
  qed
qed

lemma find_index_remove:
  assumes "find_index x 0 l = Some n" "distinct l"
  shows "set (take n l @ drop (Suc n) l) = set l - {x}" "distinct (take n l @ drop (Suc n) l)"
proof -
  obtain pre post where "l = pre @ x # post" "n = length pre"
    using find_index_Some [OF assms(1)] by auto
  with assms(2) show "set (take n l @ drop (Suc n) l) = set l - {x}"
    "distinct (take n l @ drop (Suc n) l)" by auto
qed

lemma TakeIndex_below:
  assumes "idx_inv i" "index < maxFreeID i" "startID i \<le> index"
  shows "index \<in> in_use i \<Longrightarrow> TakeIndex index i = Some (Inl (NotInFreelist index), i)"
    and "index \<notin> in_use i \<Longrightarrow> \<exists>i'. TakeIndex index i = Some (Inr (), i') \<and> idx_inv i' \<and>
      in_use i' = insert index (in_use i)"
proof -
  have nb: "\<not> maxFreeID i \<le> index" "\<not> index < startID i" using assms by auto
  {
  assume "index \<in> in_use i"
  then have "find_index index 0 (freeIndexList i) = None"
    by (simp add: find_index_None in_use_def)
  with nb show "TakeIndex index i = Some (Inl (NotInFreelist index), i)"
    by (simp add: TakeIndex_def)
  }
  assume free: "index \<notin> in_use i"
  with assms have "index \<in> set (freeIndexList i)" by (simp add: in_use_def)
  then obtain n where n: "find_index index 0 (freeIndexList i) = Some n"
    using find_index_None [of index 0 "freeIndexList i"] by fastforce
  let ?i' = "i\<lparr>freeIndexList := take n (freeIndexList i) @ drop (Suc n) (freeIndexList i)\<rparr>"
  have d: "distinct (freeIndexList i)" using assms(1) by (simp add: idx_inv_def)
  have "TakeIndex index i = Some (Inr (), ?i')"
    using nb n by (simp add: TakeIndex_def)
  moreover have "idx_inv ?i'"
    using assms(1) find_index_remove [OF n d] by (simp add: idx_inv_def)
  moreover have "in_use ?i' = insert index (in_use i)"
    using assms find_index_remove(1) [OF n d] by (auto simp: in_use_def)
  ultimately show "\<exists>i'. TakeIndex index i = Some (Inr (), i') \<and> idx_inv i' \<and>
      in_use i' = insert index (in_use i)" by blast
qed

lemma TakeIndex_beyond:
  assumes "idx_inv i" "maxFreeID i \<le> index" "index \<noteq> - 1"
  shows "\<exists>i'. TakeIndex index i = Some (Inr (), i') \<and> idx_inv i' \<and> in_use i' = in_use i \<and>
    fst (AllocateIndex i') = index"
proof -
  obtain r where r: "fill_loop (maxFreeID i) index (freeIndexList i) = Some (freeIndexList i @ r)"
    "set r = {x. maxFreeID i \<le> x \<and> x \<le> index}" "distinct r" "r \<noteq> []" "last r = index"
    using fill_loop_stops [OF assms(3), of "maxFreeID i" "freeIndexList i"] assms
    by (auto simp: le_inc)
  let ?i' = "i\<lparr>freeIndexList := freeIndexList i @ r, maxFreeID := index + 1\<rparr>"
  have lt: "x < index + 1 \<longleftrightarrow> x \<le> index" for x
    using assms(3) by (simp add: less_inc_iff order_le_less)
  have s: "startID i \<le> maxFreeID i" using assms(1) by (simp add: idx_inv_def)
  have "\<not> index < startID i" using s assms(2) by auto
  then have "TakeIndex index i = Some (Inr (), ?i')"
    using assms(2) r(1) by (simp add: TakeIndex_def)
  moreover have "idx_inv ?i'"
    using assms s r(2,3) lt by (fastforce simp: idx_inv_def le_inc)
  moreover have "in_use ?i' = in_use i"
    using assms s r(2) lt by (fastforce simp: in_use_def)
  moreover have "fst (AllocateIndex ?i') = index"
    using r by (simp add: AllocateIndex_def)
  ultimately show ?thesis by blast
qed

section \<open>Properties\<close>

text \<open>C15: A run of allocations never hands out an index twice, nor one that is in use, and afterwards
  exactly the indices handed out have been added to those in use, as long as the 32-bit counter is
  not exhausted. \<open>alloc_n\<close> runs \<open>AllocateIndex\<close> \<open>n\<close> times.\<close>

theorem AllocateIndex_distinct:
  assumes "idx_inv i" "\<forall>k<n. can_alloc (snd (alloc_n AllocateIndex k i))"
  shows "distinct (fst (alloc_n AllocateIndex n i)) \<and>
    set (fst (alloc_n AllocateIndex n i)) \<inter> in_use i = {} \<and>
    idx_inv (snd (alloc_n AllocateIndex n i)) \<and>
    in_use (snd (alloc_n AllocateIndex n i)) = in_use i \<union> set (fst (alloc_n AllocateIndex n i))"
  using assms by (rule idx.alloc_n_distinct)

theorem AllocateIndex_distinct_witness:
  "distinct (fst (alloc_n AllocateIndex (Suc (Suc (Suc 0))) (FreeIndex 5 \<lparr>freeIndexList = [], startID = 4, maxFreeID = 7\<rparr>)))"
proof -
  have "\<forall>k<Suc (Suc (Suc 0)). can_alloc (snd (alloc_n AllocateIndex k
      (FreeIndex 5 \<lparr>freeIndexList = [], startID = 4, maxFreeID = 7\<rparr>)))"
    by (simp add: All_less_Suc FreeIndex_def AllocateIndex_def can_alloc_def)
  moreover have "idx_inv (FreeIndex 5 \<lparr>freeIndexList = [], startID = 4, maxFreeID = 7\<rparr>)"
    by (simp add: idx_inv_def FreeIndex_def)
  ultimately show ?thesis using AllocateIndex_distinct by blast
qed

text \<open>Taking an index above the high-water mark succeeds but does not take it: the index stays in the
  free list, the set of indices in use is unchanged, and the very next allocation hands it out.\<close>

theorem TakeIndex_not_reserved:
  assumes "idx_inv i" "maxFreeID i \<le> index" "index \<noteq> - 1"
  shows "\<exists>i'. TakeIndex index i = Some (Inr (), i') \<and> idx_inv i' \<and> in_use i' = in_use i \<and>
    fst (AllocateIndex i') = index"
  using assms by (rule TakeIndex_beyond)

theorem TakeIndex_not_reserved_witness:
  "\<exists>i'. TakeIndex 6 (NewIndexAllocator 4) = Some (Inr (), i') \<and> fst (AllocateIndex i') = 6"
  using TakeIndex_not_reserved [of "NewIndexAllocator 4" 6] idx_inv_New
  by (auto simp: NewIndexAllocator_def)

end
