(* ===== verification/NetAddr.thy ===== *)
theory NetAddr
  imports Prelude
begin

text \<open>
  What the program uses of Go's standard packages \<open>net\<close>, \<open>net/netip\<close>, \<open>strings\<close> and
  \<open>strconv\<close>: addresses as byte slices, \<open>ParseIP\<close>, \<open>ParseCIDR\<close>, \<open>IP.String\<close>, \<open>IP.To4\<close>,
  \<open>IP.Equal\<close>, \<open>IPMask.Size\<close>, \<open>IPNet.Contains\<close>, \<open>IPNet.String\<close>; \<open>Split\<close>, \<open>ToLower\<close>
  and \<open>ParseUint\<close>. Strings are byte strings; \<open>ToLower\<close> and \<open>ToUpper\<close> change the ASCII letters
  only. A nil slice and an empty slice are the same value \<open>[]\<close>, as in the source, which only looks at
  their length.
\<close>

unbundle bit_operations_syntax

named_theorems net_eval \<open>the definitions of this theory, for the evaluation of closed terms\<close>

section \<open>Strings\<close>

abbreviation ccode :: "char \<Rightarrow> nat" where
  "ccode c \<equiv> of_char c"

definition is_digit :: "char \<Rightarrow> bool" where
  "is_digit c \<longleftrightarrow> 48 \<le> ccode c \<and> ccode c \<le> 57"

definition digit_val :: "char \<Rightarrow> nat" where
  "digit_val c = ccode c - 48"

definition is_hex :: "char \<Rightarrow> bool" where
  "is_hex c \<longleftrightarrow> is_digit c \<or> (97 \<le> ccode c \<and> ccode c \<le> 102) \<or> (65 \<le> ccode c \<and> ccode c \<le> 70)"

definition hex_val :: "char \<Rightarrow> nat" where
  "hex_val c = (if is_digit c then ccode c - 48
     else if 97 \<le> ccode c then ccode c - 87 else ccode c - 55)"

definition ToLower :: "string \<Rightarrow> string" where
  "ToLower s = map (\<lambda>c. if 65 \<le> ccode c \<and> ccode c \<le> 90 then char_of (ccode c + 32) else c) s"

definition ToUpper :: "string \<Rightarrow> string" where
  "ToUpper s = map (\<lambda>c. if 97 \<le> ccode c \<and> ccode c \<le> 122 then char_of (ccode c - 32) else c) s"

text \<open>\<open>strings.Split(s, sep)\<close> for a separator of one byte.\<close>

fun Split :: "char \<Rightarrow> string \<Rightarrow> string list" where
  "Split d [] = [[]]"
| "Split d (c # cs) =
     (if c = d then [] # Split d cs
      else case Split d cs of [] \<Rightarrow> [[c]] | w # ws \<Rightarrow> (c # w) # ws)"

text \<open>\<open>strconv.ParseUint(s, 10, bits)\<close>: digits only, at least one, in range.\<close>

definition digits_val :: "string \<Rightarrow> nat" where
  "digits_val s = foldl (\<lambda>n c. 10 * n + digit_val c) 0 s"

definition ParseUint10 :: "string \<Rightarrow> nat \<Rightarrow> nat option" where
  "ParseUint10 s bits =
     (if s \<noteq> [] \<and> list_all is_digit s \<and> digits_val s < 2 ^ bits then Some (digits_val s) else None)"

fun show_nat :: "nat \<Rightarrow> string" where
  "show_nat n = (if n < 10 then [char_of (n + 48)] else show_nat (n div 10) @ [char_of (n mod 10 + 48)])"

declare show_nat.simps [simp del]

fun show_hex :: "nat \<Rightarrow> string" where
  "show_hex n =
     (let d = (\<lambda>k. char_of (if k < 10 then k + 48 else k + 87 :: nat)) in
      if n < 16 then [d n] else show_hex (n div 16) @ [d (n mod 16)])"

declare show_hex.simps [simp del]

fun joinWith :: "string \<Rightarrow> string list \<Rightarrow> string" where
  "joinWith sep [] = []"
| "joinWith sep [w] = w"
| "joinWith sep (w # v # ws) = w @ sep @ joinWith sep (v # ws)"

section \<open>Addresses\<close>

type_synonym ip = "u8 list"

record ipnet =
  IPNet_IP :: ip
  IPNet_Mask :: "u8 list"

definition v4InV6Prefix :: ip where
  "v4InV6Prefix = replicate 10 0 @ [255, 255]"

definition To4 :: "ip \<Rightarrow> ip option" where
  "To4 a = (if length a = 4 then Some a
     else if length a = 16 \<and> take 12 a = v4InV6Prefix then Some (drop 12 a) else None)"

definition To16 :: "ip \<Rightarrow> ip option" where
  "To16 a = (if length a = 4 then Some (v4InV6Prefix @ a)
     else if length a = 16 then Some a else None)"

text \<open>\<open>IP.Equal\<close>: the 4-byte and the mapped 16-byte form of an IPv4 address are equal.\<close>

definition ip_Equal :: "ip \<Rightarrow> ip \<Rightarrow> bool" where
  "ip_Equal a b \<longleftrightarrow>
     (if length a = length b then a = b
      else if length a = 4 \<and> length b = 16 then take 12 b = v4InV6Prefix \<and> a = drop 12 b
      else if length a = 16 \<and> length b = 4 then take 12 a = v4InV6Prefix \<and> drop 12 a = b
      else False)"

datatype netip_addr = Addr4 ip | Addr6 ip

fun As16 :: "netip_addr \<Rightarrow> ip" where
  "As16 (Addr4 a) = v4InV6Prefix @ a"
| "As16 (Addr6 a) = a"

fun BitLen :: "netip_addr \<Rightarrow> nat" where
  "BitLen (Addr4 a) = 32"
| "BitLen (Addr6 a) = 128"

subsection \<open>Parsing\<close>

text \<open>\<open>parseIPv4Fields\<close>: the value and the number of digits of the current field, the fields read.\<close>

fun parseIPv4Fields :: "nat \<Rightarrow> nat \<Rightarrow> ip \<Rightarrow> string \<Rightarrow> ip option" where
  "parseIPv4Fields val digLen fs [] = (if length fs < 3 then None else Some (fs @ [of_nat val]))"
| "parseIPv4Fields val digLen fs (c # cs) =
     (if is_digit c then
        (if digLen = 1 \<and> val = 0 then None
         else if 10 * val + digit_val c > 255 then None
         else parseIPv4Fields (10 * val + digit_val c) (Suc digLen) fs cs)
      else if c = CHR ''.'' then
        (if digLen = 0 \<or> cs = [] \<or> length fs = 3 then None
         else parseIPv4Fields 0 0 (fs @ [of_nat val]) cs)
      else None)"

definition parseIPv4 :: "string \<Rightarrow> ip option" where
  "parseIPv4 s = parseIPv4Fields 0 0 [] s"

text \<open>\<open>parseIPv6\<close>: the bytes read, the position of the ellipsis, the rest of the text.\<close>

function parseIPv6_loop :: "ip \<Rightarrow> nat option \<Rightarrow> string \<Rightarrow> (ip \<times> nat option \<times> string) option" where
  "parseIPv6_loop a el s =
     (if length a \<ge> 16 then Some (a, el, s)
      else
        let ds = takeWhile is_hex s; r = dropWhile is_hex s;
            acc = foldl (\<lambda>n c. 16 * n + hex_val c) 0 ds;
            a' = a @ [of_nat (acc div 256), of_nat (acc mod 256)]
        in if ds = [] \<or> length ds > 4 then None
           else case r of
             [] \<Rightarrow> Some (a', el, [])
           | c # r' \<Rightarrow>
               if c = CHR ''.'' then
                 (if (el = None \<and> length a \<noteq> 12) \<or> length a + 4 > 16 then None
                  else case parseIPv4 s of None \<Rightarrow> None | Some f \<Rightarrow> Some (a @ f, el, []))
               else if c \<noteq> CHR '':'' then None
               else case r' of
                 [] \<Rightarrow> None
               | c' # r'' \<Rightarrow>
                   if c' = CHR '':'' then
                     (if el \<noteq> None then None
                      else if r'' = [] then Some (a', Some (length a'), [])
                      else parseIPv6_loop a' (Some (length a')) r'')
                   else parseIPv6_loop a' el r')"
  by pat_completeness auto
termination
  by (relation "measure (\<lambda>(a, el, s). 16 - length a)") auto

declare parseIPv6_loop.simps [simp del]

definition expand_ellipsis :: "ip \<Rightarrow> nat option \<Rightarrow> ip option" where
  "expand_ellipsis a el =
     (if length a < 16 then
        (case el of None \<Rightarrow> None
         | Some e \<Rightarrow> Some (take e a @ replicate (16 - length a) 0 @ drop e a))
      else if el \<noteq> None then None else Some a)"

definition parseIPv6 :: "string \<Rightarrow> ip option" where
  "parseIPv6 s =
     (let lead = (length s \<ge> 2 \<and> take 2 s = ''::''); s' = (if lead then drop 2 s else s) in
      if lead \<and> s' = [] then Some (replicate 16 0)
      else case parseIPv6_loop [] (if lead then Some 0 else None) s' of
             None \<Rightarrow> None
           | Some (a, el, rest) \<Rightarrow> if rest \<noteq> [] then None else expand_ellipsis a el)"

text \<open>
  \<open>netip.ParseAddr\<close> without zones: the first of the characters \<open>.\<close> and \<open>:\<close> decides the family. A
  text with a zone (a percent sign) is rejected by \<open>ParseIP\<close> and \<open>ParseCIDR\<close>.
\<close>

definition ParseAddr :: "string \<Rightarrow> netip_addr option" where
  "ParseAddr s =
     (if CHR ''%'' \<in> set s then None
      else case dropWhile (\<lambda>c. c \<noteq> CHR ''.'' \<and> c \<noteq> CHR '':'') s of
             [] \<Rightarrow> None
           | c # _ \<Rightarrow> if c = CHR ''.'' then map_option Addr4 (parseIPv4 s)
                      else map_option Addr6 (parseIPv6 s))"

text \<open>\<open>net.ParseIP\<close>; \<open>None\<close> is the nil result.\<close>

definition ParseIP :: "string \<Rightarrow> ip option" where
  "ParseIP s = map_option As16 (ParseAddr s)"

definition CIDRMask :: "nat \<Rightarrow> nat \<Rightarrow> u8 list" where
  "CIDRMask ones bits =
     (if (bits = 32 \<or> bits = 128) \<and> ones \<le> bits
      then map (\<lambda>i. let k = ones - 8 * i in
                    if k \<ge> 8 then 255 else NOT (of_nat (255 div 2 ^ k))) [0..<bits div 8]
      else [])"

definition apply_mask :: "ip \<Rightarrow> u8 list \<Rightarrow> ip" where
  "apply_mask a m =
     (let m' = (if length m = 16 \<and> length a = 4 \<and> list_all (\<lambda>b. b = 255) (take 12 m)
                then drop 12 m else m);
          a' = (if length m' = 4 \<and> length a = 16 \<and> take 12 a = v4InV6Prefix then drop 12 a else a)
      in if length a' \<noteq> length m' then [] else map2 (\<lambda>x y. x AND y) a' m')"

text \<open>\<open>net.ParseCIDR\<close>: the address as written and the network it lies in.\<close>

definition ParseCIDR :: "string \<Rightarrow> (ip \<times> ipnet) option" where
  "ParseCIDR s =
     (let addr = takeWhile (\<lambda>c. c \<noteq> CHR ''/'') s;
          rest = dropWhile (\<lambda>c. c \<noteq> CHR ''/'') s
      in case rest of
           [] \<Rightarrow> None
         | _ # plen \<Rightarrow>
             (case ParseAddr addr of
                None \<Rightarrow> None
              | Some a \<Rightarrow>
                  if plen = [] \<or> \<not> list_all is_digit plen \<or> digits_val plen > BitLen a then None
                  else let m = CIDRMask (digits_val plen) (BitLen a) in
                       Some (As16 a, \<lparr>IPNet_IP = apply_mask (As16 a) m, IPNet_Mask = m\<rparr>)))"

subsection \<open>Masks and containment\<close>

definition byte_bits :: "u8 \<Rightarrow> bool list" where
  "byte_bits b = map (\<lambda>i. bit b (7 - i)) [0..<8]"

definition mask_bits :: "u8 list \<Rightarrow> bool list" where
  "mask_bits m = concat (map byte_bits m)"

text \<open>\<open>IPMask.Size\<close>: \<open>(0, 0)\<close> for a mask that is not ones followed by zeros.\<close>

definition Mask_Size :: "u8 list \<Rightarrow> nat \<times> nat" where
  "Mask_Size m =
     (if list_all Not (dropWhile id (mask_bits m))
      then (length (takeWhile id (mask_bits m)), 8 * length m) else (0, 0))"

text \<open>\<open>networkNumberAndMask\<close> and \<open>IPNet.Contains\<close>.\<close>

definition networkNumberAndMask :: "ipnet \<Rightarrow> (ip \<times> u8 list) option" where
  "networkNumberAndMask n =
     (let a = (case To4 (IPNet_IP n) of Some a4 \<Rightarrow> a4 | None \<Rightarrow> IPNet_IP n); m = IPNet_Mask n in
      if length a \<noteq> 4 \<and> length a \<noteq> 16 then None
      else if length m = 4 then (if length a \<noteq> 4 then None else Some (a, m))
      else if length m = 16 then Some (a, if length a = 4 then drop 12 m else m)
      else None)"

definition Contains :: "ipnet \<Rightarrow> ip \<Rightarrow> bool" where
  "Contains n x =
     (case networkNumberAndMask n of
        None \<Rightarrow> length x = 0
      | Some (nn, m) \<Rightarrow>
          let x' = (case To4 x of Some x4 \<Rightarrow> x4 | None \<Rightarrow> x) in
          length x' = length nn \<and> list_all (\<lambda>(a, b, k). a AND k = b AND k) (zip nn (zip x' m)))"

subsection \<open>Printing\<close>

fun groups16 :: "ip \<Rightarrow> nat list" where
  "groups16 (a # b # r) = (256 * unat a + unat b) # groups16 r"
| "groups16 _ = []"

text \<open>The longest run of at least two zero groups, the first one of that length.\<close>

definition zero_run :: "nat list \<Rightarrow> nat \<times> nat" where
  "zero_run g =
     foldl (\<lambda>(zs, ze) i. let l = length (takeWhile (\<lambda>x. x = 0) (drop i g)) in
              if l \<ge> 2 \<and> l > ze - zs then (i, i + l) else (zs, ze)) (255, 255) [0..<length g]"

definition show_ip6 :: "ip \<Rightarrow> string" where
  "show_ip6 a =
     (let g = groups16 a; (zs, ze) = zero_run g in
      if zs < ze then joinWith '':'' (map show_hex (take zs g)) @ ''::'' @
                      joinWith '':'' (map show_hex (drop ze g))
      else joinWith '':'' (map show_hex g))"

definition show_ip4 :: "ip \<Rightarrow> string" where
  "show_ip4 a = joinWith ''.'' (map (\<lambda>b. show_nat (unat b)) a)"

text \<open>\<open>IP.String\<close>; a slice of another length prints as \<open>?\<close> and its bytes in hexadecimal.\<close>

definition hex_byte :: "u8 \<Rightarrow> string" where
  "hex_byte b = show_hex (unat b div 16) @ show_hex (unat b mod 16)"

definition ip_String :: "ip \<Rightarrow> string" where
  "ip_String a =
     (if a = [] then ''<nil>''
      else if length a \<noteq> 4 \<and> length a \<noteq> 16 then CHR ''?'' # concat (map hex_byte a)
      else case To4 a of Some a4 \<Rightarrow> show_ip4 a4 | None \<Rightarrow> show_ip6 a)"

definition ipnet_String :: "ipnet \<Rightarrow> string" where
  "ipnet_String n =
     (case networkNumberAndMask n of
        None \<Rightarrow> ''<nil>''
      | Some (nn, m) \<Rightarrow>
          if list_all Not (dropWhile id (mask_bits m))
          then ip_String nn @ ''/'' @ show_nat (length (takeWhile id (mask_bits m)))
          else ip_String nn @ ''/'' @ concat (map hex_byte m))"

section \<open>Evaluation\<close>

lemma replicate_numeral [net_eval]: "replicate (numeral n) x = x # replicate (pred_numeral n) x"
  by (simp add: numeral_eq_Suc)

lemmas [net_eval] =
  is_digit_def digit_val_def is_hex_def hex_val_def ToLower_def ToUpper_def digits_val_def
  ParseUint10_def show_nat.simps show_hex.simps v4InV6Prefix_def To4_def To16_def ip_Equal_def
  parseIPv4_def parseIPv6_loop.simps expand_ellipsis_def parseIPv6_def ParseAddr_def ParseIP_def
  CIDRMask_def apply_mask_def ParseCIDR_def byte_bits_def mask_bits_def Mask_Size_def
  networkNumberAndMask_def Contains_def zero_run_def show_ip6_def show_ip4_def hex_byte_def
  ip_String_def ipnet_String_def upt_rec_numeral

section \<open>Facts used by the components\<close>

lemma To4_length: "To4 a = Some b \<Longrightarrow> length b = 4"
  by (auto simp: To4_def split: if_splits)

lemma length_v4InV6Prefix [simp]: "length v4InV6Prefix = 12"
  by (simp add: v4InV6Prefix_def)

lemma parseIPv4Fields_length: "parseIPv4Fields v d fs s = Some a \<Longrightarrow> length fs \<le> 3 \<Longrightarrow> length a = 4"
  by (induction v d fs s rule: parseIPv4Fields.induct) (auto split: if_splits)

lemma parseIPv4_length: "parseIPv4 s = Some a \<Longrightarrow> length a = 4"
  by (auto simp: parseIPv4_def dest: parseIPv4Fields_length)

definition ellipsis_ok :: "ip \<Rightarrow> nat option \<Rightarrow> bool" where
  "ellipsis_ok b el \<longleftrightarrow> length b \<le> 16 \<and> (\<forall>e. el = Some e \<longrightarrow> e \<le> length b)"

lemma parseIPv6_loop_length:
  assumes "parseIPv6_loop a el s = Some (b, el', rest)" "ellipsis_ok a el" "even (length a)"
  shows "ellipsis_ok b el'"
  using assms
proof (induction "16 - length a" arbitrary: a el s rule: less_induct)
  case less
  note loop = less.prems(1) [unfolded parseIPv6_loop.simps [of a el s] Let_def]
  show ?case
  proof (cases "length a \<ge> 16")
    case True
    with loop less.prems show ?thesis by simp
  next
    case False
    with less.prems(3) have l: "length a + 2 \<le> 16" by presburger
    have base: "el = e2 \<Longrightarrow> ellipsis_ok (a @ [x, y]) e2"
      "n \<le> length a + 2 \<Longrightarrow> ellipsis_ok (a @ [x, y]) (Some n)" for x y e2 n
      using l less.prems(2) by (auto simp: ellipsis_ok_def le_SucI)
    have v4: "ellipsis_ok (a @ f) e2" if "length f = 4" "\<not> 12 < length a" "el = e2" for f e2
      using that less.prems(2) by (auto simp: ellipsis_ok_def le_SucI)
    have IH: "ellipsis_ok b el'"
      if "parseIPv6_loop (a @ [x, y]) el2 t = Some (b, el', rest)" "ellipsis_ok (a @ [x, y]) el2"
      for x y el2 t
      using less.hyps [OF _ that] l less.prems(3) by simp
    from loop False show ?thesis
      by (auto split: if_splits list.splits option.splits dest!: parseIPv4_length
          intro: IH [OF _ base(1)] IH [OF _ base(2)] base v4)
  qed
qed

lemma parseIPv6_length: "parseIPv6 s = Some a \<Longrightarrow> length a = 16"
proof -
  assume a: "parseIPv6 s = Some a"
  have ok: "ellipsis_ok b el'"
    if "parseIPv6_loop [] el t = Some (b, el', r)" "el = None \<or> el = Some 0" for el t b el' r
    using parseIPv6_loop_length [OF that(1)] that(2) by (auto simp: ellipsis_ok_def)
  have exp: "length c = 16" if "expand_ellipsis b el = Some c" "ellipsis_ok b el" for b el c
    using that by (auto simp: expand_ellipsis_def ellipsis_ok_def split: if_splits option.splits)
  show ?thesis
    using a by (auto simp: parseIPv6_def Let_def split: if_splits option.splits
        dest!: ok exp)
qed

lemma ParseIP_length: "ParseIP s = Some a \<Longrightarrow> length a = 16"
  by (auto simp: ParseIP_def ParseAddr_def dest: parseIPv4_length parseIPv6_length
      split: if_splits list.splits)

section \<open>Masks of CIDR blocks\<close>

text \<open>One byte of \<open>CIDRMask\<close>, and the bits of the whole mask: \<open>ones\<close> ones, then zeros.\<close>

definition mask_byte :: "nat \<Rightarrow> u8" where
  "mask_byte k = (if k \<ge> 8 then 255 else NOT (of_nat (255 div 2 ^ k)))"

lemma byte_bits_mask_byte:
  "byte_bits (mask_byte k) = replicate (min 8 k) True @ replicate (8 - k) False"
proof -
  have small: "list_all (\<lambda>k. byte_bits (mask_byte k) = replicate (min 8 k) True @ replicate (8 - k) False)
    [0..<9]"
    by code_simp
  have "mask_byte k = mask_byte 8" "min 8 k = 8" if "\<not> k < 8"
    using that by (simp_all add: mask_byte_def)
  with small show ?thesis
    by (cases "k < 8") (auto simp: list_all_iff)
qed

lemma concat_mask_bytes:
  "concat (map (\<lambda>i. replicate (min 8 (n - 8 * i)) True @ replicate (8 - (n - 8 * i)) False) [0..<m]) =
   replicate (min n (8 * m)) True @ replicate (8 * m - n) False"
proof (induction m)
  case 0
  then show ?case by simp
next
  case (Suc m)
  show ?case
  proof (cases "n \<le> 8 * m")
    case True
    with Suc show ?thesis by (simp add: min_def replicate_add [symmetric])
  next
    case False
    then have "min n (8 * Suc m) = 8 * m + min 8 (n - 8 * m)" "8 * Suc m - n = 8 - (n - 8 * m)"
      by (auto simp: min_def)
    with Suc False show ?thesis by (simp add: replicate_add)
  qed
qed

lemma CIDRMask_bytes:
  "bits = 32 \<or> bits = 128 \<Longrightarrow> ones \<le> bits \<Longrightarrow>
   CIDRMask ones bits = map (\<lambda>i. mask_byte (ones - 8 * i)) [0..<bits div 8]"
  by (simp add: CIDRMask_def mask_byte_def Let_def)

lemma mask_bits_CIDRMask:
  assumes "bits = 32 \<or> bits = 128" "ones \<le> bits"
  shows "mask_bits (CIDRMask ones bits) = replicate ones True @ replicate (bits - ones) False"
proof -
  have "mask_bits (CIDRMask ones bits) =
    concat (map (\<lambda>i. replicate (min 8 (ones - 8 * i)) True @ replicate (8 - (ones - 8 * i)) False)
      [0..<bits div 8])"
    using assms by (simp add: CIDRMask_bytes mask_bits_def byte_bits_mask_byte comp_def)
  then show ?thesis
    using assms unfolding concat_mask_bytes by (auto simp: min_def)
qed

lemma length_CIDRMask: "bits = 32 \<or> bits = 128 \<Longrightarrow> ones \<le> bits \<Longrightarrow> length (CIDRMask ones bits) = bits div 8"
  by (simp add: CIDRMask_bytes)

lemma Mask_Size_CIDRMask:
  assumes "bits = 32 \<or> bits = 128" "ones \<le> bits"
  shows "Mask_Size (CIDRMask ones bits) = (ones, bits)"
  using assms by (auto simp: Mask_Size_def mask_bits_CIDRMask length_CIDRMask list_all_iff
      dropWhile_append takeWhile_append)

text \<open>A network as \<open>ParseCIDR\<close> returns it: a prefix mask of the width of its address.\<close>

lemma ParseAddr_length:
  "ParseAddr s = Some (Addr4 a) \<Longrightarrow> length a = 4"
  "ParseAddr s = Some (Addr6 a) \<Longrightarrow> length a = 16"
  by (auto simp: ParseAddr_def split: if_splits list.splits dest: parseIPv4_length parseIPv6_length)

definition wf_ipnet :: "ipnet \<Rightarrow> bool" where
  "wf_ipnet n \<longleftrightarrow> (length (IPNet_IP n) = 4 \<or> length (IPNet_IP n) = 16) \<and>
     IPNet_Mask n = CIDRMask (fst (Mask_Size (IPNet_Mask n))) (8 * length (IPNet_IP n)) \<and>
     fst (Mask_Size (IPNet_Mask n)) \<le> 8 * length (IPNet_IP n)"

lemma ParseCIDR_wf:
  assumes "ParseCIDR s = Some (a, n)"
  shows "wf_ipnet n"
proof -
  obtain addr k where addr: "ParseAddr (takeWhile (\<lambda>c. c \<noteq> CHR ''/'') s) = Some addr"
    "k \<le> BitLen addr"
    "n = \<lparr>IPNet_IP = apply_mask (As16 addr) (CIDRMask k (BitLen addr)), IPNet_Mask = CIDRMask k (BitLen addr)\<rparr>"
    using assms by (auto simp: ParseCIDR_def Let_def not_less split: list.splits option.splits if_splits)
  show ?thesis
  proof (cases addr)
    case (Addr4 b)
    with addr ParseAddr_length(1) have "length b = 4" by blast
    then have "length (IPNet_IP n) = 4"
      using addr(2,3) Addr4
      by (simp add: apply_mask_def length_CIDRMask v4InV6Prefix_def)
    with addr Addr4 show ?thesis by (simp add: wf_ipnet_def Mask_Size_CIDRMask)
  next
    case (Addr6 b)
    with addr ParseAddr_length(2) have "length b = 16" by blast
    then have "length (IPNet_IP n) = 16"
      using addr(2,3) Addr6 by (simp add: apply_mask_def length_CIDRMask)
    with addr Addr6 show ?thesis by (simp add: wf_ipnet_def Mask_Size_CIDRMask)
  qed
qed

end
