(* ===== verification/Npol.thy ===== *)
theory Npol
  imports NetAddr
begin

text \<open>
  \<open>vpplink/types/npol.go\<close>, \<open>vpplink/types/ip_types.go\<close> and \<open>vpplink/npol.go\<close>: the network
  policy objects as the agent holds them (rules, policies, interface configurations), their encoding
  into the messages of VPP's npol API, and the calls that send them. A call returns an error or, for
  the three create calls, the identifier VPP chose.
\<close>

section \<open>Errors\<close>

datatype go_error =
    EVpp
  | EUnknownAction string
  | EProtocolAndNotProtocol
  | EUnknownProtocol string
  | ECannotParseProtocol
  | EParseCIDR string
  | EParseIP string
  | EParseIPPort string
  | EIpsetNotCreated string
  | EIpsetTypeMismatch
  | EPolicyNotFound
  | EPolicyNotCreated
  | EProfileNotFound
  | EProfileNotCreated
  | EUnconfiguredWep
  | ENotSyncing
  | ENotConnected
  | EDeltaNonExistentIpset
  | EFelixConfig
  | ENodeSpec
  | ENodeNotFound
  | ENodeWatcherRestart
  | ESnatPrefix
  | EUplinkWithoutTap
  | EAccept

section \<open>Addresses in the VPP API\<close>

definition InvalidID :: u32 where
  "InvalidID = - 1"

datatype vpp_address = ADDRESS_IP4 ip | ADDRESS_IP6 ip

record vpp_prefix =
  Pfx_Address :: vpp_address
  Pfx_Len :: u8

text \<open>\<open>copy(arr[:], xs)\<close> into a zeroed array of \<open>n\<close> bytes.\<close>

definition copy_array :: "nat \<Rightarrow> u8 list \<Rightarrow> u8 list" where
  "copy_array n xs = take n xs @ replicate (n - length xs) 0"

definition ToVppIP4Address :: "ip \<Rightarrow> ip" where
  "ToVppIP4Address a = copy_array 4 (case To4 a of None \<Rightarrow> [] | Some a4 \<Rightarrow> a4)"

definition ToVppIP6Address :: "ip \<Rightarrow> ip" where
  "ToVppIP6Address a = copy_array 16 a"

definition ToVppAddress :: "ip \<Rightarrow> vpp_address" where
  "ToVppAddress a = (case To4 a of None \<Rightarrow> ADDRESS_IP6 (copy_array 16 a)
     | Some a4 \<Rightarrow> ADDRESS_IP4 (copy_array 4 a4))"

fun FromVppAddress :: "vpp_address \<Rightarrow> ip" where
  "FromVppAddress (ADDRESS_IP6 a) = a"
| "FromVppAddress (ADDRESS_IP4 a) = a"

definition ToVppPrefix :: "ipnet \<Rightarrow> vpp_prefix" where
  "ToVppPrefix p = \<lparr>Pfx_Address = ToVppAddress (IPNet_IP p),
     Pfx_Len = of_nat (fst (Mask_Size (IPNet_Mask p)))\<rparr>"

definition FromVppPrefix :: "vpp_prefix \<Rightarrow> ipnet" where
  "FromVppPrefix p =
     (let addressSize = (case Pfx_Address p of ADDRESS_IP6 _ \<Rightarrow> 128 | ADDRESS_IP4 _ \<Rightarrow> 32) in
      \<lparr>IPNet_IP = FromVppAddress (Pfx_Address p), IPNet_Mask = CIDRMask (unat (Pfx_Len p)) addressSize\<rparr>)"

text \<open>\<open>types.GetIPFamily\<close> and the predicates on it.\<close>

definition IsIP4 :: "ip \<Rightarrow> bool" where
  "IsIP4 a \<longleftrightarrow> (if length a \<le> 4 then True else To4 a \<noteq> None)"

definition IsIP6 :: "ip \<Rightarrow> bool" where
  "IsIP6 a \<longleftrightarrow> (if length a \<le> 4 then False else To4 a = None)"

definition AddrFamilyDiffers :: "ip \<Rightarrow> ip \<Rightarrow> bool" where
  "AddrFamilyDiffers a b \<longleftrightarrow> IsIP4 a \<and> IsIP4 b \<or> IsIP6 a \<and> IsIP6 b"

section \<open>Rules, policies and interface configurations\<close>

datatype IpsetType = IpsetTypeIP | IpsetTypeIPPort | IpsetTypeNet

fun IpsetType_String :: "IpsetType \<Rightarrow> string" where
  "IpsetType_String IpsetTypeIP = ''ip''"
| "IpsetType_String IpsetTypeIPPort = ''ipport''"
| "IpsetType_String IpsetTypeNet = ''net''"

record IPPort =
  IPP_Addr :: ip
  IPP_L4Proto :: u8
  IPP_Port :: u16

definition IPPort_Equal :: "IPPort \<Rightarrow> IPPort \<Rightarrow> bool" where
  "IPPort_Equal i j \<longleftrightarrow> IPP_Port i = IPP_Port j \<and> IPP_L4Proto i = IPP_L4Proto j \<and>
     ip_Equal (IPP_Addr i) (IPP_Addr j)"

datatype RuleAction = ActionAllow | ActionDeny | ActionLog | ActionPass

fun RuleAction_String :: "RuleAction \<Rightarrow> string" where
  "RuleAction_String ActionAllow = ''allow''"
| "RuleAction_String ActionDeny = ''deny''"
| "RuleAction_String ActionLog = ''log''"
| "RuleAction_String ActionPass = ''pass''"

record PortRange =
  PR_First :: u16
  PR_Last :: u16

definition PortRange_String :: "PortRange \<Rightarrow> string" where
  "PortRange_String pr =
     (if PR_First pr = PR_Last pr then show_nat (unat (PR_First pr))
      else show_nat (unat (PR_First pr)) @ ''-'' @ show_nat (unat (PR_Last pr)))"

datatype NpolFilterType = NpolFilterTypeNone | NpolFilterICMPType | NpolFilterICMPCode | NpolFilterProto

record RuleFilter =
  RF_ShouldMatch :: bool
  RF_Type :: NpolFilterType
  RF_Value :: int

text \<open>\<open>types.Rule\<close>\<close>

record NRule =
  Action :: RuleAction
  Filters :: "RuleFilter list"
  DstNet :: "ipnet list"
  DstNotNet :: "ipnet list"
  SrcNet :: "ipnet list"
  SrcNotNet :: "ipnet list"
  DstPortRange :: "PortRange list"
  DstNotPortRange :: "PortRange list"
  SrcPortRange :: "PortRange list"
  SrcNotPortRange :: "PortRange list"
  DstIPPortIPSet :: "u32 list"
  DstNotIPPortIPSet :: "u32 list"
  SrcIPPortIPSet :: "u32 list"
  SrcNotIPPortIPSet :: "u32 list"
  DstIPSet :: "u32 list"
  DstNotIPSet :: "u32 list"
  SrcIPSet :: "u32 list"
  SrcNotIPSet :: "u32 list"
  DstIPPortSet :: "u32 list"

text \<open>\<open>&types.Rule{Action: a}\<close>: the other fields have their zero value.\<close>

definition zero_NRule :: "RuleAction \<Rightarrow> NRule" where
  "zero_NRule a = \<lparr>Action = a, Filters = [], DstNet = [], DstNotNet = [], SrcNet = [], SrcNotNet = [],
     DstPortRange = [], DstNotPortRange = [], SrcPortRange = [], SrcNotPortRange = [],
     DstIPPortIPSet = [], DstNotIPPortIPSet = [], SrcIPPortIPSet = [], SrcNotIPPortIPSet = [],
     DstIPSet = [], DstNotIPSet = [], SrcIPSet = [], SrcNotIPSet = [], DstIPPortSet = []\<rparr>"

text \<open>\<open>types.Rule.DeepCopy\<close>: a fresh slice of the same length, filled by \<open>copy\<close>, for every field.\<close>

definition copy_slice :: "'a list \<Rightarrow> 'a list" where
  "copy_slice xs = take (length xs) xs"

definition NRule_DeepCopy :: "NRule \<Rightarrow> NRule" where
  "NRule_DeepCopy r = \<lparr>Action = Action r, Filters = copy_slice (Filters r),
     DstNet = copy_slice (DstNet r), DstNotNet = copy_slice (DstNotNet r),
     SrcNet = copy_slice (SrcNet r), SrcNotNet = copy_slice (SrcNotNet r),
     DstPortRange = copy_slice (DstPortRange r), DstNotPortRange = copy_slice (DstNotPortRange r),
     SrcPortRange = copy_slice (SrcPortRange r), SrcNotPortRange = copy_slice (SrcNotPortRange r),
     DstIPPortIPSet = copy_slice (DstIPPortIPSet r), DstNotIPPortIPSet = copy_slice (DstNotIPPortIPSet r),
     SrcIPPortIPSet = copy_slice (SrcIPPortIPSet r), SrcNotIPPortIPSet = copy_slice (SrcNotIPPortIPSet r),
     DstIPSet = copy_slice (DstIPSet r), DstNotIPSet = copy_slice (DstNotIPSet r),
     SrcIPSet = copy_slice (SrcIPSet r), SrcNotIPSet = copy_slice (SrcNotIPSet r),
     DstIPPortSet = copy_slice (DstIPPortSet r)\<rparr>"

text \<open>\<open>types.Policy\<close>\<close>

record NPolicy =
  InboundRuleIDs :: "u32 list"
  OutboundRuleIDs :: "u32 list"

definition NPolicy_DeepCopy :: "NPolicy \<Rightarrow> NPolicy" where
  "NPolicy_DeepCopy p = \<lparr>InboundRuleIDs = copy_slice (InboundRuleIDs p),
     OutboundRuleIDs = copy_slice (OutboundRuleIDs p)\<rparr>"

datatype NpolPolicyDefault = NPOL_DEFAULT_ALLOW | NPOL_DEFAULT_DENY | NPOL_DEFAULT_PASS

record InterfaceConfig =
  IngressPolicyIDs :: "u32 list"
  EgressPolicyIDs :: "u32 list"
  ProfileIDs :: "u32 list"
  PolicyDefaultEgress :: NpolPolicyDefault
  PolicyDefaultIngress :: NpolPolicyDefault
  ProfileDefaultEgress :: NpolPolicyDefault
  ProfileDefaultIngress :: NpolPolicyDefault

definition NewInterfaceConfig :: InterfaceConfig where
  "NewInterfaceConfig = \<lparr>IngressPolicyIDs = [], EgressPolicyIDs = [], ProfileIDs = [],
     PolicyDefaultEgress = NPOL_DEFAULT_ALLOW, PolicyDefaultIngress = NPOL_DEFAULT_ALLOW,
     ProfileDefaultEgress = NPOL_DEFAULT_DENY, ProfileDefaultIngress = NPOL_DEFAULT_DENY\<rparr>"

section \<open>Text forms\<close>

text \<open>The list printers of \<open>npol.go\<close>: an empty list prints as nothing, not even the prefix.\<close>

definition listToString :: "('a \<Rightarrow> string) \<Rightarrow> string \<Rightarrow> 'a list \<Rightarrow> string" where
  "listToString str prefix lst =
     (if lst = [] then [] else prefix @ ''['' @ joinWith '','' (map str lst) @ '']'')"

definition StrListToString :: "string \<Rightarrow> string list \<Rightarrow> string" where
  "StrListToString prefix lst = listToString (\<lambda>s. s) prefix lst"

definition IntListToString :: "string \<Rightarrow> u32 list \<Rightarrow> string" where
  "IntListToString prefix lst = listToString (\<lambda>i. show_nat (unat i)) prefix lst"

definition show_int :: "int \<Rightarrow> string" where
  "show_int i = (if i < 0 then ''-'' @ show_nat (nat (- i)) else show_nat (nat i))"

fun NpolFilterType_String :: "NpolFilterType \<Rightarrow> string" where
  "NpolFilterType_String NpolFilterTypeNone = ''none''"
| "NpolFilterType_String NpolFilterICMPType = ''icmp-type''"
| "NpolFilterType_String NpolFilterICMPCode = ''icmp-code''"
| "NpolFilterType_String NpolFilterProto = ''proto''"

definition RuleFilter_String :: "RuleFilter \<Rightarrow> string" where
  "RuleFilter_String f = NpolFilterType_String (RF_Type f) @
     (if RF_ShouldMatch f then ''=='' else ''!='') @ show_int (RF_Value f)"

definition NRule_String :: "NRule \<Rightarrow> string" where
  "NRule_String r = ''action='' @ RuleAction_String (Action r) @
     listToString RuleFilter_String ''filters='' (Filters r) @
     listToString ipnet_String '' dst=='' (DstNet r) @
     listToString ipnet_String '' dst!='' (DstNotNet r) @
     listToString ipnet_String '' src=='' (SrcNet r) @
     listToString ipnet_String '' src!='' (SrcNotNet r) @
     listToString PortRange_String '' dport=='' (DstPortRange r) @
     listToString PortRange_String '' dport!='' (DstNotPortRange r) @
     listToString PortRange_String '' sport=='' (SrcPortRange r) @
     listToString PortRange_String '' sport!='' (SrcNotPortRange r) @
     IntListToString '' dipport=='' (DstIPPortIPSet r) @
     IntListToString '' dipport!='' (DstNotIPPortIPSet r) @
     IntListToString '' sipport=='' (SrcIPPortIPSet r) @
     IntListToString '' sipport!='' (SrcNotIPPortIPSet r) @
     IntListToString '' dipport2=='' (DstIPPortSet r) @
     IntListToString '' dipset=='' (DstIPSet r) @
     IntListToString '' dipset!='' (DstNotIPSet r) @
     IntListToString '' sipset=='' (SrcIPSet r) @
     IntListToString '' sipset!='' (SrcNotIPSet r)"

section \<open>Encoding into npol messages\<close>

record NpolRuleFilter =
  NF_Value :: u32
  NF_Type :: NpolFilterType
  NF_ShouldMatch :: u8

datatype NpolEntryType = NPOL_CIDR | NPOL_PORT_RANGE | NPOL_PORT_IP_SET | NPOL_IP_SET

text \<open>The entry data is a union in the API.\<close>

datatype NpolEntryData = ED_Cidr vpp_prefix | ED_PortRange u16 u16 | ED_SetID u32

record NpolRuleEntry =
  NE_IsSrc :: bool
  NE_IsNot :: bool
  NE_Type :: NpolEntryType
  NE_Data :: NpolEntryData

record NpolRule =
  NR_Action :: RuleAction
  NR_Filters :: "NpolRuleFilter list"
  NR_Matches :: "NpolRuleEntry list"

record NpolPolicyItem =
  NPI_IsInbound :: bool
  NPI_RuleID :: u32

definition boolToU8 :: "bool \<Rightarrow> u8" where
  "boolToU8 v = (if v then 1 else 0)"

definition toNpolFilter :: "RuleFilter \<Rightarrow> NpolRuleFilter" where
  "toNpolFilter f = \<lparr>NF_Value = of_int (RF_Value f), NF_Type = RF_Type f,
     NF_ShouldMatch = boolToU8 (RF_ShouldMatch f)\<rparr>"

text \<open>The message has room for three filters; the rest of the slice is dropped, and the places
  that are left keep the zero value.\<close>

definition zero_NpolRuleFilter :: NpolRuleFilter where
  "zero_NpolRuleFilter = \<lparr>NF_Value = 0, NF_Type = NpolFilterTypeNone, NF_ShouldMatch = 0\<rparr>"

definition npol_filters :: "RuleFilter list \<Rightarrow> NpolRuleFilter list" where
  "npol_filters fs = map toNpolFilter (take 3 fs) @ replicate (3 - length fs) zero_NpolRuleFilter"

definition cidr_entry :: "bool \<Rightarrow> bool \<Rightarrow> ipnet \<Rightarrow> NpolRuleEntry" where
  "cidr_entry src neg n =
     \<lparr>NE_IsSrc = src, NE_IsNot = neg, NE_Type = NPOL_CIDR, NE_Data = ED_Cidr (ToVppPrefix n)\<rparr>"

definition port_entry :: "bool \<Rightarrow> bool \<Rightarrow> PortRange \<Rightarrow> NpolRuleEntry" where
  "port_entry src neg pr =
     \<lparr>NE_IsSrc = src, NE_IsNot = neg, NE_Type = NPOL_PORT_RANGE,
      NE_Data = ED_PortRange (PR_First pr) (PR_Last pr)\<rparr>"

definition set_entry :: "bool \<Rightarrow> bool \<Rightarrow> NpolEntryType \<Rightarrow> u32 \<Rightarrow> NpolRuleEntry" where
  "set_entry src neg ty i =
     \<lparr>NE_IsSrc = src, NE_IsNot = neg, NE_Type = ty, NE_Data = ED_SetID i\<rparr>"

definition ToNpolRule :: "NRule \<Rightarrow> NpolRule" where
  "ToNpolRule r = \<lparr>NR_Action = Action r, NR_Filters = npol_filters (Filters r),
     NR_Matches =
       map (cidr_entry False False) (DstNet r) @
       map (cidr_entry False True) (DstNotNet r) @
       map (cidr_entry True False) (SrcNet r) @
       map (cidr_entry True True) (SrcNotNet r) @
       map (port_entry False False) (DstPortRange r) @
       map (port_entry False True) (DstNotPortRange r) @
       map (port_entry True False) (SrcPortRange r) @
       map (port_entry True True) (SrcNotPortRange r) @
       map (set_entry False False NPOL_PORT_IP_SET) (DstIPPortIPSet r) @
       map (set_entry False True NPOL_PORT_IP_SET) (DstNotIPPortIPSet r) @
       map (set_entry True False NPOL_PORT_IP_SET) (SrcIPPortIPSet r) @
       map (set_entry True True NPOL_PORT_IP_SET) (SrcNotIPPortIPSet r) @
       map (set_entry False False NPOL_IP_SET) (DstIPSet r) @
       map (set_entry False True NPOL_IP_SET) (DstNotIPSet r) @
       map (set_entry True False NPOL_IP_SET) (SrcIPSet r) @
       map (set_entry True True NPOL_IP_SET) (SrcNotIPSet r) @
       map (set_entry False False NPOL_PORT_IP_SET) (DstIPPortSet r)\<rparr>"

text \<open>Calico policies are written from the point of view of the pod; in VPP the direction is
  reversed.\<close>

definition ToNpolPolicy :: "NPolicy \<Rightarrow> NpolPolicyItem list" where
  "ToNpolPolicy p =
     map (\<lambda>rid. \<lparr>NPI_IsInbound = False, NPI_RuleID = rid\<rparr>) (InboundRuleIDs p) @
     map (\<lambda>rid. \<lparr>NPI_IsInbound = True, NPI_RuleID = rid\<rparr>) (OutboundRuleIDs p)"

section \<open>The calls\<close>

datatype NpolIpsetMember =
    MemberAddress vpp_address
  | MemberPrefix vpp_prefix
  | MemberTuple vpp_address u8 u16

record NpolConfigurePoliciesMsg =
  CP_SwIfIndex :: u32
  CP_NumRxPolicies :: u32
  CP_NumTxPolicies :: u32
  CP_TotalIds :: u32
  CP_PolicyIds :: "u32 list"
  CP_InvertRxTx :: u8
  CP_PolicyDefaultRx :: NpolPolicyDefault
  CP_PolicyDefaultTx :: NpolPolicyDefault
  CP_ProfileDefaultRx :: NpolPolicyDefault
  CP_ProfileDefaultTx :: NpolPolicyDefault

datatype vpp_call =
    NpolIpsetCreate IpsetType
  | NpolIpsetDelete u32
  | NpolIpsetAddDelMembers u32 bool u32 "NpolIpsetMember list"
  | NpolRuleCreate NpolRule
  | NpolRuleUpdate u32 NpolRule
  | NpolRuleDelete u32
  | NpolPolicyCreate "NpolPolicyItem list"
  | NpolPolicyUpdate u32 "NpolPolicyItem list"
  | NpolPolicyDelete u32
  | NpolConfigurePolicies NpolConfigurePoliciesMsg
  | CnatSetSnatAddressesV2 ip ip
  | CnatSnatPolicyAddDelExcludePfx u8 vpp_prefix

text \<open>A reply is an error or a value; only the create calls look at the value.\<close>

datatype vpp_reply = VppFailed | VppReply u32

type_synonym vpp = "(vpp_call, vpp_reply) service"
type_synonym vhist = "(vpp_call, vpp_reply) hist"

definition vpp_exec :: "vpp \<Rightarrow> vpp_call \<Rightarrow> (vhist, go_error) cmd" where
  "vpp_exec vpp c h = (case call vpp c h of
     (VppFailed, h') \<Rightarrow> (Fail EVpp, h') | (VppReply _, h') \<Rightarrow> (Done, h'))"

text \<open>A create call: \<open>None\<close> is the error, else the identifier of the reply.\<close>

definition vpp_create :: "vpp \<Rightarrow> vpp_call \<Rightarrow> vhist \<Rightarrow> u32 option \<times> vhist" where
  "vpp_create vpp c h = (case call vpp c h of
     (VppFailed, h') \<Rightarrow> (None, h') | (VppReply i, h') \<Rightarrow> (Some i, h'))"

definition IpsetCreate :: "vpp \<Rightarrow> IpsetType \<Rightarrow> vhist \<Rightarrow> u32 option \<times> vhist" where
  "IpsetCreate vpp ty = vpp_create vpp (NpolIpsetCreate ty)"

definition IpsetDelete :: "vpp \<Rightarrow> u32 \<Rightarrow> (vhist, go_error) cmd" where
  "IpsetDelete vpp i = vpp_exec vpp (NpolIpsetDelete i)"

definition addDelIpsetMembers :: "vpp \<Rightarrow> u32 \<Rightarrow> bool \<Rightarrow> NpolIpsetMember list \<Rightarrow> (vhist, go_error) cmd" where
  "addDelIpsetMembers vpp i isAdd ms =
     vpp_exec vpp (NpolIpsetAddDelMembers i isAdd (of_nat (length ms)) ms)"

definition addDelIpsetIPMembers :: "vpp \<Rightarrow> u32 \<Rightarrow> bool \<Rightarrow> ip list \<Rightarrow> (vhist, go_error) cmd" where
  "addDelIpsetIPMembers vpp i isAdd ms =
     addDelIpsetMembers vpp i isAdd (map (\<lambda>m. MemberAddress (ToVppAddress m)) ms)"

definition addDelIpsetNetMembers :: "vpp \<Rightarrow> u32 \<Rightarrow> bool \<Rightarrow> ipnet list \<Rightarrow> (vhist, go_error) cmd" where
  "addDelIpsetNetMembers vpp i isAdd ms =
     addDelIpsetMembers vpp i isAdd (map (\<lambda>m. MemberPrefix (ToVppPrefix m)) ms)"

definition addDelIpsetIPPortMembers :: "vpp \<Rightarrow> u32 \<Rightarrow> bool \<Rightarrow> IPPort list \<Rightarrow> (vhist, go_error) cmd" where
  "addDelIpsetIPPortMembers vpp i isAdd ms =
     addDelIpsetMembers vpp i isAdd
       (map (\<lambda>m. MemberTuple (ToVppAddress (IPP_Addr m)) (IPP_L4Proto m) (IPP_Port m)) ms)"

definition RuleCreate :: "vpp \<Rightarrow> NRule \<Rightarrow> vhist \<Rightarrow> u32 option \<times> vhist" where
  "RuleCreate vpp r = vpp_create vpp (NpolRuleCreate (ToNpolRule r))"

definition RuleUpdate :: "vpp \<Rightarrow> u32 \<Rightarrow> NRule \<Rightarrow> (vhist, go_error) cmd" where
  "RuleUpdate vpp i r = vpp_exec vpp (NpolRuleUpdate i (ToNpolRule r))"

definition RuleDelete :: "vpp \<Rightarrow> u32 \<Rightarrow> (vhist, go_error) cmd" where
  "RuleDelete vpp i = vpp_exec vpp (NpolRuleDelete i)"

definition PolicyCreate :: "vpp \<Rightarrow> NPolicy \<Rightarrow> vhist \<Rightarrow> u32 option \<times> vhist" where
  "PolicyCreate vpp p = vpp_create vpp (NpolPolicyCreate (ToNpolPolicy p))"

definition PolicyUpdate :: "vpp \<Rightarrow> u32 \<Rightarrow> NPolicy \<Rightarrow> (vhist, go_error) cmd" where
  "PolicyUpdate vpp i p = vpp_exec vpp (NpolPolicyUpdate i (ToNpolPolicy p))"

definition PolicyDelete :: "vpp \<Rightarrow> u32 \<Rightarrow> (vhist, go_error) cmd" where
  "PolicyDelete vpp i = vpp_exec vpp (NpolPolicyDelete i)"

definition configure_msg :: "u32 \<Rightarrow> InterfaceConfig \<Rightarrow> u8 \<Rightarrow> NpolConfigurePoliciesMsg" where
  "configure_msg swIfIndex conf invertRxTx =
     (let rx = EgressPolicyIDs conf; tx = IngressPolicyIDs conf; profiles = ProfileIDs conf in
      \<lparr>CP_SwIfIndex = swIfIndex, CP_NumRxPolicies = of_nat (length rx),
       CP_NumTxPolicies = of_nat (length tx),
       CP_TotalIds = of_nat (length rx + length tx + length profiles),
       CP_PolicyIds = rx @ tx @ profiles, CP_InvertRxTx = invertRxTx,
       CP_PolicyDefaultRx = PolicyDefaultEgress conf, CP_PolicyDefaultTx = PolicyDefaultIngress conf,
       CP_ProfileDefaultRx = ProfileDefaultEgress conf,
       CP_ProfileDefaultTx = ProfileDefaultIngress conf\<rparr>)"

definition ConfigurePolicies :: "vpp \<Rightarrow> u32 \<Rightarrow> InterfaceConfig \<Rightarrow> u8 \<Rightarrow> (vhist, go_error) cmd" where
  "ConfigurePolicies vpp swIfIndex conf invertRxTx =
     vpp_exec vpp (NpolConfigurePolicies (configure_msg swIfIndex conf invertRxTx))"

definition CnatSetSnatAddresses :: "vpp \<Rightarrow> ip \<Rightarrow> ip \<Rightarrow> (vhist, go_error) cmd" where
  "CnatSetSnatAddresses vpp v4 v6 =
     vpp_exec vpp (CnatSetSnatAddressesV2 (ToVppIP4Address v4) (ToVppIP6Address v6))"

definition CnatAddDelSnatPrefix :: "vpp \<Rightarrow> ipnet \<Rightarrow> bool \<Rightarrow> (vhist, go_error) cmd" where
  "CnatAddDelSnatPrefix vpp prefix isAdd =
     vpp_exec vpp (CnatSnatPolicyAddDelExcludePfx (boolToU8 isAdd) (ToVppPrefix prefix))"

section \<open>What the messages carry\<close>

lemma vpp_prefix_roundtrip:
  assumes "wf_ipnet n" "length (IPNet_IP n) = 16 \<longrightarrow> To4 (IPNet_IP n) = None"
  shows "FromVppPrefix (ToVppPrefix n) = n"
proof -
  have k: "fst (Mask_Size (IPNet_Mask n)) < 256"
    using assms(1) by (auto simp: wf_ipnet_def)
  then have u: "unat (of_nat (fst (Mask_Size (IPNet_Mask n))) :: u8) = fst (Mask_Size (IPNet_Mask n))"
    by (simp add: unat_of_nat)
  from assms(1) consider "length (IPNet_IP n) = 4" | "length (IPNet_IP n) = 16"
    by (auto simp: wf_ipnet_def)
  then have "FromVppPrefix (ToVppPrefix n) =
    \<lparr>IPNet_IP = IPNet_IP n, IPNet_Mask = CIDRMask (fst (Mask_Size (IPNet_Mask n))) (8 * length (IPNet_IP n))\<rparr>"
    using assms(2) u
    by cases (simp_all add: FromVppPrefix_def ToVppPrefix_def ToVppAddress_def To4_def copy_array_def)
  also have "\<dots> = n" using assms(1) by (simp add: wf_ipnet_def)
  finally show ?thesis .
qed

text \<open>C13: A CIDR the agent parsed survives the trip through the VPP prefix encoding: decoding the encoded
  prefix gives the same network, for every IPv4 block and every IPv6 block outside the IPv4-mapped
  range.\<close>

theorem parsed_prefix_roundtrip:
  assumes "ParseCIDR s = Some (a, n)" "length (IPNet_IP n) = 16 \<longrightarrow> To4 (IPNet_IP n) = None"
  shows "FromVppPrefix (ToVppPrefix n) = n"
  using vpp_prefix_roundtrip ParseCIDR_wf assms by blast

theorem parsed_prefix_roundtrip_witness:
  "FromVppPrefix (ToVppPrefix \<lparr>IPNet_IP = [10, 1, 0, 0], IPNet_Mask = [255, 255, 0, 0]\<rparr>) =
   \<lparr>IPNet_IP = [10, 1, 0, 0], IPNet_Mask = [255, 255, 0, 0]\<rparr>"
  by (rule parsed_prefix_roundtrip [where s = "''10.1.2.3/16''" and a = "v4InV6Prefix @ [10, 1, 2, 3]"])
    (simp_all add: net_eval Let_def upt_rec)

text \<open>The entries of a rule message of one kind: direction, negation and entry type.\<close>

definition wire_entries :: "bool \<Rightarrow> bool \<Rightarrow> NpolEntryType \<Rightarrow> NpolRule \<Rightarrow> NpolEntryData list" where
  "wire_entries src neg ty m =
     map NE_Data (filter (\<lambda>e. NE_IsSrc e = src \<and> NE_IsNot e = neg \<and> NE_Type e = ty) (NR_Matches m))"

lemmas entry_defs = cidr_entry_def port_entry_def set_entry_def

lemma wire_entries_ToNpolRule:
  "wire_entries src neg NPOL_CIDR (ToNpolRule r) = map (ED_Cidr \<circ> ToVppPrefix)
     (if src then if neg then SrcNotNet r else SrcNet r else if neg then DstNotNet r else DstNet r)"
  "wire_entries src neg NPOL_PORT_RANGE (ToNpolRule r) = map (\<lambda>p. ED_PortRange (PR_First p) (PR_Last p))
     (if src then if neg then SrcNotPortRange r else SrcPortRange r
      else if neg then DstNotPortRange r else DstPortRange r)"
  "wire_entries src neg NPOL_PORT_IP_SET (ToNpolRule r) = map ED_SetID
     (if src then if neg then SrcNotIPPortIPSet r else SrcIPPortIPSet r
      else if neg then DstNotIPPortIPSet r else DstIPPortIPSet r @ DstIPPortSet r)"
  "wire_entries src neg NPOL_IP_SET (ToNpolRule r) = map ED_SetID
     (if src then if neg then SrcNotIPSet r else SrcIPSet r
      else if neg then DstNotIPSet r else DstIPSet r)"
  by (cases src; cases neg; simp add: wire_entries_def ToNpolRule_def entry_defs comp_def filter_map)+

text \<open>C12: The rule message carries the rule: its action, its first three filters, and for every
  direction, negation and entry type exactly the entries of the one field of the rule that stands
  for them, in order; the two destination port-and-address fields share one kind.\<close>

theorem ToNpolRule_faithful:
  "NR_Action (ToNpolRule r) = Action r \<and>
   length (NR_Filters (ToNpolRule r)) = 3 \<and>
   take (length (Filters r)) (NR_Filters (ToNpolRule r)) = map toNpolFilter (take 3 (Filters r)) \<and>
   wire_entries src neg NPOL_CIDR (ToNpolRule r) = map (ED_Cidr \<circ> ToVppPrefix)
     (if src then if neg then SrcNotNet r else SrcNet r else if neg then DstNotNet r else DstNet r) \<and>
   wire_entries src neg NPOL_PORT_RANGE (ToNpolRule r) = map (\<lambda>p. ED_PortRange (PR_First p) (PR_Last p))
     (if src then if neg then SrcNotPortRange r else SrcPortRange r
      else if neg then DstNotPortRange r else DstPortRange r) \<and>
   wire_entries src neg NPOL_PORT_IP_SET (ToNpolRule r) = map ED_SetID
     (if src then if neg then SrcNotIPPortIPSet r else SrcIPPortIPSet r
      else if neg then DstNotIPPortIPSet r else DstIPPortIPSet r @ DstIPPortSet r) \<and>
   wire_entries src neg NPOL_IP_SET (ToNpolRule r) = map ED_SetID
     (if src then if neg then SrcNotIPSet r else SrcIPSet r
      else if neg then DstNotIPSet r else DstIPSet r)"
  by (intro conjI wire_entries_ToNpolRule)
    (simp_all add: ToNpolRule_def npol_filters_def)

text \<open>How a receiver splits the identifier list of the message by its counters.\<close>

definition decode_configure :: "NpolConfigurePoliciesMsg \<Rightarrow> u32 list \<times> u32 list \<times> u32 list" where
  "decode_configure m =
     (let rx = unat (CP_NumRxPolicies m); tx = unat (CP_NumTxPolicies m); ids = take (unat (CP_TotalIds m)) (CP_PolicyIds m) in
      (take rx ids, take tx (drop rx ids), drop (rx + tx) ids))"

lemma decode_configure_roundtrip:
  assumes "length (EgressPolicyIDs c) + length (IngressPolicyIDs c) + length (ProfileIDs c) < 2 ^ 32"
  shows "decode_configure (configure_msg sw c invert) = (EgressPolicyIDs c, IngressPolicyIDs c, ProfileIDs c)"
proof -
  have "unat (of_nat k :: u32) = k" if "k < 2 ^ 32" for k
    using that by (simp add: unat_of_nat)
  with assms show ?thesis
    by (simp add: decode_configure_def configure_msg_def Let_def del: of_nat_add)
qed

text \<open>A receiver that splits the identifier list of the configure message by the counters in it
  gets the egress policies, the ingress policies and the profiles of the interface, each complete
  and in order, as long as there are fewer than 2^32 of them.\<close>

theorem decode_configure_msg:
  assumes "length (EgressPolicyIDs c) + length (IngressPolicyIDs c) + length (ProfileIDs c) < 2 ^ 32"
  shows "decode_configure (configure_msg sw c invert) = (EgressPolicyIDs c, IngressPolicyIDs c, ProfileIDs c)"
  using assms by (rule decode_configure_roundtrip)

theorem decode_configure_msg_witness:
  "decode_configure (configure_msg 7 (NewInterfaceConfig\<lparr>IngressPolicyIDs := [1, 2], EgressPolicyIDs := [3],
     ProfileIDs := [4]\<rparr>) 1) = ([3], [1, 2], [4])"
  by (subst decode_configure_msg) (simp_all add: NewInterfaceConfig_def)

end
