(* ===== verification/FelixIPSet.thy ===== *)
theory FelixIPSet
  imports Npol
begin

text \<open>
  \<open>felix/ipset.go\<close>: the sets of addresses, address-and-port tuples and networks that rules refer to.
  The agent keeps a set as a map from the member's text to its parsed value and sends the values to
  VPP. The methods mutate their receiver, so each is a command on the pair of the receiver and the
  history of VPP calls. \<open>vpp_members\<close> reads off a history which members VPP was told to hold.
\<close>

section \<open>Commands on a receiver\<close>

text \<open>A VPP call made by a method leaves the receiver alone.\<close>

definition on_vpp :: "(vhist, go_error) cmd \<Rightarrow> ('o \<times> vhist, go_error) cmd" where
  [go_defs]: "on_vpp c s = (case c (snd s) of (st, h') \<Rightarrow> (st, (fst s, h')))"

definition on_obj :: "('o \<Rightarrow> 'o) \<Rightarrow> ('o \<times> vhist, go_error) cmd" where
  [go_defs]: "on_obj f s = (Done, (f (fst s), snd s))"

definition whenC :: "bool \<Rightarrow> ('s, 'e) cmd \<Rightarrow> ('s, 'e) cmd" where
  [go_defs]: "whenC b c = (if b then c else skip)"

lemma on_vpp_eq: "on_vpp c s = (st, s') \<longleftrightarrow> c (snd s) = (st, snd s') \<and> fst s' = fst s"
  by (cases s') (auto simp: on_vpp_def split: prod.splits)

lemma on_obj_eq: "on_obj f s = (st, s') \<longleftrightarrow> st = Done \<and> s' = (f (fst s), snd s)"
  by (auto simp: on_obj_def)

section \<open>The type\<close>

record IPSet =
  IPS_VppID :: u32
  IPS_Type :: IpsetType
  IPPorts :: "(string, IPPort) gomap"
  Addresses :: "(string, ip) gomap"
  Networks :: "(string, ipnet) gomap"

definition protos :: "(string, u8) gomap" where
  "protos = [(''tcp'', 6), (''udp'', 17), (''sctp'', 132)]"

text \<open>The fields the constructor does not name have their zero value: identifier 0, kind IP.\<close>

definition NewIPSet :: IPSet where
  "NewIPSet = \<lparr>IPS_VppID = 0, IPS_Type = IpsetTypeIP, IPPorts = [], Addresses = [], Networks = []\<rparr>"

section \<open>Parsing members\<close>

definition parseIPPort :: "string \<Rightarrow> go_error + IPPort" where
  "parseIPPort ipps =
     (case Split CHR '','' ipps of
        [addr, pp] \<Rightarrow>
          (case Split CHR '':'' pp of
             [pr, po] \<Rightarrow>
               (case ParseUint10 po 16 of
                  None \<Rightarrow> Inl (EParseIPPort ipps)
                | Some port \<Rightarrow>
                    (case (ParseIP addr, mget protos pr) of
                       (Some a, Some l4) \<Rightarrow>
                         Inr \<lparr>IPP_Addr = a, IPP_L4Proto = l4, IPP_Port = of_nat port\<rparr>
                     | _ \<Rightarrow> Inl (EParseIPPort ipps)))
           | _ \<Rightarrow> Inl (EParseIPPort ipps))
      | _ \<Rightarrow> Inl (EParseIPPort ipps))"

definition parseIPMember :: "string \<Rightarrow> go_error + ip" where
  "parseIPMember s = (case ParseIP s of None \<Rightarrow> Inl (EParseIP s) | Some a \<Rightarrow> Inr a)"

definition parseNetMember :: "string \<Rightarrow> go_error + ipnet" where
  "parseNetMember s = (case ParseCIDR s of None \<Rightarrow> Inl (EParseCIDR s) | Some (_, n) \<Rightarrow> Inr n)"

text \<open>The loop the three array parsers share: \<open>m[s] = value\<close> for every text, the first error returned.\<close>

fun parseArray :: "(string \<Rightarrow> go_error + 'v) \<Rightarrow> (string, 'v) gomap \<Rightarrow> string list \<Rightarrow> go_error + (string, 'v) gomap" where
  "parseArray p m [] = Inr m"
| "parseArray p m (s # ss) = (case p s of Inl e \<Rightarrow> Inl e | Inr v \<Rightarrow> parseArray p (mput s v m) ss)"

definition parseIPArray :: "string list \<Rightarrow> go_error + (string, ip) gomap" where
  "parseIPArray strs = parseArray parseIPMember [] strs"

definition parseIPPortArray :: "string list \<Rightarrow> go_error + (string, IPPort) gomap" where
  "parseIPPortArray strs = parseArray parseIPPort [] strs"

definition parseNetArray :: "string list \<Rightarrow> go_error + (string, ipnet) gomap" where
  "parseNetArray strs = parseArray parseNetMember [] strs"

definition toAddressArray :: "(string, ip) gomap \<Rightarrow> ip list" where
  "toAddressArray addrs = mvals addrs"

definition toIPPortArray :: "(string, IPPort) gomap \<Rightarrow> IPPort list" where
  "toIPPortArray addrs = mvals addrs"

definition toNetArray :: "(string, ipnet) gomap \<Rightarrow> ipnet list" where
  "toNetArray addrs = mvals addrs"

text \<open>The message of Felix: the kind of the set and the texts of its members.\<close>

record IPSetUpdate =
  ISU_Id :: string
  ISU_Type :: IpsetType
  ISU_Members :: "string list"

definition fromIPSetUpdate :: "IPSetUpdate \<Rightarrow> go_error + IPSet" where
  "fromIPSetUpdate ips =
     (case ISU_Type ips of
        IpsetTypeIP \<Rightarrow>
          (case parseIPArray (ISU_Members ips) of
             Inl e \<Rightarrow> Inl e | Inr m \<Rightarrow> Inr (NewIPSet\<lparr>IPS_Type := IpsetTypeIP, Addresses := m\<rparr>))
      | IpsetTypeIPPort \<Rightarrow>
          (case parseIPPortArray (ISU_Members ips) of
             Inl e \<Rightarrow> Inl e | Inr m \<Rightarrow> Inr (NewIPSet\<lparr>IPS_Type := IpsetTypeIPPort, IPPorts := m\<rparr>))
      | IpsetTypeNet \<Rightarrow>
          (case parseNetArray (ISU_Members ips) of
             Inl e \<Rightarrow> Inl e | Inr m \<Rightarrow> Inr (NewIPSet\<lparr>IPS_Type := IpsetTypeNet, Networks := m\<rparr>)))"

section \<open>Operations\<close>

definition push_members :: "vpp \<Rightarrow> bool \<Rightarrow> IPSet \<Rightarrow> (vhist, go_error) cmd" where
  "push_members vpp isAdd i =
     (case IPS_Type i of
        IpsetTypeIP \<Rightarrow> addDelIpsetIPMembers vpp (IPS_VppID i) isAdd (toAddressArray (Addresses i))
      | IpsetTypeIPPort \<Rightarrow> addDelIpsetIPPortMembers vpp (IPS_VppID i) isAdd (toIPPortArray (IPPorts i))
      | IpsetTypeNet \<Rightarrow> addDelIpsetNetMembers vpp (IPS_VppID i) isAdd (toNetArray (Networks i)))"

definition IPSet_Create :: "vpp \<Rightarrow> (IPSet \<times> vhist, go_error) cmd" where
  "IPSet_Create vpp s =
     (case IpsetCreate vpp (IPS_Type (fst s)) (snd s) of
        (None, h') \<Rightarrow> (Fail EVpp, (fst s, h'))
      | (Some i, h') \<Rightarrow>
          let set = (fst s)\<lparr>IPS_VppID := i\<rparr> in on_vpp (push_members vpp True set) (set, h'))"

definition IPSet_Delete :: "vpp \<Rightarrow> (IPSet \<times> vhist, go_error) cmd" where
  "IPSet_Delete vpp s =
     andthen (on_vpp (IpsetDelete vpp (IPS_VppID (fst s)))) (on_obj (IPS_VppID_update (\<lambda>_. InvalidID))) s"

definition diffStringMap :: "(string, 'v) gomap \<Rightarrow> (string, 'v) gomap \<Rightarrow> string list \<times> string list" where
  "diffStringMap oldValues newValues =
     (filter (\<lambda>k. \<not> mhas oldValues k) (mkeys newValues),
      filter (\<lambda>k. \<not> mhas newValues k) (mkeys oldValues))"

text \<open>One branch of the two methods: parse, call VPP when \<open>apply\<close> is set, then change the map.\<close>

definition member_branch ::
  "go_error + (string, 'v) gomap \<Rightarrow> bool \<Rightarrow> ((string, 'v) gomap \<Rightarrow> (vhist, go_error) cmd) \<Rightarrow>
   ((string, 'v) gomap \<Rightarrow> IPSet \<Rightarrow> IPSet) \<Rightarrow> (IPSet \<times> vhist, go_error) cmd" where
  "member_branch parsed apply push store s =
     (case parsed of
        Inl e \<Rightarrow> fail e s
      | Inr new \<Rightarrow> andthen (whenC apply (on_vpp (push new))) (on_obj (store new)) s)"

definition put_all :: "(string, 'v) gomap \<Rightarrow> (string, 'v) gomap \<Rightarrow> (string, 'v) gomap" where
  "put_all new m = fold (\<lambda>(k, v). mput k v) new m"

definition AddMembers :: "vpp \<Rightarrow> string list \<Rightarrow> bool \<Rightarrow> (IPSet \<times> vhist, go_error) cmd" where
  "AddMembers vpp members apply s =
     (let i = IPS_VppID (fst s) in
      case IPS_Type (fst s) of
        IpsetTypeIP \<Rightarrow>
          member_branch (parseIPArray members) apply
            (\<lambda>addrs. addDelIpsetIPMembers vpp i True (toAddressArray addrs))
            (\<lambda>addrs. Addresses_update (put_all addrs)) s
      | IpsetTypeIPPort \<Rightarrow>
          member_branch (parseIPPortArray members) apply
            (\<lambda>ipps. addDelIpsetIPPortMembers vpp i True (toIPPortArray ipps))
            (\<lambda>ipps. IPPorts_update (put_all ipps)) s
      | IpsetTypeNet \<Rightarrow>
          member_branch (parseNetArray members) apply
            (\<lambda>nets. addDelIpsetNetMembers vpp i True (toNetArray nets))
            (\<lambda>nets. Networks_update (put_all nets)) s)"

definition RemoveMembers :: "vpp \<Rightarrow> string list \<Rightarrow> bool \<Rightarrow> (IPSet \<times> vhist, go_error) cmd" where
  "RemoveMembers vpp members apply s =
     (let i = IPS_VppID (fst s) in
      case IPS_Type (fst s) of
        IpsetTypeIP \<Rightarrow>
          member_branch (parseIPArray members) apply
            (\<lambda>addrs. addDelIpsetIPMembers vpp i False (toAddressArray addrs))
            (\<lambda>addrs. Addresses_update (mdel_all (mkeys addrs))) s
      | IpsetTypeIPPort \<Rightarrow>
          member_branch (parseIPPortArray members) apply
            (\<lambda>ipps. addDelIpsetIPPortMembers vpp i False (toIPPortArray ipps))
            (\<lambda>ipps. IPPorts_update (mdel_all (mkeys ipps))) s
      | IpsetTypeNet \<Rightarrow>
          member_branch (parseNetArray members) apply
            (\<lambda>nets. addDelIpsetNetMembers vpp i False (toNetArray nets))
            (\<lambda>nets. Networks_update (mdel_all (mkeys nets))) s)"

definition ReplaceMembers :: "vpp \<Rightarrow> IPSet \<Rightarrow> bool \<Rightarrow> (IPSet \<times> vhist, go_error) cmd" where
  "ReplaceMembers vpp nxt apply s =
     (if IPS_Type (fst s) \<noteq> IPS_Type nxt then fail EIpsetTypeMismatch s
      else let (add, remove) =
             (case IPS_Type (fst s) of
                IpsetTypeIP \<Rightarrow> diffStringMap (Addresses (fst s)) (Addresses nxt)
              | IpsetTypeIPPort \<Rightarrow> diffStringMap (IPPorts (fst s)) (IPPorts nxt)
              | IpsetTypeNet \<Rightarrow> diffStringMap (Networks (fst s)) (Networks nxt))
           in andthen (RemoveMembers vpp remove apply) (AddMembers vpp add apply) s)"

section \<open>Parsed maps\<close>

lemma parseArray_Inr:
  assumes "parseArray p m ss = Inr m'"
  shows "(\<forall>s \<in> set ss. mget m' s = (case p s of Inr v \<Rightarrow> Some v | Inl _ \<Rightarrow> None) \<and> \<not> isl (p s)) \<and>
    (\<forall>k. k \<notin> set ss \<longrightarrow> mget m' k = mget m k) \<and> (wf_map m \<longrightarrow> wf_map m')"
  using assms
proof (induction ss arbitrary: m)
  case Nil
  then show ?case by simp
next
  case (Cons s ss)
  then obtain v where v: "p s = Inr v" "parseArray p (mput s v m) ss = Inr m'"
    by (auto split: sum.splits)
  with Cons.IH [OF v(2)] show ?case by (cases "s \<in> set ss") auto
qed

lemma parseArray_ok: "\<forall>s \<in> set ss. \<not> isl (p s) \<Longrightarrow> \<exists>m'. parseArray p m ss = Inr m'"
  by (induction ss arbitrary: m) (auto split: sum.splits)

definition parsed_by :: "(string \<Rightarrow> go_error + 'v) \<Rightarrow> (string, 'v) gomap \<Rightarrow> bool" where
  "parsed_by p m \<longleftrightarrow> wf_map m \<and> (\<forall>(k, v) \<in> set m. p k = Inr v)"

lemma parsed_by_mget: "parsed_by p m \<longleftrightarrow> wf_map m \<and> (\<forall>k v. mget m k = Some v \<longrightarrow> p k = Inr v)"
  by (auto simp: parsed_by_def wf_map_in_iff)

lemma parsed_by_Nil [simp]: "parsed_by p []"
  by (simp add: parsed_by_def)

lemma parsed_by_parseArray:
  assumes "parseArray p [] ss = Inr m"
  shows "parsed_by p m \<and> set (mkeys m) = set ss"
proof -
  have m: "\<forall>s \<in> set ss. mget m s = (case p s of Inr v \<Rightarrow> Some v | Inl _ \<Rightarrow> None) \<and> \<not> isl (p s)"
    "\<forall>k. k \<notin> set ss \<longrightarrow> mget m k = None" "wf_map m"
    using parseArray_Inr [OF assms] by simp_all
  have "p k = Inr v" if "mget m k = Some v" for k v
    using that m(1,2) by (cases "k \<in> set ss") (auto split: sum.splits)
  moreover have "mhas m k \<longleftrightarrow> k \<in> set ss" for k
    using m(1,2) by (cases "k \<in> set ss") (auto simp: mhas_def isl_def split: sum.splits)
  ultimately show ?thesis
    using m(3) by (auto simp: parsed_by_mget mhas_iff)
qed

lemma mget_put_all:
  "wf_map new \<Longrightarrow> mget (put_all new m) k = (case mget new k of Some v \<Rightarrow> Some v | None \<Rightarrow> mget m k)"
proof (induction new arbitrary: m)
  case Nil
  then show ?case by (simp add: put_all_def)
next
  case (Cons p new)
  obtain a b where p: "p = (a, b)" by (cases p)
  with Cons.prems have "wf_map new" "mget new a = None"
    by (auto simp: wf_map_def mget_None_iff)
  with Cons.IH [of "mput a b m"] show ?case
    by (auto simp: put_all_def p split: option.splits)
qed

lemma wf_map_put_all [simp]: "wf_map m \<Longrightarrow> wf_map (put_all new m)"
  by (induction new arbitrary: m) (auto simp: put_all_def)

lemma wf_map_mdel_all [simp]: "wf_map m \<Longrightarrow> wf_map (mdel_all ks m)"
  by (simp add: wf_map_def mdel_all_def mkeys_def distinct_map_filter)

lemma parsed_by_put_all: "parsed_by p m \<Longrightarrow> parsed_by p new \<Longrightarrow> parsed_by p (put_all new m)"
  by (auto simp: parsed_by_mget mget_put_all split: option.splits)

lemma parsed_by_mdel_all: "parsed_by p m \<Longrightarrow> parsed_by p (mdel_all ks m)"
  by (auto simp: parsed_by_mget split: if_splits)

lemma set_mkeys_put_all [simp]: "set (mkeys (put_all new m)) = set (mkeys new) \<union> set (mkeys m)"
  by (induction new arbitrary: m) (auto simp: put_all_def)

lemma set_mkeys_mdel_all [simp]: "set (mkeys (mdel_all ks m)) = set (mkeys m) - set ks"
  by (auto simp: mdel_all_def mkeys_def)

text \<open>A parsed map is determined by its keys.\<close>

lemma parsed_by_same_keys:
  assumes "parsed_by p m" "parsed_by p m'" "set (mkeys m) = set (mkeys m')"
  shows "set (mvals m) = set (mvals m')"
proof -
  have "set (mvals n) = {v. \<exists>k \<in> set (mkeys n). p k = Inr v}" if "parsed_by p n" for n
  proof -
    have wf: "wf_map n" using that by (simp add: parsed_by_def)
    have "(\<exists>k. mget n k = Some v) \<longleftrightarrow> (\<exists>k \<in> set (mkeys n). p k = Inr v)" for v
      using that unfolding parsed_by_mget
      by (metis mget_None_iff mget_in_keys option.exhaust sum.inject(2))
    then show ?thesis by (auto simp: wf_map_in_vals [OF wf])
  qed
  with assms show ?thesis by simp
qed

section \<open>What VPP holds\<close>

text \<open>
  The members of a set according to the acknowledged calls of a history (newest first): a create
  reply starts the set empty, an acknowledged add or delete of members changes it, an acknowledged
  delete empties it. A call that failed has changed nothing.
\<close>

fun vpp_members :: "vhist \<Rightarrow> u32 \<Rightarrow> NpolIpsetMember set" where
  "vpp_members [] i = {}"
| "vpp_members ((c, VppFailed) # h) i = vpp_members h i"
| "vpp_members ((NpolIpsetCreate _, VppReply j) # h) i = (if i = j then {} else vpp_members h i)"
| "vpp_members ((NpolIpsetDelete j, VppReply _) # h) i = (if i = j then {} else vpp_members h i)"
| "vpp_members ((NpolIpsetAddDelMembers j isAdd _ ms, VppReply _) # h) i =
     (if i \<noteq> j then vpp_members h i
      else if isAdd then vpp_members h i \<union> set ms else vpp_members h i - set ms)"
| "vpp_members (_ # h) i = vpp_members h i"

definition enc_ip :: "ip \<Rightarrow> NpolIpsetMember" where
  "enc_ip a = MemberAddress (ToVppAddress a)"

definition enc_ipport :: "IPPort \<Rightarrow> NpolIpsetMember" where
  "enc_ipport m = MemberTuple (ToVppAddress (IPP_Addr m)) (IPP_L4Proto m) (IPP_Port m)"

definition enc_net :: "ipnet \<Rightarrow> NpolIpsetMember" where
  "enc_net n = MemberPrefix (ToVppPrefix n)"

definition told_members :: "IPSet \<Rightarrow> NpolIpsetMember set" where
  "told_members i =
     (case IPS_Type i of
        IpsetTypeIP \<Rightarrow> enc_ip ` set (mvals (Addresses i))
      | IpsetTypeIPPort \<Rightarrow> enc_ipport ` set (mvals (IPPorts i))
      | IpsetTypeNet \<Rightarrow> enc_net ` set (mvals (Networks i)))"

definition in_sync :: "IPSet \<Rightarrow> vhist \<Rightarrow> bool" where
  "in_sync i h \<longleftrightarrow> vpp_members h (IPS_VppID i) = told_members i"

text \<open>Every map holds the parsed form of its keys.\<close>

definition ipset_inv :: "IPSet \<Rightarrow> bool" where
  "ipset_inv i \<longleftrightarrow> parsed_by parseIPMember (Addresses i) \<and> parsed_by parseIPPort (IPPorts i) \<and>
     parsed_by parseNetMember (Networks i)"

definition member_keys :: "IPSet \<Rightarrow> string set" where
  "member_keys i =
     (case IPS_Type i of
        IpsetTypeIP \<Rightarrow> set (mkeys (Addresses i))
      | IpsetTypeIPPort \<Rightarrow> set (mkeys (IPPorts i))
      | IpsetTypeNet \<Rightarrow> set (mkeys (Networks i)))"

definition member_parses :: "IpsetType \<Rightarrow> string \<Rightarrow> bool" where
  "member_parses ty s =
     (case ty of
        IpsetTypeIP \<Rightarrow> \<not> isl (parseIPMember s)
      | IpsetTypeIPPort \<Rightarrow> \<not> isl (parseIPPort s)
      | IpsetTypeNet \<Rightarrow> \<not> isl (parseNetMember s))"

text \<open>No text of the list denotes the same member as a text of the map that is not in the list.\<close>

definition no_alias :: "(string \<Rightarrow> go_error + 'v) \<Rightarrow> ('v \<Rightarrow> NpolIpsetMember) \<Rightarrow> string list \<Rightarrow>
    (string, 'v) gomap \<Rightarrow> bool" where
  "no_alias p enc ss m \<longleftrightarrow>
     list_all (\<lambda>s. case p s of Inl _ \<Rightarrow> True
       | Inr w \<Rightarrow> list_all (\<lambda>(k, v). k \<in> set ss \<or> enc v \<noteq> enc w) m) ss"

definition ipset_no_alias :: "string list \<Rightarrow> IPSet \<Rightarrow> bool" where
  "ipset_no_alias ss i =
     (case IPS_Type i of
        IpsetTypeIP \<Rightarrow> no_alias parseIPMember enc_ip ss (Addresses i)
      | IpsetTypeIPPort \<Rightarrow> no_alias parseIPPort enc_ipport ss (IPPorts i)
      | IpsetTypeNet \<Rightarrow> no_alias parseNetMember enc_net ss (Networks i))"

section \<open>The three kinds of members\<close>

lemma member_branch_cases:
  assumes "member_branch parsed apply push store (i, h) = (st, (i', h'))"
  obtains (parse_error) e where "parsed = Inl e" "st = Fail e" "i' = i" "h' = h"
  | (vpp_error) new where "parsed = Inr new" "apply" "push new h = (st, h')" "st \<noteq> Done" "i' = i"
  | (stored) new where "parsed = Inr new" "st = Done" "i' = store new i"
      "if apply then push new h = (Done, h') else h' = h"
proof (cases parsed)
  case (Inl e)
  with assms show ?thesis by (intro parse_error) (auto simp: member_branch_def go_defs)
next
  case (Inr new)
  show ?thesis
  proof (cases "apply")
    case True
    with Inr assms show ?thesis
      using vpp_error [OF Inr True] stored [OF Inr]
      by (auto simp: member_branch_def go_defs split: prod.splits status.splits)
  next
    case False
    with Inr assms stored [OF Inr] show ?thesis
      by (auto simp: member_branch_def go_defs split: prod.splits)
  qed
qed

lemma no_alias_cong:
  assumes "set ss = set ss'"
  shows "no_alias p enc ss m \<longleftrightarrow> no_alias p enc ss' m"
  unfolding no_alias_def assms list_all_iff ..

text \<open>The contract of a kind of member: its array parser, the message form of a value, and the call
  that adds or deletes values. The three kinds of the code are its three interpretations.\<close>

locale member_kind =
  fixes p :: "string \<Rightarrow> go_error + 'v"
    and parseArr :: "string list \<Rightarrow> go_error + (string, 'v) gomap"
    and enc :: "'v \<Rightarrow> NpolIpsetMember"
    and push :: "vpp \<Rightarrow> u32 \<Rightarrow> bool \<Rightarrow> 'v list \<Rightarrow> (vhist, go_error) cmd"
  assumes parseArr: "parseArr ss = parseArray p [] ss"
    and push: "push vpp i isAdd vs =
      vpp_exec vpp (NpolIpsetAddDelMembers i isAdd (of_nat (length vs)) (map enc vs))"
begin

lemma parseArr_parsed: "parseArr ss = Inr new \<Longrightarrow> parsed_by p new \<and> set (mkeys new) = set ss"
  by (simp add: parseArr parsed_by_parseArray)

lemma push_effect:
  "push vpp i isAdd vs h = (Done, h') \<Longrightarrow>
   vpp_members h' i = (if isAdd then vpp_members h i \<union> enc ` set vs else vpp_members h i - enc ` set vs)"
  by (auto simp: push vpp_exec_def call_def Let_def split: vpp_reply.splits)

lemma push_failed: "push vpp i isAdd vs h = (st, h') \<Longrightarrow> st \<noteq> Done \<Longrightarrow> vpp_members h' i = vpp_members h i"
  by (auto simp: push vpp_exec_def call_def Let_def split: vpp_reply.splits)

lemma told_put_all:
  assumes "parsed_by p m" "parsed_by p new"
  shows "enc ` set (mvals (put_all new m)) = enc ` set (mvals m) \<union> enc ` set (mvals new)"
proof -
  have wf: "wf_map m" "wf_map new" "wf_map (put_all new m)"
    using assms by (auto simp: parsed_by_def)
  have same: "w = w'" if "mget m k = Some w" "mget new k = Some w'" for k w w'
    using assms that by (metis parsed_by_mget sum.inject(2))
  have "(\<exists>k. mget (put_all new m) k = Some v) \<longleftrightarrow> (\<exists>k. mget m k = Some v) \<or> (\<exists>k. mget new k = Some v)" for v
    unfolding mget_put_all [OF wf(2)] by (metis option.case_eq_if option.collapse same)
  then have "set (mvals (put_all new m)) = set (mvals m) \<union> set (mvals new)"
    by (auto simp: wf_map_in_vals [OF wf(1)] wf_map_in_vals [OF wf(2)] wf_map_in_vals [OF wf(3)])
  then show ?thesis by (simp add: image_Un)
qed

lemma told_mdel_all:
  assumes "parsed_by p m" "parsed_by p new" "no_alias p enc (mkeys new) m"
  shows "enc ` set (mvals (mdel_all (mkeys new) m)) = enc ` set (mvals m) - enc ` set (mvals new)"
proof -
  have wf: "wf_map m" "wf_map new" "wf_map (mdel_all (mkeys new) m)"
    using assms by (auto simp: parsed_by_def)
  have apart: "enc v \<noteq> enc w" if "mget m k = Some v" "k \<notin> set (mkeys new)" "mget new k' = Some w" for k v k' w
  proof -
    have "k' \<in> set (mkeys new)" "p k' = Inr w" "(k, v) \<in> set m"
      using that assms(2) wf by (auto simp: parsed_by_mget wf_map_in_iff)
    with assms(3) that(2) show ?thesis by (fastforce simp: no_alias_def list_all_iff)
  qed
  have same: "w = v" if "mget m k = Some v" "mget new k = Some w" for k v w
    using assms(1,2) that by (metis parsed_by_mget sum.inject(2))
  show ?thesis
  proof (intro set_eqI iffI)
    fix x assume "x \<in> enc ` set (mvals (mdel_all (mkeys new) m))"
    then obtain k v where v: "x = enc v" "mget m k = Some v" "k \<notin> set (mkeys new)"
      by (auto simp: wf_map_in_vals [OF wf(3)] split: if_splits)
    with apart have "x \<notin> enc ` set (mvals new)"
      by (auto simp: wf_map_in_vals [OF wf(2)])
    with v(1,2) show "x \<in> enc ` set (mvals m) - enc ` set (mvals new)"
      by (simp add: mget_in_vals)
  next
    fix x assume x: "x \<in> enc ` set (mvals m) - enc ` set (mvals new)"
    then obtain k v where v: "x = enc v" "mget m k = Some v" by (auto simp: wf_map_in_vals [OF wf(1)])
    have "mget new k = None"
    proof (cases "mget new k")
      case (Some w)
      with same v(2) have "v \<in> set (mvals new)" using mget_in_vals by metis
      with x v(1) show ?thesis by blast
    qed simp
    with v(2) have "mget (mdel_all (mkeys new) m) k = Some v" by (simp add: mget_None_iff)
    then show "x \<in> enc ` set (mvals (mdel_all (mkeys new) m))"
      using v(1) by (blast intro: mget_in_vals)
  qed
qed

lemma branch_add:
  assumes "parsed_by p m"
    "member_branch (parseArr ss) apply (\<lambda>new. push vpp (IPS_VppID i) True (mvals new)) store (i, h) = (st, (i', h'))"
  obtains (kept) "st \<noteq> Done" "i' = i" "vpp_members h' (IPS_VppID i) = vpp_members h (IPS_VppID i)"
  | (added) new where "st = Done" "i' = store new i" "parsed_by p new" "set (mkeys new) = set ss"
      "parsed_by p (put_all new m)"
      "apply \<Longrightarrow> vpp_members h (IPS_VppID i) = enc ` set (mvals m) \<Longrightarrow>
        vpp_members h' (IPS_VppID i) = enc ` set (mvals (put_all new m))"
  using assms(2)
proof (cases rule: member_branch_cases)
  case (stored new)
  with parseArr_parsed have new: "parsed_by p new" "set (mkeys new) = set ss" by auto
  show ?thesis
  proof (rule added [OF stored(2,3) new parsed_by_put_all [OF assms(1) new(1)]])
    assume "apply" "vpp_members h (IPS_VppID i) = enc ` set (mvals m)"
    with push_effect stored(4) told_put_all [OF assms(1) new(1)]
    show "vpp_members h' (IPS_VppID i) = enc ` set (mvals (put_all new m))" by simp
  qed
qed (auto intro: kept dest: push_failed)

lemma branch_remove:
  assumes "parsed_by p m"
    "member_branch (parseArr ss) apply (\<lambda>new. push vpp (IPS_VppID i) False (mvals new)) store (i, h) = (st, (i', h'))"
  obtains (kept) "st \<noteq> Done" "i' = i" "vpp_members h' (IPS_VppID i) = vpp_members h (IPS_VppID i)"
  | (removed) new where "st = Done" "i' = store new i" "parsed_by p new" "set (mkeys new) = set ss"
      "parsed_by p (mdel_all (mkeys new) m)"
      "apply \<Longrightarrow> no_alias p enc ss m \<Longrightarrow> vpp_members h (IPS_VppID i) = enc ` set (mvals m) \<Longrightarrow>
        vpp_members h' (IPS_VppID i) = enc ` set (mvals (mdel_all (mkeys new) m))"
  using assms(2)
proof (cases rule: member_branch_cases)
  case (stored new)
  with parseArr_parsed have new: "parsed_by p new" "set (mkeys new) = set ss" by auto
  show ?thesis
  proof (rule removed [OF stored(2,3) new parsed_by_mdel_all [OF assms(1)]])
    assume "apply" "no_alias p enc ss m" "vpp_members h (IPS_VppID i) = enc ` set (mvals m)"
    moreover from this(2) have "no_alias p enc (mkeys new) m" using no_alias_cong [OF new(2)] by blast
    ultimately show "vpp_members h' (IPS_VppID i) = enc ` set (mvals (mdel_all (mkeys new) m))"
      using push_effect stored(4) told_mdel_all [OF assms(1) new(1)] by simp
  qed
qed (auto intro: kept dest: push_failed)

lemma branch_outcome:
  assumes "\<forall>s \<in> set ss. \<not> isl (p s)"
    "member_branch (parseArr ss) apply (\<lambda>new. push vpp j isAdd (mvals new)) store (i, h) = (st, (i', h'))"
  shows "(st = Done \<or> apply \<and> st = Fail EVpp) \<and> (\<not> apply \<longrightarrow> h' = h)"
  using assms(2)
proof (cases rule: member_branch_cases)
  case (parse_error e)
  with parseArray_ok [OF assms(1), of "[]"] show ?thesis by (auto simp: parseArr)
next
  case (vpp_error new)
  then show ?thesis by (auto simp: push vpp_exec_def call_def Let_def split: vpp_reply.splits)
qed auto

end

interpretation ipk: member_kind parseIPMember parseIPArray enc_ip addDelIpsetIPMembers
  by unfold_locales (simp_all add: parseIPArray_def addDelIpsetIPMembers_def addDelIpsetMembers_def
      enc_ip_def [abs_def])

interpretation ippk: member_kind parseIPPort parseIPPortArray enc_ipport addDelIpsetIPPortMembers
  by unfold_locales (simp_all add: parseIPPortArray_def addDelIpsetIPPortMembers_def addDelIpsetMembers_def
      enc_ipport_def [abs_def])

interpretation netk: member_kind parseNetMember parseNetArray enc_net addDelIpsetNetMembers
  by unfold_locales (simp_all add: parseNetArray_def addDelIpsetNetMembers_def addDelIpsetMembers_def
      enc_net_def [abs_def])

lemmas ipset_maps = toAddressArray_def toIPPortArray_def toNetArray_def

text \<open>Adding keeps the agent's record and VPP's set equal, whatever the outcome. Removing does so when
  no member that stays has another spelling among those that go.\<close>

lemma AddMembers_kinds:
  "IPS_Type i = IpsetTypeIP \<Longrightarrow> AddMembers vpp ss apply (i, h) = member_branch (parseIPArray ss) apply
     (\<lambda>new. addDelIpsetIPMembers vpp (IPS_VppID i) True (mvals new)) (\<lambda>new. Addresses_update (put_all new)) (i, h)"
  "IPS_Type i = IpsetTypeIPPort \<Longrightarrow> AddMembers vpp ss apply (i, h) = member_branch (parseIPPortArray ss) apply
     (\<lambda>new. addDelIpsetIPPortMembers vpp (IPS_VppID i) True (mvals new)) (\<lambda>new. IPPorts_update (put_all new)) (i, h)"
  "IPS_Type i = IpsetTypeNet \<Longrightarrow> AddMembers vpp ss apply (i, h) = member_branch (parseNetArray ss) apply
     (\<lambda>new. addDelIpsetNetMembers vpp (IPS_VppID i) True (mvals new)) (\<lambda>new. Networks_update (put_all new)) (i, h)"
  by (simp_all add: AddMembers_def Let_def ipset_maps)

lemma RemoveMembers_kinds:
  "IPS_Type i = IpsetTypeIP \<Longrightarrow> RemoveMembers vpp ss apply (i, h) = member_branch (parseIPArray ss) apply
     (\<lambda>new. addDelIpsetIPMembers vpp (IPS_VppID i) False (mvals new)) (\<lambda>new. Addresses_update (mdel_all (mkeys new))) (i, h)"
  "IPS_Type i = IpsetTypeIPPort \<Longrightarrow> RemoveMembers vpp ss apply (i, h) = member_branch (parseIPPortArray ss) apply
     (\<lambda>new. addDelIpsetIPPortMembers vpp (IPS_VppID i) False (mvals new)) (\<lambda>new. IPPorts_update (mdel_all (mkeys new))) (i, h)"
  "IPS_Type i = IpsetTypeNet \<Longrightarrow> RemoveMembers vpp ss apply (i, h) = member_branch (parseNetArray ss) apply
     (\<lambda>new. addDelIpsetNetMembers vpp (IPS_VppID i) False (mvals new)) (\<lambda>new. Networks_update (mdel_all (mkeys new))) (i, h)"
  by (simp_all add: RemoveMembers_def Let_def ipset_maps)

lemma AddMembers_sync:
  assumes "ipset_inv i" "AddMembers vpp ss apply (i, h) = (st, (i', h'))"
  shows "ipset_inv i' \<and> IPS_VppID i' = IPS_VppID i \<and> IPS_Type i' = IPS_Type i \<and>
    (if st = Done then member_keys i' = member_keys i \<union> set ss else i' = i) \<and>
    (apply \<and> in_sync i h \<longrightarrow> in_sync i' h')"
proof -
  note defs = ipset_inv_def in_sync_def told_members_def member_keys_def
  have inv: "parsed_by parseIPMember (Addresses i)" "parsed_by parseIPPort (IPPorts i)"
    "parsed_by parseNetMember (Networks i)"
    using assms(1) by (simp_all add: ipset_inv_def)
  show ?thesis
  proof (cases "IPS_Type i")
    case IpsetTypeIP
    note c = assms(2) [unfolded AddMembers_kinds(1) [OF IpsetTypeIP]]
    show ?thesis
      by (rule ipk.branch_add [OF inv(1) c]) (simp_all add: defs inv IpsetTypeIP Un_commute)
  next
    case IpsetTypeIPPort
    note c = assms(2) [unfolded AddMembers_kinds(2) [OF IpsetTypeIPPort]]
    show ?thesis
      by (rule ippk.branch_add [OF inv(2) c]) (simp_all add: defs inv IpsetTypeIPPort Un_commute)
  next
    case IpsetTypeNet
    note c = assms(2) [unfolded AddMembers_kinds(3) [OF IpsetTypeNet]]
    show ?thesis
      by (rule netk.branch_add [OF inv(3) c]) (simp_all add: defs inv IpsetTypeNet Un_commute)
  qed
qed

lemma RemoveMembers_sync:
  assumes "ipset_inv i" "RemoveMembers vpp ss apply (i, h) = (st, (i', h'))"
  shows "ipset_inv i' \<and> IPS_VppID i' = IPS_VppID i \<and> IPS_Type i' = IPS_Type i \<and>
    (if st = Done then member_keys i' = member_keys i - set ss else i' = i) \<and>
    (apply \<and> ipset_no_alias ss i \<and> in_sync i h \<longrightarrow> in_sync i' h')"
proof -
  note defs = ipset_inv_def in_sync_def told_members_def member_keys_def ipset_no_alias_def
  have inv: "parsed_by parseIPMember (Addresses i)" "parsed_by parseIPPort (IPPorts i)"
    "parsed_by parseNetMember (Networks i)"
    using assms(1) by (simp_all add: ipset_inv_def)
  show ?thesis
  proof (cases "IPS_Type i")
    case IpsetTypeIP
    note c = assms(2) [unfolded RemoveMembers_kinds(1) [OF IpsetTypeIP]]
    show ?thesis
      by (rule ipk.branch_remove [OF inv(1) c]) (simp_all add: defs inv IpsetTypeIP Un_commute)
  next
    case IpsetTypeIPPort
    note c = assms(2) [unfolded RemoveMembers_kinds(2) [OF IpsetTypeIPPort]]
    show ?thesis
      by (rule ippk.branch_remove [OF inv(2) c]) (simp_all add: defs inv IpsetTypeIPPort Un_commute)
  next
    case IpsetTypeNet
    note c = assms(2) [unfolded RemoveMembers_kinds(3) [OF IpsetTypeNet]]
    show ?thesis
      by (rule netk.branch_remove [OF inv(3) c]) (simp_all add: defs inv IpsetTypeNet Un_commute)
  qed
qed

lemma AddMembers_outcome:
  assumes "\<forall>s \<in> set ss. member_parses (IPS_Type i) s" "AddMembers vpp ss apply (i, h) = (st, (i', h'))"
  shows "(st = Done \<or> apply \<and> st = Fail EVpp) \<and> (\<not> apply \<longrightarrow> h' = h)"
proof (cases "IPS_Type i")
  case IpsetTypeIP
  note c = assms(2) [unfolded AddMembers_kinds(1) [OF IpsetTypeIP]]
  show ?thesis
    by (rule ipk.branch_outcome [OF _ c]) (use assms(1) IpsetTypeIP in \<open>simp add: member_parses_def\<close>)
next
  case IpsetTypeIPPort
  note c = assms(2) [unfolded AddMembers_kinds(2) [OF IpsetTypeIPPort]]
  show ?thesis
    by (rule ippk.branch_outcome [OF _ c]) (use assms(1) IpsetTypeIPPort in \<open>simp add: member_parses_def\<close>)
next
  case IpsetTypeNet
  note c = assms(2) [unfolded AddMembers_kinds(3) [OF IpsetTypeNet]]
  show ?thesis
    by (rule netk.branch_outcome [OF _ c]) (use assms(1) IpsetTypeNet in \<open>simp add: member_parses_def\<close>)
qed

lemma RemoveMembers_outcome:
  assumes "\<forall>s \<in> set ss. member_parses (IPS_Type i) s" "RemoveMembers vpp ss apply (i, h) = (st, (i', h'))"
  shows "(st = Done \<or> apply \<and> st = Fail EVpp) \<and> (\<not> apply \<longrightarrow> h' = h)"
proof (cases "IPS_Type i")
  case IpsetTypeIP
  note c = assms(2) [unfolded RemoveMembers_kinds(1) [OF IpsetTypeIP]]
  show ?thesis
    by (rule ipk.branch_outcome [OF _ c]) (use assms(1) IpsetTypeIP in \<open>simp add: member_parses_def\<close>)
next
  case IpsetTypeIPPort
  note c = assms(2) [unfolded RemoveMembers_kinds(2) [OF IpsetTypeIPPort]]
  show ?thesis
    by (rule ippk.branch_outcome [OF _ c]) (use assms(1) IpsetTypeIPPort in \<open>simp add: member_parses_def\<close>)
next
  case IpsetTypeNet
  note c = assms(2) [unfolded RemoveMembers_kinds(3) [OF IpsetTypeNet]]
  show ?thesis
    by (rule netk.branch_outcome [OF _ c]) (use assms(1) IpsetTypeNet in \<open>simp add: member_parses_def\<close>)
qed

lemma parsed_by_not_isl: "parsed_by p m \<Longrightarrow> k \<in> set (mkeys m) \<Longrightarrow> \<not> isl (p k)"
  unfolding parsed_by_mget by (metis isl_def mget_None_iff option.exhaust sum.distinct(1))

lemma member_keys_parse: "ipset_inv i \<Longrightarrow> k \<in> member_keys i \<Longrightarrow> member_parses (IPS_Type i) k"
  by (cases "IPS_Type i")
    (auto simp: ipset_inv_def member_keys_def member_parses_def dest: parsed_by_not_isl)

lemma told_members_keys:
  assumes "ipset_inv i" "ipset_inv j" "IPS_Type i = IPS_Type j" "member_keys i = member_keys j"
  shows "told_members i = told_members j"
  using assms
  by (cases "IPS_Type j")
    (simp_all add: ipset_inv_def member_keys_def told_members_def
      parsed_by_same_keys [of parseIPMember "Addresses i" "Addresses j"]
      parsed_by_same_keys [of parseIPPort "IPPorts i" "IPPorts j"]
      parsed_by_same_keys [of parseNetMember "Networks i" "Networks j"])

definition replaced :: "IPSet \<Rightarrow> IPSet \<Rightarrow> string list \<times> string list" where
  "replaced i nxt =
     (case IPS_Type i of
        IpsetTypeIP \<Rightarrow> diffStringMap (Addresses i) (Addresses nxt)
      | IpsetTypeIPPort \<Rightarrow> diffStringMap (IPPorts i) (IPPorts nxt)
      | IpsetTypeNet \<Rightarrow> diffStringMap (Networks i) (Networks nxt))"

lemma set_replaced:
  assumes "IPS_Type i = IPS_Type nxt"
  shows "set (fst (replaced i nxt)) = member_keys nxt - member_keys i"
    "set (snd (replaced i nxt)) = member_keys i - member_keys nxt"
  using assms
  by (cases "IPS_Type nxt"; auto simp: replaced_def diffStringMap_def member_keys_def mhas_iff)+

lemma ReplaceMembers_eq:
  "IPS_Type (fst s) = IPS_Type nxt \<Longrightarrow>
   ReplaceMembers vpp nxt apply s = andthen (RemoveMembers vpp (snd (replaced (fst s) nxt)) apply)
     (AddMembers vpp (fst (replaced (fst s) nxt)) apply) s"
  by (simp add: ReplaceMembers_def replaced_def Let_def split: prod.splits)

lemma ReplaceMembers_result:
  assumes "ipset_inv i" "ipset_inv nxt" "IPS_Type i = IPS_Type nxt"
    "ReplaceMembers vpp nxt apply (i, h) = (st, (i', h'))"
  shows "(if st = Done then member_keys i' = member_keys nxt \<and> told_members i' = told_members nxt
      else apply \<and> st = Fail EVpp) \<and>
    ipset_inv i' \<and> IPS_VppID i' = IPS_VppID i \<and> IPS_Type i' = IPS_Type i \<and> (\<not> apply \<longrightarrow> h' = h) \<and>
    (apply \<and> ipset_no_alias (snd (replaced i nxt)) i \<and> in_sync i h \<longrightarrow> in_sync i' h')"
proof -
  let ?add = "fst (replaced i nxt)" and ?rem = "snd (replaced i nxt)"
  note parse = member_keys_parse [OF assms(1)] member_keys_parse [OF assms(2)]
  have p: "\<forall>s \<in> set ?rem. member_parses (IPS_Type i) s" "\<forall>s \<in> set ?add. member_parses (IPS_Type i) s"
    using parse assms(3) set_replaced [OF assms(3)] by auto
  have "andthen (RemoveMembers vpp ?rem apply) (AddMembers vpp ?add apply) (i, h) = (st, (i', h'))"
    using assms(3,4) by (simp add: ReplaceMembers_eq)
  then show ?thesis
  proof (cases rule: andthen_cases)
    case first
    from RemoveMembers_sync [OF assms(1) first(1)] RemoveMembers_outcome [OF p(1) first(1)] first(2)
    show ?thesis by auto
  next
    case (second s')
    obtain i1 h1 where s': "s' = (i1, h1)" by (cases s')
    note r = second(1) [unfolded s'] and a = second(2) [unfolded s']
    note i1 = RemoveMembers_sync [OF assms(1) r] RemoveMembers_outcome [OF p(1) r]
    from i1 have inv1: "ipset_inv i1" and ty: "IPS_Type i1 = IPS_Type i"
      and p1: "\<forall>s \<in> set ?add. member_parses (IPS_Type i1) s" using p(2) by auto
    note i2 = AddMembers_sync [OF inv1 a] AddMembers_outcome [OF p1 a]
    have "st = Done \<Longrightarrow> member_keys i' = member_keys nxt"
      using i1 i2 set_replaced [OF assms(3)] by auto
    with i1 i2 assms(2,3) told_members_keys [of i' nxt] show ?thesis by auto
  qed
qed

section \<open>Properties\<close>


text \<open>The sets and histories of the witnesses.\<close>

definition set_one :: IPSet where
  "set_one = NewIPSet\<lparr>IPS_VppID := 3, Addresses := [(''10.0.0.1'', v4InV6Prefix @ [10, 0, 0, 1])]\<rparr>"

definition set_two :: IPSet where
  "set_two = NewIPSet\<lparr>Addresses := [(''10.0.0.2'', v4InV6Prefix @ [10, 0, 0, 2])]\<rparr>"

definition hist_one :: vhist where
  "hist_one = [(NpolIpsetAddDelMembers 3 True 1 [enc_ip (v4InV6Prefix @ [10, 0, 0, 1])], VppReply 0),
     (NpolIpsetCreate IpsetTypeIP, VppReply 3)]"

definition vpp_acks :: vpp where
  "vpp_acks h c = VppReply (of_nat (length h))"

lemma set_one_ok: "ipset_inv set_one" "ipset_inv set_two" "in_sync set_one hist_one"
  "ipset_no_alias (snd (replaced set_one set_two)) set_one"
  by (simp_all add: set_one_def set_two_def hist_one_def NewIPSet_def ipset_inv_def parsed_by_def wf_map_def
      in_sync_def told_members_def ipset_no_alias_def replaced_def diffStringMap_def mhas_def no_alias_def
      parseIPMember_def net_eval Let_def)


definition set_aliased :: IPSet where
  "set_aliased = NewIPSet\<lparr>IPS_VppID := 3, Addresses := [(''10.0.0.1'', v4InV6Prefix @ [10, 0, 0, 1]),
     (''::ffff:10.0.0.1'', v4InV6Prefix @ [10, 0, 0, 1])]\<rparr>"

text \<open>The agent identifies members by their text, VPP by their value: when two spellings of one
  address are in a set and one of them is removed, VPP no longer has the address while the agent's
  record still lists it.\<close>

theorem RemoveMembers_alias:
  "ipset_inv set_aliased \<and> in_sync set_aliased hist_one \<and>
   (case RemoveMembers vpp_acks [''::ffff:10.0.0.1''] True (set_aliased, hist_one) of (st, (i', h')) \<Rightarrow>
     st = Done \<and> member_keys i' = {''10.0.0.1''} \<and> vpp_members h' (IPS_VppID i') = {})"
  by (simp add: set_aliased_def hist_one_def NewIPSet_def ipset_inv_def parsed_by_def wf_map_def
      in_sync_def told_members_def parseIPMember_def RemoveMembers_def member_branch_def parseIPArray_def
      addDelIpsetIPMembers_def addDelIpsetMembers_def vpp_exec_def call_def vpp_acks_def member_keys_def
      mdel_all_def enc_ip_def toAddressArray_def net_eval Let_def go_defs)

end
