(* ===== verification/FelixPolicy.thy ===== *)
theory FelixPolicy
  imports FelixIPSet
begin

text \<open>
  \<open>felix/rule.go\<close> and \<open>felix/policy.go\<close>: rules and policies as the agent holds them, their
  construction from the messages of Felix, and the methods that create, update and delete them in VPP.
  A rule refers to sets by name; the names are resolved against the agent's sets when the rule is
  created. The methods take the whole policy state in the source and use only its sets, which are the
  argument \<open>ipsets\<close> here.
\<close>

section \<open>Messages\<close>

text \<open>The names of the protocols are constants of Calico's API package, a parameter here.\<close>

record protocol_names =
  ProtocolTCP :: string
  ProtocolUDP :: string
  ProtocolICMP :: string
  ProtocolICMPv6 :: string
  ProtocolSCTP :: string
  ProtocolUDPLite :: string

datatype proto_Protocol = Protocol_Name string | Protocol_Number int | Protocol_Unset

record proto_PortRange =
  PPR_First :: int
  PPR_Last :: int

record proto_Rule =
  PR_Action :: string
  PR_RuleId :: string
  PR_Metadata :: "(string, string) gomap option"
  PR_Protocol :: "proto_Protocol option"
  PR_NotProtocol :: "proto_Protocol option"
  PR_SrcNet :: "string list"
  PR_NotSrcNet :: "string list"
  PR_DstNet :: "string list"
  PR_NotDstNet :: "string list"
  PR_SrcPorts :: "proto_PortRange list"
  PR_NotSrcPorts :: "proto_PortRange list"
  PR_DstPorts :: "proto_PortRange list"
  PR_NotDstPorts :: "proto_PortRange list"
  PR_DstNamedPortIpSetIds :: "string list"
  PR_NotDstNamedPortIpSetIds :: "string list"
  PR_SrcNamedPortIpSetIds :: "string list"
  PR_NotSrcNamedPortIpSetIds :: "string list"
  PR_DstIpSetIds :: "string list"
  PR_NotDstIpSetIds :: "string list"
  PR_SrcIpSetIds :: "string list"
  PR_NotSrcIpSetIds :: "string list"
  PR_DstIpPortSetIds :: "string list"

record proto_Policy =
  PP_Untracked :: bool
  PP_PreDnat :: bool
  PP_InboundRules :: "proto_Rule list"
  PP_OutboundRules :: "proto_Rule list"

record proto_Profile =
  PF_InboundRules :: "proto_Rule list"
  PF_OutboundRules :: "proto_Rule list"

record proto_PolicyID =
  PID_Kind :: string
  PID_Name :: string
  PID_Namespace :: string

section \<open>Rules\<close>

record FRule =
  FR_Rule :: NRule
  RuleID :: string
  FR_VppID :: u32
  DstIPPortIPSetNames :: "string list"
  DstNotIPPortIPSetNames :: "string list"
  SrcIPPortIPSetNames :: "string list"
  SrcNotIPPortIPSetNames :: "string list"
  DstIPSetNames :: "string list"
  DstNotIPSetNames :: "string list"
  SrcIPSetNames :: "string list"
  SrcNotIPSetNames :: "string list"
  DstIPPortSetNames :: "string list"
  Annotations :: "(string, string) gomap"

text \<open>\<open>Rule.DeepCopy\<close> builds the copy without the annotations.\<close>

definition Rule_DeepCopy :: "FRule \<Rightarrow> FRule" where
  "Rule_DeepCopy r = \<lparr>FR_Rule = NRule_DeepCopy (FR_Rule r), RuleID = RuleID r, FR_VppID = FR_VppID r,
     DstIPPortIPSetNames = copy_slice (DstIPPortIPSetNames r),
     DstNotIPPortIPSetNames = copy_slice (DstNotIPPortIPSetNames r),
     SrcIPPortIPSetNames = copy_slice (SrcIPPortIPSetNames r),
     SrcNotIPPortIPSetNames = copy_slice (SrcNotIPPortIPSetNames r),
     DstIPSetNames = copy_slice (DstIPSetNames r),
     DstNotIPSetNames = copy_slice (DstNotIPSetNames r),
     SrcIPSetNames = copy_slice (SrcIPSetNames r),
     SrcNotIPSetNames = copy_slice (SrcNotIPSetNames r),
     DstIPPortSetNames = copy_slice (DstIPPortSetNames r), Annotations = []\<rparr>"

definition Rule_String :: "FRule \<Rightarrow> string" where
  "Rule_String r = ''[vpp-id='' @ show_nat (unat (FR_VppID r)) @ '' rid='' @ RuleID r @
     StrListToString '' dipport=='' (DstIPPortIPSetNames r) @
     StrListToString '' dipport!='' (DstNotIPPortIPSetNames r) @
     StrListToString '' sipport=='' (SrcIPPortIPSetNames r) @
     StrListToString '' sipport!='' (SrcNotIPPortIPSetNames r) @
     StrListToString '' dipset=='' (DstIPSetNames r) @
     StrListToString '' dipset!='' (DstNotIPSetNames r) @
     StrListToString '' sipset=='' (SrcIPSetNames r) @
     StrListToString '' sipset!='' (SrcNotIPSetNames r) @
     StrListToString '' dipportset=='' (DstIPPortSetNames r) @ '']''"

subsection \<open>From the message\<close>

definition TCP :: u8 where "TCP = 6"
definition UDP :: u8 where "UDP = 17"
definition SCTP :: u8 where "SCTP = 132"
definition ICMP :: u8 where "ICMP = 1"
definition ICMP6 :: u8 where "ICMP6 = 58"

fun parseProtocol :: "protocol_names \<Rightarrow> proto_Protocol \<Rightarrow> go_error + u8" where
  "parseProtocol pn (Protocol_Name name) =
     (let n = ToLower name in
      if n = ToLower (ProtocolTCP pn) then Inr TCP
      else if n = ToLower (ProtocolUDP pn) then Inr UDP
      else if n = ToLower (ProtocolICMP pn) then Inr ICMP
      else if n = ToLower (ProtocolICMPv6 pn) then Inr ICMP6
      else if n = ToLower (ProtocolSCTP pn) then Inr SCTP
      else if n = ToLower (ProtocolUDPLite pn) then Inr 136
      else Inl (EUnknownProtocol name))"
| "parseProtocol pn (Protocol_Number n) = Inr (of_int n)"
| "parseProtocol pn Protocol_Unset = Inl ECannotParseProtocol"

fun parseAction :: "string \<Rightarrow> go_error + RuleAction" where
  "parseAction action =
     (let a = ToLower action in
      if a = ''allow'' then Inr ActionAllow
      else if a = ''deny'' then Inr ActionDeny
      else if a = ''log'' then Inr ActionLog
      else if a = ''pass'' \<or> a = ''next-tier'' then Inr ActionPass
      else Inl (EUnknownAction action))"

text \<open>The first part of \<open>fromProtoRule\<close> after the action: the protocol filters.\<close>

definition parseFilters :: "protocol_names \<Rightarrow> proto_Rule \<Rightarrow> go_error + RuleFilter list" where
  "parseFilters pn r =
     (case PR_Protocol r of
        Some pr \<Rightarrow>
          (case PR_NotProtocol r of
             Some _ \<Rightarrow> Inl EProtocolAndNotProtocol
           | None \<Rightarrow>
               (case parseProtocol pn pr of
                  Inl e \<Rightarrow> Inl e
                | Inr v \<Rightarrow> Inr [\<lparr>RF_ShouldMatch = True, RF_Type = NpolFilterProto, RF_Value = uint v\<rparr>]))
      | None \<Rightarrow>
          (case PR_NotProtocol r of
             None \<Rightarrow> Inr []
           | Some pr \<Rightarrow>
               (case parseProtocol pn pr of
                  Inl e \<Rightarrow> Inl e
                | Inr v \<Rightarrow> Inr [\<lparr>RF_ShouldMatch = False, RF_Type = NpolFilterProto, RF_Value = uint v\<rparr>])))"

text \<open>One loop over a list of CIDR texts.\<close>

fun parseNets :: "string list \<Rightarrow> go_error + ipnet list" where
  "parseNets [] = Inr []"
| "parseNets (s # ss) =
     (case ParseCIDR s of
        None \<Rightarrow> Inl (EParseCIDR s)
      | Some (_, n) \<Rightarrow> (case parseNets ss of Inl e \<Rightarrow> Inl e | Inr ns \<Rightarrow> Inr (n # ns)))"

definition toPortRange :: "proto_PortRange \<Rightarrow> PortRange" where
  "toPortRange p = \<lparr>PR_First = of_int (PPR_First p), PR_Last = of_int (PPR_Last p)\<rparr>"

definition fromProtoRule :: "protocol_names \<Rightarrow> proto_Rule \<Rightarrow> go_error + FRule" where
  "fromProtoRule pn r =
     (case parseAction (PR_Action r) of Inl e \<Rightarrow> Inl e | Inr action \<Rightarrow>
      case parseFilters pn r of Inl e \<Rightarrow> Inl e | Inr filters \<Rightarrow>
      case parseNets (PR_SrcNet r) of Inl e \<Rightarrow> Inl e | Inr srcNet \<Rightarrow>
      case parseNets (PR_NotSrcNet r) of Inl e \<Rightarrow> Inl e | Inr srcNotNet \<Rightarrow>
      case parseNets (PR_DstNet r) of Inl e \<Rightarrow> Inl e | Inr dstNet \<Rightarrow>
      case parseNets (PR_NotDstNet r) of Inl e \<Rightarrow> Inl e | Inr dstNotNet \<Rightarrow>
      Inr \<lparr>FR_Rule = (zero_NRule action)\<lparr>Filters := filters, SrcNet := srcNet, SrcNotNet := srcNotNet,
             DstNet := dstNet, DstNotNet := dstNotNet,
             SrcPortRange := map toPortRange (PR_SrcPorts r),
             SrcNotPortRange := map toPortRange (PR_NotSrcPorts r),
             DstPortRange := map toPortRange (PR_DstPorts r),
             DstNotPortRange := map toPortRange (PR_NotDstPorts r)\<rparr>,
           RuleID = PR_RuleId r, FR_VppID = InvalidID,
           DstIPPortIPSetNames = copy_slice (PR_DstNamedPortIpSetIds r),
           DstNotIPPortIPSetNames = copy_slice (PR_NotDstNamedPortIpSetIds r),
           SrcIPPortIPSetNames = copy_slice (PR_SrcNamedPortIpSetIds r),
           SrcNotIPPortIPSetNames = copy_slice (PR_NotSrcNamedPortIpSetIds r),
           DstIPSetNames = copy_slice (PR_DstIpSetIds r),
           DstNotIPSetNames = copy_slice (PR_NotDstIpSetIds r),
           SrcIPSetNames = copy_slice (PR_SrcIpSetIds r),
           SrcNotIPSetNames = copy_slice (PR_NotSrcIpSetIds r),
           DstIPPortSetNames = copy_slice (PR_DstIpPortSetIds r),
           Annotations = (case PR_Metadata r of None \<Rightarrow> [] | Some a \<Rightarrow> a)\<rparr>)"

subsection \<open>In VPP\<close>

text \<open>One of the nine loops that look up the sets of a rule. A name that is not in the map gives a nil
  pointer, and the error message reads its identifier: the code panics.\<close>

fun resolve_sets :: "(string, IPSet) gomap \<Rightarrow> u32 list \<Rightarrow> string list \<Rightarrow> go_error status \<times> u32 list" where
  "resolve_sets ipsets acc [] = (Done, acc)"
| "resolve_sets ipsets acc (n # ns) =
     (case mget ipsets n of
        None \<Rightarrow> (Panicked, acc)
      | Some ipset \<Rightarrow>
          if IPS_VppID ipset = InvalidID then (Fail (EIpsetNotCreated n), acc)
          else resolve_sets ipsets (acc @ [IPS_VppID ipset]) ns)"

definition resolve_into ::
  "(string, IPSet) gomap \<Rightarrow> (FRule \<Rightarrow> string list) \<Rightarrow> ((u32 list \<Rightarrow> u32 list) \<Rightarrow> NRule \<Rightarrow> NRule) \<Rightarrow>
   (FRule \<times> vhist, go_error) cmd" where
  "resolve_into ipsets names field s =
     (case resolve_sets ipsets [] (names (fst s)) of
        (st, ids) \<Rightarrow> (st, ((fst s)\<lparr>FR_Rule := field (\<lambda>_. ids) (FR_Rule (fst s))\<rparr>, snd s)))"

definition clear_sets :: "NRule \<Rightarrow> NRule" where
  "clear_sets r = r\<lparr>DstIPPortIPSet := [], DstNotIPPortIPSet := [], SrcIPPortIPSet := [],
     SrcNotIPPortIPSet := [], DstIPSet := [], DstNotIPSet := [], SrcIPSet := [], SrcNotIPSet := [],
     DstIPPortSet := []\<rparr>"

definition resolve_all :: "(string, IPSet) gomap \<Rightarrow> (FRule \<times> vhist, go_error) cmd" where
  "resolve_all ipsets =
     andthen (on_obj (FR_Rule_update clear_sets))
     (andthen (resolve_into ipsets DstIPPortIPSetNames DstIPPortIPSet_update)
     (andthen (resolve_into ipsets DstNotIPPortIPSetNames DstNotIPPortIPSet_update)
     (andthen (resolve_into ipsets SrcIPPortIPSetNames SrcIPPortIPSet_update)
     (andthen (resolve_into ipsets SrcNotIPPortIPSetNames SrcNotIPPortIPSet_update)
     (andthen (resolve_into ipsets DstIPSetNames DstIPSet_update)
     (andthen (resolve_into ipsets DstNotIPSetNames DstNotIPSet_update)
     (andthen (resolve_into ipsets SrcIPSetNames SrcIPSet_update)
     (andthen (resolve_into ipsets SrcNotIPSetNames SrcNotIPSet_update)
              (resolve_into ipsets DstIPPortSetNames DstIPPortSet_update)))))))))"

definition Rule_Create :: "vpp \<Rightarrow> (string, IPSet) gomap \<Rightarrow> (FRule \<times> vhist, go_error) cmd" where
  "Rule_Create vpp ipsets =
     andthen (resolve_all ipsets)
       (\<lambda>s. case RuleCreate vpp (FR_Rule (fst s)) (snd s) of
              (None, h') \<Rightarrow> (Fail EVpp, (fst s, h'))
            | (Some i, h') \<Rightarrow> (Done, ((fst s)\<lparr>FR_VppID := i\<rparr>, h')))"

definition Rule_Delete :: "vpp \<Rightarrow> (FRule \<times> vhist, go_error) cmd" where
  "Rule_Delete vpp s =
     andthen (on_vpp (RuleDelete vpp (FR_VppID (fst s)))) (on_obj (FR_VppID_update (\<lambda>_. InvalidID))) s"

section \<open>Policies\<close>

definition netAnnotationsLabel :: string where
  "netAnnotationsLabel = ''extensions.projectcalico.org/network''"

record PolicyID =
  Kind :: string
  Name :: string
  Namespace :: string
  Network :: string

definition fromProtoPolicyID :: "proto_PolicyID \<Rightarrow> string \<Rightarrow> PolicyID" where
  "fromProtoPolicyID pid network =
     \<lparr>Kind = PID_Kind pid, Name = PID_Name pid, Namespace = PID_Namespace pid, Network = network\<rparr>"

record FPolicy =
  FP_Policy :: NPolicy
  FP_VppID :: u32
  InboundRules :: "FRule list"
  OutboundRules :: "FRule list"

definition Policy_DeepCopy :: "FPolicy \<Rightarrow> FPolicy" where
  "Policy_DeepCopy p = \<lparr>FP_Policy = NPolicy_DeepCopy (FP_Policy p), FP_VppID = FP_VppID p,
     InboundRules = map Rule_DeepCopy (InboundRules p), OutboundRules = map Rule_DeepCopy (OutboundRules p)\<rparr>"

definition Policy_String :: "FPolicy \<Rightarrow> string" where
  "Policy_String p = ''[id='' @ show_nat (unat (FP_VppID p)) @
     listToString Rule_String '' inboundRules='' (InboundRules p) @
     listToString Rule_String '' outboundRules='' (OutboundRules p) @ '']''"

definition ruleInNetwork :: "proto_Rule \<Rightarrow> string \<Rightarrow> bool" where
  "ruleInNetwork r network =
     (case PR_Metadata r of
        Some annotations \<Rightarrow>
          (case mget annotations netAnnotationsLabel of
             Some ruleNetwork \<Rightarrow> ruleNetwork = network | None \<Rightarrow> network = [])
      | None \<Rightarrow> network = [])"

fun fromProtoRules :: "protocol_names \<Rightarrow> proto_Rule list \<Rightarrow> go_error + FRule list" where
  "fromProtoRules pn [] = Inr []"
| "fromProtoRules pn (r # rs) =
     (case fromProtoRule pn r of
        Inl e \<Rightarrow> Inl e
      | Inr rule \<Rightarrow> (case fromProtoRules pn rs of Inl e \<Rightarrow> Inl e | Inr rules \<Rightarrow> Inr (rule # rules)))"

definition new_FPolicy :: FPolicy where
  "new_FPolicy = \<lparr>FP_Policy = \<lparr>InboundRuleIDs = [], OutboundRuleIDs = []\<rparr>, FP_VppID = InvalidID,
     InboundRules = [], OutboundRules = []\<rparr>"

text \<open>Untracked and pre-DNAT policies are logged as unsupported; the function then returns the empty
  policy and no error.\<close>

definition fromProtoPolicy :: "protocol_names \<Rightarrow> proto_Policy \<Rightarrow> string \<Rightarrow> go_error + FPolicy" where
  "fromProtoPolicy pn p network =
     (if PP_Untracked p then Inr new_FPolicy
      else if PP_PreDnat p \<and> length (PP_OutboundRules p) > 0 then Inr new_FPolicy
      else if PP_PreDnat p \<and> length (PP_InboundRules p) > 0 then Inr new_FPolicy
      else case fromProtoRules pn (filter (\<lambda>r. ruleInNetwork r network) (PP_InboundRules p)) of
             Inl e \<Rightarrow> Inl e
           | Inr inb \<Rightarrow>
               (case fromProtoRules pn (filter (\<lambda>r. ruleInNetwork r network) (PP_OutboundRules p)) of
                  Inl e \<Rightarrow> Inl e
                | Inr outb \<Rightarrow> Inr (new_FPolicy\<lparr>InboundRules := inb, OutboundRules := outb\<rparr>)))"

definition fromProtoProfile :: "protocol_names \<Rightarrow> proto_Profile \<Rightarrow> go_error + FPolicy" where
  "fromProtoProfile pn p =
     (case fromProtoRules pn (PF_InboundRules p) of
        Inl e \<Rightarrow> Inl e
      | Inr inb \<Rightarrow>
          (case fromProtoRules pn (PF_OutboundRules p) of
             Inl e \<Rightarrow> Inl e
           | Inr outb \<Rightarrow> Inr (new_FPolicy\<lparr>InboundRules := inb, OutboundRules := outb\<rparr>)))"

text \<open>One of the two loops of \<open>createRules\<close>: every rule is created in place and its identifier
  appended.\<close>

definition create_and_record :: "vpp \<Rightarrow> (string, IPSet) gomap \<Rightarrow> (FRule \<times> u32 list \<times> vhist, go_error) cmd" where
  "create_and_record vpp ipsets s =
     (case s of (r, (ids, h)) \<Rightarrow>
        (case Rule_Create vpp ipsets (r, h) of
           (Done, (r', h')) \<Rightarrow> (Done, (r', (ids @ [FR_VppID r'], h')))
         | (Fail e, (r', h')) \<Rightarrow> (Fail e, (r', (ids, h')))
         | (Panicked, (r', h')) \<Rightarrow> (Panicked, (r', (ids, h')))))"

definition create_inbound :: "vpp \<Rightarrow> (string, IPSet) gomap \<Rightarrow> (FPolicy \<times> vhist, go_error) cmd" where
  "create_inbound vpp ipsets s =
     (case foreach_mut (create_and_record vpp ipsets) (InboundRules (fst s), ([], snd s)) of
        (st, (rules, (ids, h'))) \<Rightarrow>
          (st, ((fst s)\<lparr>InboundRules := rules, FP_Policy := (FP_Policy (fst s))\<lparr>InboundRuleIDs := ids\<rparr>\<rparr>, h')))"

definition create_outbound :: "vpp \<Rightarrow> (string, IPSet) gomap \<Rightarrow> (FPolicy \<times> vhist, go_error) cmd" where
  "create_outbound vpp ipsets s =
     (case foreach_mut (create_and_record vpp ipsets) (OutboundRules (fst s), ([], snd s)) of
        (st, (rules, (ids, h'))) \<Rightarrow>
          (st, ((fst s)\<lparr>OutboundRules := rules, FP_Policy := (FP_Policy (fst s))\<lparr>OutboundRuleIDs := ids\<rparr>\<rparr>, h')))"

definition createRules :: "vpp \<Rightarrow> (string, IPSet) gomap \<Rightarrow> (FPolicy \<times> vhist, go_error) cmd" where
  "createRules vpp ipsets = andthen (create_inbound vpp ipsets) (create_outbound vpp ipsets)"

definition delete_inbound :: "vpp \<Rightarrow> (FPolicy \<times> vhist, go_error) cmd" where
  "delete_inbound vpp s =
     (case foreach_mut (Rule_Delete vpp) (InboundRules (fst s), snd s) of
        (st, (rules, h')) \<Rightarrow> (st, ((fst s)\<lparr>InboundRules := rules\<rparr>, h')))"

definition delete_outbound :: "vpp \<Rightarrow> (FPolicy \<times> vhist, go_error) cmd" where
  "delete_outbound vpp s =
     (case foreach_mut (Rule_Delete vpp) (OutboundRules (fst s), snd s) of
        (st, (rules, h')) \<Rightarrow> (st, ((fst s)\<lparr>OutboundRules := rules\<rparr>, h')))"

definition deleteRules :: "vpp \<Rightarrow> (FPolicy \<times> vhist, go_error) cmd" where
  "deleteRules vpp = andthen (delete_inbound vpp) (delete_outbound vpp)"

definition Policy_Create :: "vpp \<Rightarrow> (string, IPSet) gomap \<Rightarrow> (FPolicy \<times> vhist, go_error) cmd" where
  "Policy_Create vpp ipsets =
     andthen (createRules vpp ipsets)
       (\<lambda>s. case PolicyCreate vpp (FP_Policy (fst s)) (snd s) of
              (None, h') \<Rightarrow> (Fail EVpp, (fst s, h'))
            | (Some i, h') \<Rightarrow> (Done, ((fst s)\<lparr>FP_VppID := i\<rparr>, h')))"

text \<open>\<open>Policy.Update\<close> works on two policies: the new one, whose rules are created, and the receiver.
  The state is the pair of them.\<close>

definition on_new :: "(FPolicy \<times> vhist, go_error) cmd \<Rightarrow> ((FPolicy \<times> FPolicy) \<times> vhist, go_error) cmd" where
  [go_defs]: "on_new c s = (case s of ((p, new), h) \<Rightarrow> (case c (new, h) of (st, (new', h')) \<Rightarrow> (st, ((p, new'), h'))))"

definition on_old :: "(FPolicy \<times> vhist, go_error) cmd \<Rightarrow> ((FPolicy \<times> FPolicy) \<times> vhist, go_error) cmd" where
  [go_defs]: "on_old c s = (case s of ((p, new), h) \<Rightarrow> (case c (p, h) of (st, (p', h')) \<Rightarrow> (st, ((p', new), h'))))"

definition update_record :: "FPolicy \<times> FPolicy \<Rightarrow> FPolicy \<times> FPolicy" where
  "update_record pn = (case pn of (p, new) \<Rightarrow>
     (p\<lparr>InboundRules := InboundRules new, OutboundRules := OutboundRules new,
        FP_Policy := \<lparr>InboundRuleIDs = InboundRuleIDs (FP_Policy new),
                      OutboundRuleIDs = OutboundRuleIDs (FP_Policy new)\<rparr>\<rparr>, new))"

definition Policy_Update :: "vpp \<Rightarrow> (string, IPSet) gomap \<Rightarrow> ((FPolicy \<times> FPolicy) \<times> vhist, go_error) cmd" where
  "Policy_Update vpp ipsets =
     andthen (on_new (createRules vpp ipsets))
     (andthen (\<lambda>s. on_vpp (PolicyUpdate vpp (FP_VppID (fst (fst s))) (FP_Policy (snd (fst s)))) s)
     (andthen (on_old (deleteRules vpp))
              (on_obj update_record)))"

definition Policy_Delete :: "vpp \<Rightarrow> (FPolicy \<times> vhist, go_error) cmd" where
  "Policy_Delete vpp =
     andthen (deleteRules vpp)
     (andthen (\<lambda>s. on_vpp (PolicyDelete vpp (FP_VppID (fst s))) s)
              (on_obj (FP_VppID_update (\<lambda>_. InvalidID))))"

section \<open>Rules and policies VPP holds\<close>

text \<open>What the acknowledged calls of a history (newest first) have left in VPP: the content of every
  rule, and the items of every policy.\<close>

fun vpp_rule :: "vhist \<Rightarrow> u32 \<Rightarrow> NpolRule option" where
  "vpp_rule [] i = None"
| "vpp_rule ((c, VppFailed) # h) i = vpp_rule h i"
| "vpp_rule ((NpolRuleCreate r, VppReply j) # h) i = (if i = j then Some r else vpp_rule h i)"
| "vpp_rule ((NpolRuleUpdate j r, VppReply _) # h) i = (if i = j then Some r else vpp_rule h i)"
| "vpp_rule ((NpolRuleDelete j, VppReply _) # h) i = (if i = j then None else vpp_rule h i)"
| "vpp_rule (_ # h) i = vpp_rule h i"

fun vpp_policy :: "vhist \<Rightarrow> u32 \<Rightarrow> NpolPolicyItem list option" where
  "vpp_policy [] i = None"
| "vpp_policy ((c, VppFailed) # h) i = vpp_policy h i"
| "vpp_policy ((NpolPolicyCreate items, VppReply j) # h) i = (if i = j then Some items else vpp_policy h i)"
| "vpp_policy ((NpolPolicyUpdate j items, VppReply _) # h) i = (if i = j then Some items else vpp_policy h i)"
| "vpp_policy ((NpolPolicyDelete j, VppReply _) # h) i = (if i = j then None else vpp_policy h i)"
| "vpp_policy (_ # h) i = vpp_policy h i"

text \<open>No policy refers to a rule that does not exist, and that at every point of a history.\<close>

definition no_dangling :: "vhist \<Rightarrow> bool" where
  "no_dangling h \<longleftrightarrow> (\<forall>pid items it. vpp_policy h pid = Some items \<longrightarrow> it \<in> set items \<longrightarrow>
     vpp_rule h (NPI_RuleID it) \<noteq> None)"

fun all_hist :: "(vhist \<Rightarrow> bool) \<Rightarrow> vhist \<Rightarrow> bool" where
  "all_hist P [] = P []"
| "all_hist P (x # h) = (P (x # h) \<and> all_hist P h)"

lemma all_hist_now: "all_hist P h \<Longrightarrow> P h"
  by (cases h) auto

text \<open>What is relied on of VPP: the identifier of a new rule is not that of an existing one.\<close>

definition fresh_rule_ids :: "vpp \<Rightarrow> bool" where
  "fresh_rule_ids vpp \<longleftrightarrow> (\<forall>h r i. vpp h (NpolRuleCreate r) = VppReply i \<longrightarrow> vpp_rule h i = None)"

definition rules_of :: "FPolicy \<Rightarrow> FRule list" where
  "rules_of p = InboundRules p @ OutboundRules p"

text \<open>A policy of the agent is installed: VPP has it with its rules, and the rules with their
  content.\<close>

definition rule_installed :: "vhist \<Rightarrow> FRule \<Rightarrow> bool" where
  "rule_installed h r \<longleftrightarrow> vpp_rule h (FR_VppID r) = Some (ToNpolRule (FR_Rule r))"

definition policy_installed :: "FPolicy \<Rightarrow> vhist \<Rightarrow> bool" where
  "policy_installed p h \<longleftrightarrow> vpp_policy h (FP_VppID p) = Some (ToNpolPolicy (FP_Policy p)) \<and>
     InboundRuleIDs (FP_Policy p) = map FR_VppID (InboundRules p) \<and>
     OutboundRuleIDs (FP_Policy p) = map FR_VppID (OutboundRules p) \<and>
     (\<forall>r \<in> set (rules_of p). rule_installed h r) \<and> distinct (map FR_VppID (rules_of p))"

text \<open>No other policy refers to its rules.\<close>

definition sole_owner :: "FPolicy \<Rightarrow> vhist \<Rightarrow> bool" where
  "sole_owner p h \<longleftrightarrow> (\<forall>pid items it. pid \<noteq> FP_VppID p \<longrightarrow> vpp_policy h pid = Some items \<longrightarrow> it \<in> set items \<longrightarrow>
     NPI_RuleID it \<notin> FR_VppID ` set (rules_of p))"

lemma ToNpolPolicy_ids: "it \<in> set (ToNpolPolicy p) \<Longrightarrow> NPI_RuleID it \<in> set (InboundRuleIDs p) \<union> set (OutboundRuleIDs p)"
  by (auto simp: ToNpolPolicy_def)

section \<open>Creating rules\<close>

lemma resolve_into_keeps: "resolve_into ipsets names field s = (st, s') \<Longrightarrow> snd s' = snd s"
  by (auto simp: resolve_into_def split: prod.splits)

lemma resolve_all_keeps: "resolve_all ipsets s = (st, s') \<Longrightarrow> snd s' = snd s"
  unfolding resolve_all_def
  by (auto simp: on_obj_def elim!: andthen_cases dest!: resolve_into_keeps)

lemma Rule_Create_cases:
  assumes "Rule_Create vpp ipsets (r, h) = (st, (r', h'))"
  obtains (none) "st \<noteq> Done" "h' = h"
  | (failed) c where "st \<noteq> Done" "h' = (NpolRuleCreate c, VppFailed) # h"
  | (created) i where "st = Done" "FR_VppID r' = i" "vpp h (NpolRuleCreate (ToNpolRule (FR_Rule r'))) = VppReply i"
      "h' = (NpolRuleCreate (ToNpolRule (FR_Rule r')), VppReply i) # h"
  using assms unfolding Rule_Create_def
proof (cases rule: andthen_cases)
  case first
  then show ?thesis using none resolve_all_keeps by fastforce
next
  case (second s')
  then show ?thesis
    using resolve_all_keeps [OF second(1)] failed created
    by (auto simp: RuleCreate_def vpp_create_def call_def Let_def split: vpp_reply.splits)
qed

definition rules_created :: "vhist \<Rightarrow> vhist \<Rightarrow> FRule list \<Rightarrow> bool" where
  "rules_created h h' rs \<longleftrightarrow> distinct (map FR_VppID rs) \<and>
     (\<forall>r \<in> set rs. rule_installed h' r \<and> vpp_rule h (FR_VppID r) = None)"

text \<open>A history in which rules were added and nothing else changed.\<close>

definition only_rules_added :: "vhist \<Rightarrow> vhist \<Rightarrow> bool" where
  "only_rules_added h h' \<longleftrightarrow> vpp_policy h' = vpp_policy h \<and>
     (\<forall>i x. vpp_rule h i = Some x \<longrightarrow> vpp_rule h' i = Some x) \<and>
     (all_hist no_dangling h \<longrightarrow> all_hist no_dangling h')"

lemma only_rules_added_refl [simp]: "only_rules_added h h"
  by (simp add: only_rules_added_def)

lemma only_rules_added_trans: "only_rules_added h h' \<Longrightarrow> only_rules_added h' h'' \<Longrightarrow> only_rules_added h h''"
  by (simp add: only_rules_added_def)

lemma only_rules_added_None: "only_rules_added h h' \<Longrightarrow> vpp_rule h' i = None \<Longrightarrow> vpp_rule h i = None"
  unfolding only_rules_added_def by (metis not_None_eq)

lemma Rule_Create_adds:
  assumes "fresh_rule_ids vpp" "Rule_Create vpp ipsets (r, h) = (st, (r', h'))"
  shows "only_rules_added h h' \<and> (st = Done \<longrightarrow> rules_created h h' [r'])"
  using assms(2)
proof (cases rule: Rule_Create_cases)
  case none
  then show ?thesis by simp
next
  case (failed c)
  have "vpp_policy h' = vpp_policy h" "vpp_rule h' = vpp_rule h"
    using failed by (auto simp: fun_eq_iff)
  with failed show ?thesis
    by (auto simp: only_rules_added_def no_dangling_def dest: all_hist_now)
next
  case (created i)
  then have n: "vpp_rule h i = None" using assms(1) by (auto simp: fresh_rule_ids_def)
  have "vpp_policy h' = vpp_policy h" using created(4) by (auto simp: fun_eq_iff)
  moreover have "\<forall>j x. vpp_rule h j = Some x \<longrightarrow> vpp_rule h' j = Some x"
    using created(4) n by auto
  moreover have "no_dangling h \<Longrightarrow> no_dangling h'"
    using calculation unfolding no_dangling_def by (metis not_None_eq)
  ultimately show ?thesis
    using created n
    by (auto simp: only_rules_added_def rules_created_def rule_installed_def dest: all_hist_now)
qed

lemma create_and_record_cases:
  assumes "create_and_record vpp ipsets (r, (ids, h)) = (st, (r', (ids', h')))"
  shows "Rule_Create vpp ipsets (r, h) = (st, (r', h'))" "st = Done \<Longrightarrow> ids' = ids @ [FR_VppID r']"
  using assms by (auto simp: create_and_record_def split: prod.splits status.splits)

lemma create_loop:
  assumes "fresh_rule_ids vpp"
    "foreach_mut (create_and_record vpp ipsets) (rs, (ids, h)) = (st, (rs', (ids', h')))"
  shows "only_rules_added h h' \<and> (st = Done \<longrightarrow> ids' = ids @ map FR_VppID rs' \<and> rules_created h h' rs')"
  using assms(2)
proof (induction rs arbitrary: ids h rs')
  case Nil
  then show ?case by (simp add: rules_created_def)
next
  case (Cons r rs)
  from Cons.prems show ?case
  proof (cases rule: foreach_mut_Cons_cases)
    case (stop r1)
    with Rule_Create_adds [OF assms(1) create_and_record_cases(1) [OF stop(1)]] show ?thesis by simp
  next
    case (go r1 s1 rs2)
    obtain ids1 h1 where s1: "s1 = (ids1, h1)" by (cases s1)
    note body = create_and_record_cases [OF go(1) [unfolded s1]]
    have a1: "only_rules_added h h1" "rule_installed h1 r1" "vpp_rule h (FR_VppID r1) = None"
      using Rule_Create_adds [OF assms(1) body(1)] by (auto simp: rules_created_def)
    note IH = Cons.IH [OF go(2) [unfolded s1]]
    then have keep: "rule_installed h' r1" using a1(2) by (auto simp: only_rules_added_def rule_installed_def)
    have new: "vpp_rule h (FR_VppID x) = None" "FR_VppID x \<noteq> FR_VppID r1" if "st = Done" "x \<in> set rs2" for x
    proof -
      from IH that have "vpp_rule h1 (FR_VppID x) = None" by (simp add: rules_created_def)
      with a1 show "vpp_rule h (FR_VppID x) = None" "FR_VppID x \<noteq> FR_VppID r1"
        by (auto simp: rule_installed_def dest: only_rules_added_None)
    qed
    have ids1: "ids1 = ids @ [FR_VppID r1]" using body(2) by simp
    have "only_rules_added h h'" using IH a1(1) only_rules_added_trans by blast
    moreover have "rules_created h h' rs'" if "st = Done"
    proof -
      have "FR_VppID r1 \<notin> FR_VppID ` set rs2" using new(2) [OF that] by force
      with IH that keep new(1) [OF that] a1(3) go(3) show ?thesis by (auto simp: rules_created_def)
    qed
    ultimately show ?thesis using IH go(3) ids1 by auto
  qed
qed

lemma createRules_result:
  assumes "fresh_rule_ids vpp" "createRules vpp ipsets (p, h) = (st, (p', h'))"
  shows "only_rules_added h h' \<and> FP_VppID p' = FP_VppID p \<and>
    (st = Done \<longrightarrow> rules_created h h' (rules_of p') \<and>
       InboundRuleIDs (FP_Policy p') = map FR_VppID (InboundRules p') \<and>
       OutboundRuleIDs (FP_Policy p') = map FR_VppID (OutboundRules p'))"
  using assms(2) unfolding createRules_def
proof (cases rule: andthen_cases)
  case first
  then show ?thesis
    using create_loop [OF assms(1)] by (auto simp: create_inbound_def split: prod.splits)
next
  case (second s1)
  obtain p1 h1 where s1: "s1 = (p1, h1)" by (cases s1)
  obtain rs ids where inb: "foreach_mut (create_and_record vpp ipsets) (InboundRules p, ([], h)) = (Done, (rs, (ids, h1)))"
    "p1 = p\<lparr>InboundRules := rs, FP_Policy := (FP_Policy p)\<lparr>InboundRuleIDs := ids\<rparr>\<rparr>"
    using second(1) by (auto simp: s1 create_inbound_def split: prod.splits)
  obtain rs' ids' where outb: "foreach_mut (create_and_record vpp ipsets) (OutboundRules p, ([], h1)) = (st, (rs', (ids', h')))"
    "p' = p1\<lparr>OutboundRules := rs', FP_Policy := (FP_Policy p1)\<lparr>OutboundRuleIDs := ids'\<rparr>\<rparr>"
    using second(2) inb(2) by (auto simp: s1 create_outbound_def split: prod.splits)
  note c1 = create_loop [OF assms(1) inb(1)] and c2 = create_loop [OF assms(1) outb(1)]
  have "only_rules_added h h'" using c1 c2 only_rules_added_trans by blast
  moreover have "rules_created h h' (rules_of p')" if "st = Done"
  proof -
    have inst: "rule_installed h' r" if "r \<in> set rs" for r
      using c1 c2 that by (auto simp: rules_created_def only_rules_added_def rule_installed_def)
    have none: "vpp_rule h1 (FR_VppID r) = None" "vpp_rule h (FR_VppID r) = None" if "r \<in> set rs'" for r
      using c1 c2 that \<open>st = Done\<close> by (auto simp: rules_created_def dest: only_rules_added_None)
    have "FR_VppID r \<noteq> FR_VppID r'" if "r \<in> set rs" "r' \<in> set rs'" for r r'
      using none(1) [OF that(2)] c1 that(1) by (auto simp: rules_created_def rule_installed_def)
    with inst none(2) show ?thesis
      using c1 c2 that inb(2) outb(2) by (auto simp: rules_created_def rules_of_def)
  qed
  ultimately show ?thesis using c1 c2 inb(2) outb(2) by auto
qed

section \<open>Deleting rules\<close>

definition unreferenced :: "vhist \<Rightarrow> u32 set \<Rightarrow> bool" where
  "unreferenced h ids \<longleftrightarrow> (\<forall>pid items it. vpp_policy h pid = Some items \<longrightarrow> it \<in> set items \<longrightarrow> NPI_RuleID it \<notin> ids)"

lemma unreferenced_mono: "unreferenced h B \<Longrightarrow> A \<subseteq> B \<Longrightarrow> unreferenced h A"
  unfolding unreferenced_def by blast

lemma Rule_Delete_result:
  assumes "Rule_Delete vpp (r, h) = (st, (r', h'))"
  shows "vpp_policy h' = vpp_policy h \<and> (\<forall>i. i \<noteq> FR_VppID r \<longrightarrow> vpp_rule h' i = vpp_rule h i) \<and>
    (st = Done \<longrightarrow> vpp_rule h' (FR_VppID r) = None) \<and>
    (all_hist no_dangling h \<and> unreferenced h {FR_VppID r} \<longrightarrow> all_hist no_dangling h')"
proof -
  obtain rep where h': "h' = (NpolRuleDelete (FR_VppID r), rep) # h" "st = Done \<longleftrightarrow> rep \<noteq> VppFailed"
    using assms by (auto simp: Rule_Delete_def go_defs RuleDelete_def vpp_exec_def call_def Let_def
        split: vpp_reply.splits)
  have "vpp_policy h' = vpp_policy h" "\<forall>i. i \<noteq> FR_VppID r \<longrightarrow> vpp_rule h' i = vpp_rule h i"
    using h' by (cases rep; auto simp: fun_eq_iff)+
  moreover have "no_dangling h'" if "no_dangling h" "unreferenced h {FR_VppID r}"
    using calculation that unfolding no_dangling_def unreferenced_def by auto
  moreover have "st = Done \<longrightarrow> vpp_rule h' (FR_VppID r) = None"
    using h' by (cases rep) auto
  ultimately show ?thesis using h'(1) by (auto dest: all_hist_now)
qed

lemma delete_loop:
  assumes "foreach_mut (Rule_Delete vpp) (rs, h) = (st, (rs', h'))"
  shows "vpp_policy h' = vpp_policy h \<and> (\<forall>i. i \<notin> FR_VppID ` set rs \<longrightarrow> vpp_rule h' i = vpp_rule h i) \<and>
    (st = Done \<longrightarrow> (\<forall>i \<in> FR_VppID ` set rs. vpp_rule h' i = None)) \<and>
    (all_hist no_dangling h \<and> unreferenced h (FR_VppID ` set rs) \<longrightarrow> all_hist no_dangling h')"
  using assms
proof (induction rs arbitrary: h rs')
  case Nil
  then show ?case by simp
next
  case (Cons r rs)
  from Cons.prems show ?case
  proof (cases rule: foreach_mut_Cons_cases)
    case (stop r1)
    with Rule_Delete_result [OF stop(1)] show ?thesis by (auto simp: unreferenced_def)
  next
    case (go r1 h1 rs2)
    note d = Rule_Delete_result [OF go(1)] and IH = Cons.IH [OF go(2)]
    have "\<forall>i \<in> FR_VppID ` set (r # rs). vpp_rule h' i = None" if "st = Done"
      using d IH that by (cases "FR_VppID r \<in> FR_VppID ` set rs") auto
    moreover have "unreferenced h (FR_VppID ` set (r # rs)) \<Longrightarrow> unreferenced h1 (FR_VppID ` set rs)"
      using d by (auto simp: unreferenced_def)
    ultimately show ?thesis using d IH by (auto simp: unreferenced_def)
  qed
qed

lemma deleteRules_result:
  assumes "deleteRules vpp (p, h) = (st, (p', h'))"
  shows "FP_VppID p' = FP_VppID p \<and> vpp_policy h' = vpp_policy h \<and>
    (\<forall>i. i \<notin> FR_VppID ` set (rules_of p) \<longrightarrow> vpp_rule h' i = vpp_rule h i) \<and>
    (st = Done \<longrightarrow> (\<forall>i \<in> FR_VppID ` set (rules_of p). vpp_rule h' i = None)) \<and>
    (all_hist no_dangling h \<and> unreferenced h (FR_VppID ` set (rules_of p)) \<longrightarrow> all_hist no_dangling h')"
  using assms unfolding deleteRules_def
proof (cases rule: andthen_cases)
  case first
  then obtain rs where "foreach_mut (Rule_Delete vpp) (InboundRules p, h) = (st, (rs, h'))"
    "p' = p\<lparr>InboundRules := rs\<rparr>"
    by (auto simp: delete_inbound_def split: prod.splits)
  moreover have "unreferenced h (FR_VppID ` set (rules_of p)) \<Longrightarrow> unreferenced h (FR_VppID ` set (InboundRules p))"
    by (rule unreferenced_mono) (auto simp: rules_of_def)
  ultimately show ?thesis
    using delete_loop [of vpp "InboundRules p" h st rs h'] first(2) by (simp add: rules_of_def image_Un)
next
  case (second s1)
  obtain p1 h1 where s1: "s1 = (p1, h1)" by (cases s1)
  obtain rs where inb: "foreach_mut (Rule_Delete vpp) (InboundRules p, h) = (Done, (rs, h1))"
    "p1 = p\<lparr>InboundRules := rs\<rparr>"
    using second(1) by (auto simp: s1 delete_inbound_def split: prod.splits)
  obtain rs' where outb: "foreach_mut (Rule_Delete vpp) (OutboundRules p, h1) = (st, (rs', h'))"
    "p' = p1\<lparr>OutboundRules := rs'\<rparr>"
    using second(2) inb(2) by (auto simp: s1 delete_outbound_def split: prod.splits)
  note d1 = delete_loop [OF inb(1)] and d2 = delete_loop [OF outb(1)]
  have "vpp_rule h' i = None" if "i \<in> FR_VppID ` set (rules_of p)" "st = Done" for i
    using d1 d2 that by (cases "i \<in> FR_VppID ` set (OutboundRules p)") (auto simp: rules_of_def)
  moreover have "vpp_rule h' i = vpp_rule h i" if "i \<notin> FR_VppID ` set (rules_of p)" for i
    using d1 d2 that by (simp add: rules_of_def image_Un)
  moreover have "unreferenced h (FR_VppID ` set (rules_of p)) \<Longrightarrow>
      unreferenced h (FR_VppID ` set (InboundRules p)) \<and> unreferenced h1 (FR_VppID ` set (OutboundRules p))"
    using d1 by (simp add: unreferenced_def rules_of_def image_Un)
  ultimately show ?thesis using d1 d2 inb(2) outb(2) by simp
qed

section \<open>Policies\<close>

lemma PolicyUpdate_result:
  assumes "PolicyUpdate vpp i np h = (st, h')" "\<forall>j \<in> set (InboundRuleIDs np) \<union> set (OutboundRuleIDs np). vpp_rule h j \<noteq> None"
  shows "vpp_rule h' = vpp_rule h \<and>
    vpp_policy h' = (if st = Done then (vpp_policy h)(i \<mapsto> ToNpolPolicy np) else vpp_policy h) \<and>
    (all_hist no_dangling h \<longrightarrow> all_hist no_dangling h')"
proof -
  obtain rep where h': "h' = (NpolPolicyUpdate i (ToNpolPolicy np), rep) # h" "st = Done \<longleftrightarrow> rep \<noteq> VppFailed"
    using assms(1) by (auto simp: PolicyUpdate_def vpp_exec_def call_def Let_def split: vpp_reply.splits)
  have r: "vpp_rule h' = vpp_rule h" using h' by (cases rep) (auto simp: fun_eq_iff)
  have p: "vpp_policy h' = (if st = Done then (vpp_policy h)(i \<mapsto> ToNpolPolicy np) else vpp_policy h)"
    using h' by (cases rep) (auto simp: fun_eq_iff)
  have "no_dangling h'" if "no_dangling h"
    using that assms(2) ToNpolPolicy_ids [of _ np] unfolding no_dangling_def r p
    by (auto split: if_splits)
  with r p h' show ?thesis by (auto dest: all_hist_now)
qed

text \<open>The stages an update can stop at.\<close>

lemma Policy_Update_cases:
  assumes "Policy_Update vpp ipsets ((p, new), h) = (st, ((p', new'), h'))"
  obtains (create_failed) n where "createRules vpp ipsets (new, h) = (st, (n, h'))" "st \<noteq> Done"
  | (update_failed) n h1 where "createRules vpp ipsets (new, h) = (Done, (n, h1))"
      "PolicyUpdate vpp (FP_VppID p) (FP_Policy n) h1 = (st, h')" "st \<noteq> Done"
  | (deleted) n h1 h2 p2 where "createRules vpp ipsets (new, h) = (Done, (n, h1))"
      "PolicyUpdate vpp (FP_VppID p) (FP_Policy n) h1 = (Done, h2)"
      "deleteRules vpp (p, h2) = (st, (p2, h'))" "st = Done \<Longrightarrow> p' = fst (update_record (p2, n))"
  using assms unfolding Policy_Update_def
proof (cases rule: andthen_cases)
  case first
  then show ?thesis using create_failed by (auto simp: on_new_def split: prod.splits)
next
  case (second s1)
  then obtain n h1 where cr: "createRules vpp ipsets (new, h) = (Done, (n, h1))" and s1: "s1 = ((p, n), h1)"
    by (auto simp: on_new_def split: prod.splits)
  from second(2) show ?thesis
  proof (cases rule: andthen_cases)
    case first
    then show ?thesis using update_failed [OF cr] by (auto simp: s1 on_vpp_def split: prod.splits)
  next
    case (second s2)
    then obtain h2 where up: "PolicyUpdate vpp (FP_VppID p) (FP_Policy n) h1 = (Done, h2)" and s2: "s2 = ((p, n), h2)"
      by (auto simp: s1 on_vpp_def split: prod.splits)
    from second(2) show ?thesis
      using deleted [OF cr up]
      by (cases rule: andthen_cases) (auto simp: s2 on_old_def on_obj_def split: prod.splits)
  qed
qed

text \<open>Once the new rules exist and VPP has taken the new policy, nothing refers to the old rules; and
  when these are gone, the new policy is installed.\<close>

lemma update_swap:
  assumes h: "all_hist no_dangling h" "policy_installed p h" "sole_owner p h"
    and h1: "only_rules_added h h1" "rules_created h h1 (rules_of n)"
      "InboundRuleIDs (FP_Policy n) = map FR_VppID (InboundRules n)"
      "OutboundRuleIDs (FP_Policy n) = map FR_VppID (OutboundRules n)"
    and h2: "vpp_rule h2 = vpp_rule h1" "vpp_policy h2 = (vpp_policy h1)(FP_VppID p \<mapsto> ToNpolPolicy (FP_Policy n))"
  shows "unreferenced h2 (FR_VppID ` set (rules_of p))"
    and "vpp_policy h3 = vpp_policy h2 \<Longrightarrow>
      \<forall>i. i \<notin> FR_VppID ` set (rules_of p) \<longrightarrow> vpp_rule h3 i = vpp_rule h2 i \<Longrightarrow>
      FP_VppID p2 = FP_VppID p \<Longrightarrow> p' = fst (update_record (p2, n)) \<Longrightarrow>
      policy_installed p' h3 \<and> sole_owner p' h3 \<and> FP_VppID p' = FP_VppID p"
proof -
  have pol: "vpp_policy h1 = vpp_policy h" using h1(1) by (simp add: only_rules_added_def)
  have apart: "FR_VppID r \<notin> FR_VppID ` set (rules_of p)" "vpp_rule h (FR_VppID r) = None"
    if "r \<in> set (rules_of n)" for r
    using that h(2) h1(2) by (auto simp: policy_installed_def rules_created_def rule_installed_def image_iff)
  have items: "NPI_RuleID it \<in> FR_VppID ` set (rules_of n)" if "it \<in> set (ToNpolPolicy (FP_Policy n))" for it
    using ToNpolPolicy_ids [OF that] h1(3,4) by (auto simp: rules_of_def)
  show "unreferenced h2 (FR_VppID ` set (rules_of p))"
    unfolding unreferenced_def h2(2) pol
    using items apart(1) h(3) by (force simp: sole_owner_def split: if_splits)
  assume h3: "vpp_policy h3 = vpp_policy h2"
    "\<forall>i. i \<notin> FR_VppID ` set (rules_of p) \<longrightarrow> vpp_rule h3 i = vpp_rule h2 i"
    and p': "FP_VppID p2 = FP_VppID p" "p' = fst (update_record (p2, n))"
  then have p'': "FP_VppID p' = FP_VppID p" "InboundRules p' = InboundRules n" "OutboundRules p' = OutboundRules n"
    "rules_of p' = rules_of n" "FP_Policy p' = FP_Policy n"
    by (simp_all add: update_record_def rules_of_def)
  have "rule_installed h3 r" if "r \<in> set (rules_of n)" for r
    using that apart(1) [OF that] h1(2) h3(2) h2(1) by (simp add: rules_created_def rule_installed_def)
  then have "policy_installed p' h3"
    using h1(2-4) h2 h3 p'' by (auto simp: policy_installed_def rules_created_def)
  moreover have "vpp_rule h (NPI_RuleID it) \<noteq> None" if "vpp_policy h pid = Some items" "it \<in> set items" for pid items it
    using all_hist_now [OF h(1)] that unfolding no_dangling_def by blast
  with apart(2) have "sole_owner p' h3"
    unfolding sole_owner_def h3(1) h2(2) pol p''(1,4) by (force split: if_splits)
  ultimately show "policy_installed p' h3 \<and> sole_owner p' h3 \<and> FP_VppID p' = FP_VppID p"
    using p'' by simp
qed

lemma Policy_Update_result:
  assumes "fresh_rule_ids vpp" "all_hist no_dangling h" "policy_installed p h" "sole_owner p h"
    "Policy_Update vpp ipsets ((p, new), h) = (st, ((p', new'), h'))"
  shows "all_hist no_dangling h' \<and>
    (st = Done \<longrightarrow> policy_installed p' h' \<and> sole_owner p' h' \<and> FP_VppID p' = FP_VppID p \<and>
      (\<forall>r \<in> set (rules_of p). vpp_rule h' (FR_VppID r) = None))"
proof -
  have created: "all_hist no_dangling h1 \<and>
      (st1 = Done \<longrightarrow> (\<forall>j \<in> set (InboundRuleIDs (FP_Policy n)) \<union> set (OutboundRuleIDs (FP_Policy n)). vpp_rule h1 j \<noteq> None))"
    if "createRules vpp ipsets (new, h) = (st1, (n, h1))" for st1 n h1
    using createRules_result [OF assms(1) that] assms(2)
    by (auto simp: only_rules_added_def rules_created_def rules_of_def rule_installed_def)
  from assms(5) show ?thesis
  proof (cases rule: Policy_Update_cases)
    case (create_failed n)
    with created show ?thesis by blast
  next
    case (update_failed n h1)
    with created [OF update_failed(1)] PolicyUpdate_result [OF update_failed(2)] show ?thesis by blast
  next
    case (deleted n h1 h2 p2)
    note c = created [OF deleted(1)]
    then have u: "vpp_rule h2 = vpp_rule h1" "all_hist no_dangling h2"
      "vpp_policy h2 = (vpp_policy h1)(FP_VppID p \<mapsto> ToNpolPolicy (FP_Policy n))"
      using PolicyUpdate_result [OF deleted(2)] by auto
    have n: "only_rules_added h h1" "rules_created h h1 (rules_of n)"
      "InboundRuleIDs (FP_Policy n) = map FR_VppID (InboundRules n)"
      "OutboundRuleIDs (FP_Policy n) = map FR_VppID (OutboundRules n)"
      using createRules_result [OF assms(1) deleted(1)] by auto
    note swap = update_swap [OF assms(2-4) n u(1,3)]
    note d = deleteRules_result [OF deleted(3)]
    have "all_hist no_dangling h'" using d u(2) swap(1) by blast
    moreover have "policy_installed p' h' \<and> sole_owner p' h' \<and> FP_VppID p' = FP_VppID p" if "st = Done"
      using swap(2) [of h' p2 p'] d deleted(4) [OF that] by blast
    ultimately show ?thesis using d by auto
  qed
qed

section \<open>Resolving the sets of a rule\<close>

definition set_names :: "FRule \<Rightarrow> string list" where
  "set_names r = DstIPPortIPSetNames r @ DstNotIPPortIPSetNames r @ SrcIPPortIPSetNames r @
     SrcNotIPPortIPSetNames r @ DstIPSetNames r @ DstNotIPSetNames r @ SrcIPSetNames r @
     SrcNotIPSetNames r @ DstIPPortSetNames r"

definition set_id :: "(string, IPSet) gomap \<Rightarrow> string \<Rightarrow> u32" where
  "set_id ipsets n = (case mget ipsets n of None \<Rightarrow> InvalidID | Some s \<Rightarrow> IPS_VppID s)"

definition resolved :: "(string, IPSet) gomap \<Rightarrow> FRule \<Rightarrow> NRule" where
  "resolved ipsets r = (FR_Rule r)\<lparr>
     DstIPPortIPSet := map (set_id ipsets) (DstIPPortIPSetNames r),
     DstNotIPPortIPSet := map (set_id ipsets) (DstNotIPPortIPSetNames r),
     SrcIPPortIPSet := map (set_id ipsets) (SrcIPPortIPSetNames r),
     SrcNotIPPortIPSet := map (set_id ipsets) (SrcNotIPPortIPSetNames r),
     DstIPSet := map (set_id ipsets) (DstIPSetNames r),
     DstNotIPSet := map (set_id ipsets) (DstNotIPSetNames r),
     SrcIPSet := map (set_id ipsets) (SrcIPSetNames r),
     SrcNotIPSet := map (set_id ipsets) (SrcNotIPSetNames r),
     DstIPPortSet := map (set_id ipsets) (DstIPPortSetNames r)\<rparr>"

lemma resolve_sets_ready:
  "\<forall>n \<in> set ns. set_id ipsets n \<noteq> InvalidID \<Longrightarrow>
   resolve_sets ipsets acc ns = (Done, acc @ map (set_id ipsets) ns)"
  by (induction ns arbitrary: acc) (auto simp: set_id_def split: option.splits)

definition resolve_status :: "(string, IPSet) gomap \<Rightarrow> string list \<Rightarrow> go_error status" where
  "resolve_status ipsets ns = fst (resolve_sets ipsets [] ns)"

lemma resolve_sets_status: "fst (resolve_sets ipsets acc ns) = resolve_status ipsets ns"
proof -
  have "fst (resolve_sets ipsets acc ns) = fst (resolve_sets ipsets acc' ns)" for acc acc'
    by (induction ns arbitrary: acc acc') (auto split: option.splits)
  then show ?thesis by (simp add: resolve_status_def)
qed

lemma resolve_status_append:
  "resolve_status ipsets (xs @ ys) =
   (if resolve_status ipsets xs = Done then resolve_status ipsets ys else resolve_status ipsets xs)"
proof (induction xs)
  case Nil
  then show ?case by (simp add: resolve_status_def)
next
  case (Cons x xs)
  then show ?case
    by (auto simp: resolve_status_def resolve_sets_status [unfolded resolve_status_def, of ipsets "[u]" for u]
        split: option.splits)
qed

lemma status_andthen_resolve:
  "fst (andthen (resolve_into ipsets names field) c s) =
   (if resolve_status ipsets (names (fst s)) = Done
    then fst (c ((fst s)\<lparr>FR_Rule := field (\<lambda>_. snd (resolve_sets ipsets [] (names (fst s)))) (FR_Rule (fst s))\<rparr>, snd s))
    else resolve_status ipsets (names (fst s)))"
  by (cases "resolve_status ipsets (names (fst s))")
    (auto simp: andthen_def resolve_into_def resolve_status_def split: prod.splits status.splits)

lemma status_resolve_into:
  "fst (resolve_into ipsets names field s) = resolve_status ipsets (names (fst s))"
  by (simp add: resolve_into_def resolve_status_def split: prod.splits)

lemma resolve_all_status: "fst (resolve_all ipsets (r, h)) = resolve_status ipsets (set_names r)"
  by (simp add: resolve_all_def set_names_def andthen_def [of "on_obj f" for f] on_obj_def
      status_andthen_resolve status_resolve_into resolve_status_append)

lemma resolve_status_missing:
  assumes "\<forall>x \<in> set pre. set_id ipsets x \<noteq> InvalidID" "mget ipsets n = None"
  shows "resolve_status ipsets (pre @ n # post) = Panicked"
  using assms resolve_sets_ready [OF assms(1), of "[]"]
  unfolding resolve_status_append by (simp add: resolve_status_def)

lemma resolve_all_ready:
  assumes "\<forall>n \<in> set (set_names r). set_id ipsets n \<noteq> InvalidID"
  shows "resolve_all ipsets (r, h) = (Done, (r\<lparr>FR_Rule := resolved ipsets r\<rparr>, h))"
proof -
  have "resolve_into ipsets names field (r', h) = (Done, (r'\<lparr>FR_Rule := field (\<lambda>_. map (set_id ipsets) (names r')) (FR_Rule r')\<rparr>, h))"
    if "\<forall>n \<in> set (names r'). set_id ipsets n \<noteq> InvalidID" for names field r'
    using resolve_sets_ready [OF that, of "[]"] by (simp add: resolve_into_def)
  with assms show ?thesis
    by (simp add: resolve_all_def set_names_def andthen_def on_obj_def clear_sets_def resolved_def)
qed

section \<open>Creation and deletion of policies\<close>

lemma Policy_Create_result:
  assumes "fresh_rule_ids vpp" "all_hist no_dangling h" "Policy_Create vpp ipsets (p, h) = (st, (p', h'))"
  shows "all_hist no_dangling h' \<and> (st = Done \<longrightarrow> policy_installed p' h' \<and> sole_owner p' h')"
  using assms(3) unfolding Policy_Create_def
proof (cases rule: andthen_cases)
  case first
  with createRules_result [OF assms(1) first(1)] assms(2) show ?thesis by (simp add: only_rules_added_def)
next
  case (second s1)
  obtain p1 h1 where s1: "s1 = (p1, h1)" by (cases s1)
  have c: "only_rules_added h h1" "rules_created h h1 (rules_of p1)"
    "InboundRuleIDs (FP_Policy p1) = map FR_VppID (InboundRules p1)"
    "OutboundRuleIDs (FP_Policy p1) = map FR_VppID (OutboundRules p1)"
    using createRules_result [OF assms(1) second(1) [unfolded s1]] by auto
  have nd: "all_hist no_dangling h1" using c(1) assms(2) by (simp add: only_rules_added_def)
  obtain rep where h': "h' = (NpolPolicyCreate (ToNpolPolicy (FP_Policy p1)), rep) # h1"
    "case rep of VppFailed \<Rightarrow> st \<noteq> Done | VppReply i \<Rightarrow> p' = p1\<lparr>FP_VppID := i\<rparr>"
    using second(2) by (auto simp: s1 PolicyCreate_def vpp_create_def call_def Let_def split: vpp_reply.splits)
  have r: "vpp_rule h' = vpp_rule h1" using h'(1) by (cases rep) (auto simp: fun_eq_iff)
  have live: "vpp_rule h1 (NPI_RuleID it) \<noteq> None" if "it \<in> set (ToNpolPolicy (FP_Policy p1))" for it
    using ToNpolPolicy_ids [OF that] c by (auto simp: rules_created_def rules_of_def rule_installed_def)
  show ?thesis
  proof (cases rep)
    case VppFailed
    then have "no_dangling h'" using h'(1) all_hist_now [OF nd] by (simp add: no_dangling_def)
    with VppFailed h' nd show ?thesis by simp
  next
    case (VppReply i)
    have pol: "vpp_policy h' = (vpp_policy h)(i \<mapsto> ToNpolPolicy (FP_Policy p1))"
      using h'(1) VppReply c(1) by (auto simp: fun_eq_iff only_rules_added_def)
    have "no_dangling h'"
      using all_hist_now [OF nd] live c(1) unfolding no_dangling_def r pol
      by (auto simp: only_rules_added_def split: if_splits)
    moreover have "policy_installed p' h'"
      using VppReply h'(2) r pol c by (auto simp: policy_installed_def rules_of_def rules_created_def rule_installed_def)
    moreover have "sole_owner p' h'"
      using VppReply h'(2) pol c(2) all_hist_now [OF assms(2)]
      by (force simp: sole_owner_def no_dangling_def rules_created_def rules_of_def split: if_splits)
    ultimately show ?thesis using h'(1) nd by simp
  qed
qed

lemma Policy_Delete_result:
  assumes "Policy_Delete vpp (p, h) = (Done, (p', h'))"
  shows "\<exists>h1 x. h' = x # h1 \<and> vpp_policy h1 = vpp_policy h \<and> vpp_policy h' = (vpp_policy h)(FP_VppID p := None) \<and>
    vpp_rule h' = vpp_rule h1 \<and> (\<forall>i \<in> FR_VppID ` set (rules_of p). vpp_rule h1 i = None) \<and>
    (\<forall>i. i \<notin> FR_VppID ` set (rules_of p) \<longrightarrow> vpp_rule h1 i = vpp_rule h i)"
proof -
  obtain p1 h1 where d: "deleteRules vpp (p, h) = (Done, (p1, h1))"
    "PolicyDelete vpp (FP_VppID p1) h1 = (Done, h')"
    using assms
    by (fastforce simp: Policy_Delete_def andthen_Done on_vpp_eq on_obj_eq)
  note r = deleteRules_result [OF d(1)]
  obtain v where h': "h' = (NpolPolicyDelete (FP_VppID p1), VppReply v) # h1"
    using d(2) by (auto simp: PolicyDelete_def vpp_exec_def call_def Let_def split: vpp_reply.splits)
  have "vpp_policy h' = (vpp_policy h)(FP_VppID p := None)" "vpp_rule h' = vpp_rule h1"
    using r h' by (auto simp: fun_eq_iff)
  with r h' show ?thesis by auto
qed

section \<open>Properties\<close>


text \<open>A VPP that numbers objects by the length of the history and refuses a rule whose number is taken.\<close>

definition vpp_fresh :: vpp where
  "vpp_fresh h c =
     (case c of
        NpolRuleCreate _ \<Rightarrow> (if vpp_rule h (of_nat (length h)) = None then VppReply (of_nat (length h)) else VppFailed)
      | _ \<Rightarrow> VppReply (of_nat (length h)))"

lemma vpp_fresh_ids: "fresh_rule_ids vpp_fresh"
  by (simp add: fresh_rule_ids_def vpp_fresh_def split: if_splits)

definition rule_ex :: "RuleAction \<Rightarrow> FRule" where
  "rule_ex a = \<lparr>FR_Rule = zero_NRule a, RuleID = ''r'', FR_VppID = InvalidID, DstIPPortIPSetNames = [],
     DstNotIPPortIPSetNames = [], SrcIPPortIPSetNames = [], SrcNotIPPortIPSetNames = [],
     DstIPSetNames = [''s''], DstNotIPSetNames = [], SrcIPSetNames = [], SrcNotIPSetNames = [],
     DstIPPortSetNames = [], Annotations = []\<rparr>"

definition ipsets_ex :: "(string, IPSet) gomap" where
  "ipsets_ex = [(''s'', NewIPSet\<lparr>IPS_VppID := 9\<rparr>)]"

definition policy_ex :: FPolicy where
  "policy_ex = new_FPolicy\<lparr>InboundRules := [(rule_ex ActionAllow)\<lparr>FR_Rule := (zero_NRule ActionAllow)\<lparr>DstIPSet := [9]\<rparr>,
     FR_VppID := 0\<rparr>], FP_Policy := \<lparr>InboundRuleIDs = [0], OutboundRuleIDs = []\<rparr>, FP_VppID := 1\<rparr>"

definition hist_ex :: vhist where
  "hist_ex = [(NpolPolicyCreate [\<lparr>NPI_IsInbound = False, NPI_RuleID = 0\<rparr>], VppReply 1),
     (NpolRuleCreate (ToNpolRule ((zero_NRule ActionAllow)\<lparr>DstIPSet := [9]\<rparr>)), VppReply 0)]"

lemma policy_ex_installed: "policy_installed policy_ex hist_ex" "sole_owner policy_ex hist_ex" "all_hist no_dangling hist_ex"
  by (auto simp: policy_installed_def sole_owner_def policy_ex_def hist_ex_def rules_of_def rule_installed_def
      no_dangling_def rule_ex_def new_FPolicy_def ToNpolPolicy_def split: if_splits)

lemmas policy_run = Policy_Update_def Policy_Create_def Policy_Delete_def createRules_def deleteRules_def
  create_inbound_def create_outbound_def delete_inbound_def delete_outbound_def create_and_record_def
  Rule_Create_def Rule_Delete_def resolve_all_def resolve_into_def RuleCreate_def RuleDelete_def
  PolicyUpdate_def PolicyCreate_def PolicyDelete_def vpp_exec_def vpp_create_def call_def go_defs
  update_record_def clear_sets_def InvalidID_def

lemmas policy_examples = policy_ex_def hist_ex_def rule_ex_def ipsets_ex_def new_FPolicy_def vpp_fresh_def
  NewIPSet_def zero_NRule_def


text \<open>Creating a policy installs it: when \<open>Create\<close> succeeds, VPP holds the policy under the
  identifier the agent recorded, its items are the agent's rules in order, every rule is in VPP with
  the content the agent holds, and no other policy refers to these rules. No policy refers to a
  missing rule at any point, also when the creation fails.\<close>

theorem Policy_Create_installs:
  assumes "fresh_rule_ids vpp" "all_hist no_dangling h" "Policy_Create vpp ipsets (p, h) = (st, (p', h'))"
  shows "all_hist no_dangling h' \<and> (st = Done \<longrightarrow> policy_installed p' h' \<and> sole_owner p' h')"
  using assms by (rule Policy_Create_result)

theorem Policy_Create_installs_witness:
  "\<exists>p' h'. Policy_Create vpp_fresh ipsets_ex (new_FPolicy\<lparr>InboundRules := [rule_ex ActionAllow, rule_ex ActionDeny]\<rparr>, []) =
     (Done, (p', h')) \<and> policy_installed p' h'"
proof -
  obtain st p' h' where r: "Policy_Create vpp_fresh ipsets_ex
      (new_FPolicy\<lparr>InboundRules := [rule_ex ActionAllow, rule_ex ActionDeny]\<rparr>, []) = (st, (p', h'))"
    by (metis surj_pair)
  have "st = Done"
    using arg_cong [OF r, of fst] by (simp add: policy_run policy_examples Let_def)
  then show ?thesis
    using Policy_Create_installs [OF vpp_fresh_ids _ r] r by (auto simp: no_dangling_def)
qed

text \<open>A successful deletion removes the policy and all its rules from VPP and touches nothing else.
  Unlike an update it is not break-free: the rules go first, so a policy with rules refers to missing
  rules until its own deletion.\<close>

theorem Policy_Delete_order:
  assumes "policy_installed p h" "Policy_Delete vpp (p, h) = (Done, (p', h'))"
  shows "vpp_policy h' = (vpp_policy h)(FP_VppID p := None) \<and>
    (\<forall>i. vpp_rule h' i = (if i \<in> FR_VppID ` set (rules_of p) then None else vpp_rule h i)) \<and>
    (rules_of p \<noteq> [] \<longrightarrow> \<not> all_hist no_dangling h')"
proof -
  obtain h1 x where d: "h' = x # h1" "vpp_policy h1 = vpp_policy h" "vpp_policy h' = (vpp_policy h)(FP_VppID p := None)"
    "vpp_rule h' = vpp_rule h1" "\<forall>i \<in> FR_VppID ` set (rules_of p). vpp_rule h1 i = None"
    "\<forall>i. i \<notin> FR_VppID ` set (rules_of p) \<longrightarrow> vpp_rule h1 i = vpp_rule h i"
    using Policy_Delete_result [OF assms(2)] by blast
  have "\<not> no_dangling h1" if "rules_of p \<noteq> []"
  proof -
    from that obtain r where r: "r \<in> set (rules_of p)" by (cases "rules_of p") auto
    then obtain it where "it \<in> set (ToNpolPolicy (FP_Policy p))" "NPI_RuleID it = FR_VppID r"
      using assms(1) by (force simp: policy_installed_def rules_of_def ToNpolPolicy_def)
    with r d(2,5) assms(1) show ?thesis unfolding no_dangling_def policy_installed_def by force
  qed
  with d show ?thesis by (auto dest: all_hist_now)
qed

theorem Policy_Delete_order_witness:
  "\<exists>p' h'. Policy_Delete vpp_fresh (policy_ex, hist_ex) = (Done, (p', h')) \<and> vpp_policy h' 1 = None \<and>
     vpp_rule h' 0 = None \<and> \<not> all_hist no_dangling h'"
proof -
  obtain st p' h' where r: "Policy_Delete vpp_fresh (policy_ex, hist_ex) = (st, (p', h'))"
    by (metis surj_pair)
  have st: "st = Done"
    using arg_cong [OF r, of fst] by (simp add: policy_run policy_examples Let_def)
  have "rules_of policy_ex \<noteq> []" "FP_VppID policy_ex = 1" "0 \<in> FR_VppID ` set (rules_of policy_ex)"
    by (simp_all add: policy_ex_def rules_of_def)
  with Policy_Delete_order [OF policy_ex_installed(1) r [unfolded st]] r st show ?thesis by auto
qed

text \<open>C9: When every set a rule names exists and has been created, creating the rule sends VPP the rule with
  each of its nine name lists replaced by the identifiers of the named sets, in order, and records
  the identifier VPP returns; nothing else of the rule changes.\<close>

theorem Rule_Create_resolves:
  assumes "\<forall>n \<in> set (set_names r). set_id ipsets n \<noteq> InvalidID"
    "vpp h (NpolRuleCreate (ToNpolRule (resolved ipsets r))) = VppReply i"
  shows "Rule_Create vpp ipsets (r, h) = (Done, (r\<lparr>FR_Rule := resolved ipsets r, FR_VppID := i\<rparr>,
    (NpolRuleCreate (ToNpolRule (resolved ipsets r)), VppReply i) # h))"
  using assms(2) unfolding Rule_Create_def
  by (simp add: andthen_def resolve_all_ready [OF assms(1)] RuleCreate_def vpp_create_def call_def Let_def)

theorem Rule_Create_resolves_witness:
  "DstIPSet (FR_Rule (fst (snd (Rule_Create vpp_fresh ipsets_ex (rule_ex ActionDeny, []))))) = [9]"
  by (subst Rule_Create_resolves [where i = 0])
    (simp_all add: policy_examples set_names_def set_id_def InvalidID_def resolved_def)

text \<open>A rule that names a set the agent does not know makes the agent panic: the error message of the
  lookup reads the identifier of the missing set. No VPP call is made.\<close>

theorem Rule_Create_panics:
  assumes "set_names r = pre @ n # post" "\<forall>x \<in> set pre. set_id ipsets x \<noteq> InvalidID" "mget ipsets n = None"
  shows "\<exists>r'. Rule_Create vpp ipsets (r, h) = (Panicked, (r', h))"
proof -
  obtain st r' h' where r: "resolve_all ipsets (r, h) = (st, (r', h'))"
    by (metis surj_pair)
  have "st = Panicked"
    using resolve_all_status [of ipsets r h] resolve_status_missing [OF assms(2,3), of post] assms(1) r by simp
  moreover have "h' = h" using resolve_all_keeps [OF r] by simp
  ultimately show ?thesis using r by (simp add: Rule_Create_def andthen_def)
qed

theorem Rule_Create_panics_witness:
  "\<exists>r'. Rule_Create vpp_fresh [] (rule_ex ActionAllow, []) = (Panicked, (r', []))"
  by (rule Rule_Create_panics [where pre = "[]" and n = "''s''" and post = "[]"])
    (simp_all add: set_names_def rule_ex_def)

lemma fromProtoRule_id: "fromProtoRule pn r = Inr q \<Longrightarrow> RuleID q = PR_RuleId r \<and> FR_VppID q = InvalidID"
  by (auto simp: fromProtoRule_def split: sum.splits)

lemma fromProtoRules_ids:
  "fromProtoRules pn rs = Inr qs \<Longrightarrow> map RuleID qs = map PR_RuleId rs \<and> (\<forall>q \<in> set qs. FR_VppID q = InvalidID)"
  by (induction rs arbitrary: qs) (auto split: sum.splits dest: fromProtoRule_id)

text \<open>The rules of a policy are split over the networks: the policy built for a network has exactly
  the rules annotated with that network (for the default network, those without annotation), in
  the order of the message, none of them created yet; and no rule belongs to two networks.\<close>

theorem fromProtoPolicy_network:
  assumes "fromProtoPolicy pn p net = Inr q" "\<not> PP_Untracked p" "\<not> PP_PreDnat p"
  shows "map RuleID (InboundRules q) = map PR_RuleId (filter (\<lambda>r. ruleInNetwork r net) (PP_InboundRules p)) \<and>
    map RuleID (OutboundRules q) = map PR_RuleId (filter (\<lambda>r. ruleInNetwork r net) (PP_OutboundRules p)) \<and>
    (\<forall>r \<in> set (rules_of q). FR_VppID r = InvalidID) \<and>
    (\<forall>r net'. ruleInNetwork r net \<and> ruleInNetwork r net' \<longrightarrow> net' = net)"
proof -
  have "fromProtoRules pn (filter (\<lambda>r. ruleInNetwork r net) (PP_InboundRules p)) = Inr (InboundRules q)"
    "fromProtoRules pn (filter (\<lambda>r. ruleInNetwork r net) (PP_OutboundRules p)) = Inr (OutboundRules q)"
    using assms by (auto simp: fromProtoPolicy_def split: sum.splits)
  moreover have "ruleInNetwork r net \<and> ruleInNetwork r net' \<longrightarrow> net' = net" for r net'
    by (auto simp: ruleInNetwork_def split: option.splits)
  ultimately show ?thesis
    by (auto simp: rules_of_def dest: fromProtoRules_ids)
qed

definition proto_rule_ex :: "string \<Rightarrow> (string, string) gomap option \<Rightarrow> proto_Rule" where
  "proto_rule_ex i md = \<lparr>PR_Action = ''Allow'', PR_RuleId = i, PR_Metadata = md, PR_Protocol = None, PR_NotProtocol = None,
     PR_SrcNet = [], PR_NotSrcNet = [], PR_DstNet = [], PR_NotDstNet = [], PR_SrcPorts = [],
     PR_NotSrcPorts = [], PR_DstPorts = [\<lparr>PPR_First = 80, PPR_Last = 443\<rparr>], PR_NotDstPorts = [],
     PR_DstNamedPortIpSetIds = [], PR_NotDstNamedPortIpSetIds = [], PR_SrcNamedPortIpSetIds = [],
     PR_NotSrcNamedPortIpSetIds = [], PR_DstIpSetIds = [], PR_NotDstIpSetIds = [], PR_SrcIpSetIds = [],
     PR_NotSrcIpSetIds = [], PR_DstIpPortSetIds = []\<rparr>"

definition pn_ex :: protocol_names where
  "pn_ex = \<lparr>ProtocolTCP = ''TCP'', ProtocolUDP = ''UDP'', ProtocolICMP = ''ICMP'', ProtocolICMPv6 = ''ICMPv6'',
     ProtocolSCTP = ''SCTP'', ProtocolUDPLite = ''UDPLite''\<rparr>"

definition proto_policy_ex :: proto_Policy where
  "proto_policy_ex = \<lparr>PP_Untracked = False, PP_PreDnat = False,
     PP_InboundRules = [proto_rule_ex ''a'' None, proto_rule_ex ''b'' (Some [(netAnnotationsLabel, ''blue'')])],
     PP_OutboundRules = []\<rparr>"

theorem fromProtoPolicy_network_witness:
  "\<exists>q. fromProtoPolicy pn_ex proto_policy_ex ''blue'' = Inr q \<and> map RuleID (InboundRules q) = [''b'']"
proof -
  have "parseAction ''Allow'' = Inr ActionAllow" by code_simp
  then obtain q where q: "fromProtoPolicy pn_ex proto_policy_ex ''blue'' = Inr q"
    by (auto simp: fromProtoPolicy_def proto_policy_ex_def proto_rule_ex_def ruleInNetwork_def fromProtoRule_def
      parseFilters_def simp del: parseAction.simps)
  have "filter (\<lambda>r. ruleInNetwork r ''blue'') (PP_InboundRules proto_policy_ex) =
      [proto_rule_ex ''b'' (Some [(netAnnotationsLabel, ''blue'')])]"
    by (simp add: proto_policy_ex_def ruleInNetwork_def proto_rule_ex_def)
  with fromProtoPolicy_network [OF q] q show ?thesis
    by (simp add: proto_policy_ex_def proto_rule_ex_def)
qed

lemma Policy_DeepCopy_drops_annotations:
  "Policy_DeepCopy p = p\<lparr>InboundRules := map (Annotations_update (\<lambda>_. [])) (InboundRules p),
     OutboundRules := map (Annotations_update (\<lambda>_. [])) (OutboundRules p)\<rparr>"
  by (simp add: Policy_DeepCopy_def NPolicy_DeepCopy_def copy_slice_def Rule_DeepCopy_def NRule_DeepCopy_def comp_def)

text \<open>The second rule names a set that was deleted: the creation fails, and the first rule stays in VPP.\<close>

lemma Policy_Create_leaks:
  "case Policy_Create vpp_fresh [(''s'', NewIPSet\<lparr>IPS_VppID := InvalidID\<rparr>)]
      (new_FPolicy\<lparr>InboundRules := [(rule_ex ActionAllow)\<lparr>DstIPSetNames := []\<rparr>, rule_ex ActionDeny]\<rparr>, []) of
     (st, (p', h')) \<Rightarrow> st = Fail (EIpsetNotCreated ''s'') \<and> vpp_rule h' 0 \<noteq> None"
  by (simp add: policy_run policy_examples Let_def)

end
