(* ===== verification/FelixEndpoints.thy ===== *)
theory FelixEndpoints
  imports FelixPolicy
begin

text \<open>
  \<open>felix/workload_endpoint.go\<close>, \<open>felix/host_endpoint.go\<close> and \<open>felix/policy_state.go\<close>: the
  endpoints, that is the pods and the interfaces of the host, and the policies configured on their
  interfaces. An endpoint lists policies by name, tier by tier; the configuration of its interfaces
  is their VPP identifiers, with the policies the agent adds itself in front.
\<close>

section \<open>State\<close>

record TierInfo =
  TI_Name :: string
  TI_IngressPolicies :: "proto_PolicyID list"
  TI_EgressPolicies :: "proto_PolicyID list"

record WorkloadEndpointID =
  OrchestratorID :: string
  WorkloadID :: string
  EndpointID :: string
  WE_Network :: string

record WorkloadEndpoint =
  WEP_SwIfIndex :: "u32 list"
  WEP_Profiles :: "string list"
  WEP_Tiers :: "TierInfo list"

type_synonym HostEndpointID = string

record HostEndpoint =
  UplinkSwIfIndexes :: "u32 list"
  TapSwIfIndexes :: "u32 list"
  TunnelSwIfIndexes :: "u32 list"
  HEP_Profiles :: "string list"
  HEP_Tiers :: "TierInfo list"
  ForwardTiers :: "TierInfo list"
  InterfaceName :: string
  expectedIPs :: "string list"
  currentForwardConf :: "InterfaceConfig option"

record PolicyState =
  IPSets :: "(string, IPSet) gomap"
  Policies :: "(PolicyID, FPolicy) gomap"
  Profiles :: "(string, FPolicy) gomap"
  WorkloadEndpoints :: "(WorkloadEndpointID, WorkloadEndpoint) gomap"
  HostEndpoints :: "(HostEndpointID, HostEndpoint) gomap"

definition NewPolicyState :: PolicyState where
  "NewPolicyState = \<lparr>IPSets = [], Policies = [], Profiles = [], WorkloadEndpoints = [], HostEndpoints = []\<rparr>"

text \<open>The policies of the server that every endpoint uses; a nil pointer is \<open>None\<close>.\<close>

record ServerPolicies =
  failSafePolicy :: "FPolicy option"
  workloadsToHostPolicy :: "FPolicy option"
  AllowFromHostPolicy :: "FPolicy option"
  allowToHostPolicy :: "FPolicy option"
  defaultTap0IngressConf :: "u32 list"
  defaultTap0EgressConf :: "u32 list"

text \<open>A function that returns a value, returns an error, or panics.\<close>

datatype 'a outcome = Ret 'a | Err go_error | Crash

definition bind_outcome :: "'a outcome \<Rightarrow> ('a \<Rightarrow> 'b outcome) \<Rightarrow> 'b outcome" where
  "bind_outcome r f = (case r of Ret a \<Rightarrow> f a | Err e \<Rightarrow> Err e | Crash \<Rightarrow> Crash)"

text \<open>\<open>p.VppID\<close> through a pointer that may be nil.\<close>

definition deref_id :: "FPolicy option \<Rightarrow> u32 outcome" where
  "deref_id p = (case p of None \<Rightarrow> Crash | Some q \<Rightarrow> Ret (FP_VppID q))"

text \<open>A method that first computes a configuration and returns on its error.\<close>

definition with_conf :: "'c outcome \<Rightarrow> ('c \<Rightarrow> ('s, go_error) cmd) \<Rightarrow> ('s, go_error) cmd" where
  "with_conf r k = (case r of Ret c \<Rightarrow> k c | Err e \<Rightarrow> fail e | Crash \<Rightarrow> panic)"

definition configure_all :: "vpp \<Rightarrow> InterfaceConfig \<Rightarrow> u8 \<Rightarrow> u32 list \<Rightarrow> (vhist, go_error) cmd" where
  "configure_all vpp conf invertRxTx = foreach (\<lambda>sw. ConfigurePolicies vpp sw conf invertRxTx)"

section \<open>Policies by name\<close>

fun policy_ids :: "(PolicyID, FPolicy) gomap \<Rightarrow> string \<Rightarrow> proto_PolicyID list \<Rightarrow> go_error + u32 list" where
  "policy_ids pols network [] = Inr []"
| "policy_ids pols network (pid # pids) =
     (case mget pols (fromProtoPolicyID pid network) of
        None \<Rightarrow> Inl EPolicyNotFound
      | Some pol \<Rightarrow>
          if FP_VppID pol = InvalidID then Inl EPolicyNotCreated
          else case policy_ids pols network pids of Inl e \<Rightarrow> Inl e | Inr ids \<Rightarrow> Inr (FP_VppID pol # ids))"

fun tiers_loop :: "(PolicyID, FPolicy) gomap \<Rightarrow> string \<Rightarrow> InterfaceConfig \<Rightarrow> TierInfo list \<Rightarrow> go_error + InterfaceConfig" where
  "tiers_loop pols network conf [] = Inr conf"
| "tiers_loop pols network conf (tier # tiers) =
     (case policy_ids pols network (TI_IngressPolicies tier) of
        Inl e \<Rightarrow> Inl e
      | Inr ingress \<Rightarrow>
          (case policy_ids pols network (TI_EgressPolicies tier) of
             Inl e \<Rightarrow> Inl e
           | Inr egress \<Rightarrow>
               tiers_loop pols network
                 (conf\<lparr>IngressPolicyIDs := IngressPolicyIDs conf @ ingress,
                       EgressPolicyIDs := EgressPolicyIDs conf @ egress\<rparr>) tiers))"

fun profile_ids :: "(string, FPolicy) gomap \<Rightarrow> string list \<Rightarrow> go_error + u32 list" where
  "profile_ids profs [] = Inr []"
| "profile_ids profs (name # names) =
     (case mget profs name of
        None \<Rightarrow> Inl EProfileNotFound
      | Some prof \<Rightarrow>
          if FP_VppID prof = InvalidID then Inl EProfileNotCreated
          else case profile_ids profs names of Inl e \<Rightarrow> Inl e | Inr ids \<Rightarrow> Inr (FP_VppID prof # ids))"

text \<open>The common body of the two \<open>getUserDefinedPolicies\<close> methods.\<close>

definition userDefinedPolicies :: "PolicyState \<Rightarrow> TierInfo list \<Rightarrow> string list \<Rightarrow> string \<Rightarrow> InterfaceConfig outcome" where
  "userDefinedPolicies state tiers profiles network =
     (case tiers_loop (Policies state) network NewInterfaceConfig tiers of
        Inl e \<Rightarrow> Err e
      | Inr conf \<Rightarrow>
          (case profile_ids (Profiles state) profiles of
             Inl e \<Rightarrow> Err e
           | Inr ids \<Rightarrow> Ret (conf\<lparr>ProfileIDs := ids\<rparr>)))"

section \<open>Workload endpoints\<close>

record proto_WorkloadEndpointID =
  PWI_OrchestratorId :: string
  PWI_WorkloadId :: string
  PWI_EndpointId :: string

record proto_WorkloadEndpoint =
  PWE_ProfileIds :: "string list"
  PWE_Tiers :: "TierInfo list"
  PWE_Annotations :: "(string, string) gomap"

definition fromProtoEndpointID :: "proto_WorkloadEndpointID \<Rightarrow> WorkloadEndpointID" where
  "fromProtoEndpointID ep = \<lparr>OrchestratorID = PWI_OrchestratorId ep, WorkloadID = PWI_WorkloadId ep,
     EndpointID = PWI_EndpointId ep, WE_Network = []\<rparr>"

definition fromProtoWorkload :: "proto_WorkloadEndpoint \<Rightarrow> WorkloadEndpoint" where
  "fromProtoWorkload wep = \<lparr>WEP_SwIfIndex = [], WEP_Profiles = PWE_ProfileIds wep, WEP_Tiers = PWE_Tiers wep\<rparr>"

definition wep_getUserDefinedPolicies :: "WorkloadEndpoint \<Rightarrow> PolicyState \<Rightarrow> string \<Rightarrow> InterfaceConfig outcome" where
  "wep_getUserDefinedPolicies w state network =
     userDefinedPolicies state (WEP_Tiers w) (WEP_Profiles w) network"

definition getWorkloadPolicies :: "ServerPolicies \<Rightarrow> WorkloadEndpoint \<Rightarrow> PolicyState \<Rightarrow> string \<Rightarrow> InterfaceConfig outcome" where
  "getWorkloadPolicies srv w state network =
     bind_outcome (wep_getUserDefinedPolicies w state network) (\<lambda>conf.
     bind_outcome
       (if length (IngressPolicyIDs conf) > 0
        then bind_outcome (deref_id (AllowFromHostPolicy srv)) (\<lambda>i.
               Ret (conf\<lparr>IngressPolicyIDs := i # IngressPolicyIDs conf, PolicyDefaultIngress := NPOL_DEFAULT_DENY\<rparr>))
        else if length (ProfileIDs conf) > 0 then Ret (conf\<lparr>PolicyDefaultIngress := NPOL_DEFAULT_PASS\<rparr>)
        else Ret conf) (\<lambda>conf.
     if length (EgressPolicyIDs conf) > 0 then Ret (conf\<lparr>PolicyDefaultEgress := NPOL_DEFAULT_DENY\<rparr>)
     else if length (ProfileIDs conf) > 0 then Ret (conf\<lparr>PolicyDefaultEgress := NPOL_DEFAULT_PASS\<rparr>)
     else Ret conf))"

definition WorkloadEndpoint_Create ::
  "vpp \<Rightarrow> ServerPolicies \<Rightarrow> u32 list \<Rightarrow> PolicyState \<Rightarrow> string \<Rightarrow> (WorkloadEndpoint \<times> vhist, go_error) cmd" where
  "WorkloadEndpoint_Create vpp srv swIfIndexes state network s =
     with_conf (getWorkloadPolicies srv (fst s) state network) (\<lambda>conf.
       andthen (on_vpp (configure_all vpp conf 0 swIfIndexes))
               (on_obj (WEP_SwIfIndex_update (\<lambda>l. l @ swIfIndexes)))) s"

definition WorkloadEndpoint_Update ::
  "vpp \<Rightarrow> ServerPolicies \<Rightarrow> WorkloadEndpoint \<Rightarrow> PolicyState \<Rightarrow> string \<Rightarrow> (WorkloadEndpoint \<times> vhist, go_error) cmd" where
  "WorkloadEndpoint_Update vpp srv new state network s =
     with_conf (getWorkloadPolicies srv new state network) (\<lambda>conf.
       andthen (on_vpp (configure_all vpp conf 0 (WEP_SwIfIndex (fst s))))
               (on_obj (\<lambda>w. w\<lparr>WEP_Profiles := WEP_Profiles new, WEP_Tiers := WEP_Tiers new\<rparr>))) s"

definition WorkloadEndpoint_Delete :: "(WorkloadEndpoint \<times> vhist, go_error) cmd" where
  "WorkloadEndpoint_Delete s =
     (if length (WEP_SwIfIndex (fst s)) = 0 then fail EUnconfiguredWep s
      else on_obj (WEP_SwIfIndex_update (\<lambda>_. [])) s)"

section \<open>Host endpoints\<close>

record proto_HostEndpoint =
  PHE_Name :: string
  PHE_ProfileIds :: "string list"
  PHE_Tiers :: "TierInfo list"
  PHE_ForwardTiers :: "TierInfo list"
  PHE_ExpectedIpv4Addrs :: "string list"
  PHE_ExpectedIpv6Addrs :: "string list"

definition fromProtoHostEndpoint :: "proto_HostEndpoint \<Rightarrow> HostEndpoint" where
  "fromProtoHostEndpoint hep = \<lparr>UplinkSwIfIndexes = [], TapSwIfIndexes = [], TunnelSwIfIndexes = [],
     HEP_Profiles = PHE_ProfileIds hep, HEP_Tiers = PHE_Tiers hep, ForwardTiers = PHE_ForwardTiers hep,
     InterfaceName = PHE_Name hep, expectedIPs = PHE_ExpectedIpv4Addrs hep @ PHE_ExpectedIpv6Addrs hep,
     currentForwardConf = None\<rparr>"

text \<open>
  The deletion loop of \<open>handleTunnelChange\<close>. It ranges over the slice as it was when the loop began,
  while \<open>append(s[:index], s[index+1:]...)\<close> moves the tail of the current slice to the left in the
  same array. \<open>arr\<close> is that array, the current slice its first \<open>m\<close> elements; slicing from
  \<open>index+1\<close> panics when it lies beyond the current slice.
\<close>

function tunnel_del_loop :: "u32 \<Rightarrow> nat \<Rightarrow> nat \<Rightarrow> u32 list \<Rightarrow> u32 list option" where
  "tunnel_del_loop x index m arr =
     (if index \<ge> length arr then Some (take m arr)
      else if arr ! index = x then
        (if index + 1 > m then None
         else tunnel_del_loop x (Suc index) (m - 1)
                (take index arr @ drop (Suc index) (take m arr) @ drop (m - 1) arr))
      else tunnel_del_loop x (Suc index) m arr)"
  by pat_completeness auto
termination
  by (relation "measure (\<lambda>(x, index, m, arr). length arr - index)") auto

declare tunnel_del_loop.simps [simp del]

definition handleTunnelChange :: "vpp \<Rightarrow> u32 \<Rightarrow> bool \<Rightarrow> bool \<Rightarrow> (HostEndpoint \<times> vhist, go_error) cmd" where
  "handleTunnelChange vpp swIfIndex isAdd pending s =
     (let tunnels = TunnelSwIfIndexes (fst s) in
      if isAdd then
        (if swIfIndex \<in> set tunnels then skip s
         else andthen (on_obj (TunnelSwIfIndexes_update (\<lambda>l. l @ [swIfIndex])))
                (whenC (\<not> pending)
                   (\<lambda>s. case currentForwardConf (fst s) of
                          None \<Rightarrow> panic s
                        | Some conf \<Rightarrow> on_vpp (ConfigurePolicies vpp swIfIndex conf 1) s)) s)
      else case tunnel_del_loop swIfIndex 0 (length tunnels) tunnels of
             None \<Rightarrow> panic s
           | Some l \<Rightarrow> on_obj (TunnelSwIfIndexes_update (\<lambda>_. l)) s)"

definition hep_getUserDefinedPolicies :: "HostEndpoint \<Rightarrow> PolicyState \<Rightarrow> TierInfo list \<Rightarrow> InterfaceConfig outcome" where
  "hep_getUserDefinedPolicies h state tiers = userDefinedPolicies state tiers (HEP_Profiles h) []"

definition tap_ingress :: "u32 \<Rightarrow> u32 \<Rightarrow> InterfaceConfig \<Rightarrow> InterfaceConfig" where
  "tap_ingress workloadsToHost failSafe conf =
     (if length (IngressPolicyIDs conf) = 0 \<and> length (ProfileIDs conf) = 0
      then conf\<lparr>IngressPolicyIDs := [workloadsToHost, failSafe], PolicyDefaultIngress := NPOL_DEFAULT_DENY\<rparr>
      else let conf' = (if length (IngressPolicyIDs conf) > 0 then conf\<lparr>PolicyDefaultIngress := NPOL_DEFAULT_DENY\<rparr>
                        else if length (ProfileIDs conf) > 0 then conf\<lparr>PolicyDefaultIngress := NPOL_DEFAULT_PASS\<rparr>
                        else conf)
           in conf'\<lparr>IngressPolicyIDs := workloadsToHost # failSafe # IngressPolicyIDs conf'\<rparr>)"

definition tap_egress :: "u32 \<Rightarrow> u32 \<Rightarrow> InterfaceConfig \<Rightarrow> InterfaceConfig" where
  "tap_egress allowFromHost failSafe conf =
     (if length (EgressPolicyIDs conf) = 0 \<and> length (ProfileIDs conf) = 0
      then conf\<lparr>EgressPolicyIDs := [allowFromHost, failSafe], PolicyDefaultEgress := NPOL_DEFAULT_DENY\<rparr>
      else let conf' = (if length (EgressPolicyIDs conf) > 0 then conf\<lparr>PolicyDefaultEgress := NPOL_DEFAULT_DENY\<rparr>
                        else if length (ProfileIDs conf) > 0 then conf\<lparr>PolicyDefaultEgress := NPOL_DEFAULT_PASS\<rparr>
                        else conf)
           in conf'\<lparr>EgressPolicyIDs := allowFromHost # failSafe # EgressPolicyIDs conf'\<rparr>)"

definition getTapPolicies :: "ServerPolicies \<Rightarrow> HostEndpoint \<Rightarrow> PolicyState \<Rightarrow> InterfaceConfig outcome" where
  "getTapPolicies srv h state =
     bind_outcome (hep_getUserDefinedPolicies h state (HEP_Tiers h)) (\<lambda>conf.
     bind_outcome (deref_id (workloadsToHostPolicy srv)) (\<lambda>w.
     bind_outcome (deref_id (failSafePolicy srv)) (\<lambda>f.
     bind_outcome (deref_id (AllowFromHostPolicy srv)) (\<lambda>a.
     Ret (tap_egress a f (tap_ingress w f conf))))))"

definition getForwardPolicies :: "ServerPolicies \<Rightarrow> HostEndpoint \<Rightarrow> PolicyState \<Rightarrow> InterfaceConfig outcome" where
  "getForwardPolicies srv h state =
     bind_outcome (hep_getUserDefinedPolicies h state (ForwardTiers h)) (\<lambda>conf.
     bind_outcome
       (if length (EgressPolicyIDs conf) > 0
        then bind_outcome (deref_id (allowToHostPolicy srv)) (\<lambda>i.
               Ret (conf\<lparr>EgressPolicyIDs := i # EgressPolicyIDs conf, PolicyDefaultEgress := NPOL_DEFAULT_DENY\<rparr>))
        else if length (ProfileIDs conf) > 0 then Ret (conf\<lparr>PolicyDefaultEgress := NPOL_DEFAULT_PASS\<rparr>)
        else Ret conf) (\<lambda>conf.
     if length (IngressPolicyIDs conf) > 0
     then bind_outcome (deref_id (allowToHostPolicy srv)) (\<lambda>i.
            Ret (conf\<lparr>IngressPolicyIDs := i # IngressPolicyIDs conf, PolicyDefaultIngress := NPOL_DEFAULT_DENY\<rparr>))
     else if length (ProfileIDs conf) > 0 then Ret (conf\<lparr>PolicyDefaultIngress := NPOL_DEFAULT_PASS\<rparr>)
     else Ret conf))"

text \<open>\<open>Create\<close> and \<open>Update\<close> differ in where the configuration comes from: the receiver itself, or the
  new endpoint; the interfaces are those of the receiver.\<close>

definition hep_configure :: "vpp \<Rightarrow> ServerPolicies \<Rightarrow> HostEndpoint \<Rightarrow> PolicyState \<Rightarrow> (HostEndpoint \<times> vhist, go_error) cmd" where
  "hep_configure vpp srv src state =
     with_conf (getForwardPolicies srv src state) (\<lambda>forwardConf.
       andthen (\<lambda>s. on_vpp (configure_all vpp forwardConf 1 (UplinkSwIfIndexes (fst s) @ TunnelSwIfIndexes (fst s))) s)
       (andthen (on_obj (currentForwardConf_update (\<lambda>_. Some forwardConf)))
       (with_conf (getTapPolicies srv src state) (\<lambda>tapConf.
          \<lambda>s. on_vpp (configure_all vpp tapConf 0 (TapSwIfIndexes (fst s))) s))))"

definition HostEndpoint_Create :: "vpp \<Rightarrow> ServerPolicies \<Rightarrow> PolicyState \<Rightarrow> (HostEndpoint \<times> vhist, go_error) cmd" where
  "HostEndpoint_Create vpp srv state s = hep_configure vpp srv (fst s) state s"

definition HostEndpoint_Update ::
  "vpp \<Rightarrow> ServerPolicies \<Rightarrow> HostEndpoint \<Rightarrow> PolicyState \<Rightarrow> (HostEndpoint \<times> vhist, go_error) cmd" where
  "HostEndpoint_Update vpp srv new state =
     andthen (hep_configure vpp srv new state)
       (on_obj (\<lambda>h. h\<lparr>HEP_Profiles := HEP_Profiles new, HEP_Tiers := HEP_Tiers new, ForwardTiers := ForwardTiers new\<rparr>))"

definition HostEndpoint_Delete :: "vpp \<Rightarrow> ServerPolicies \<Rightarrow> (HostEndpoint \<times> vhist, go_error) cmd" where
  "HostEndpoint_Delete vpp srv s =
     andthen (on_vpp (configure_all vpp NewInterfaceConfig 0 (UplinkSwIfIndexes (fst s) @ TunnelSwIfIndexes (fst s))))
     (andthen (on_vpp (configure_all vpp
                 (NewInterfaceConfig\<lparr>IngressPolicyIDs := defaultTap0IngressConf srv,
                                     EgressPolicyIDs := defaultTap0EgressConf srv\<rparr>) 0 (TapSwIfIndexes (fst s))))
              (on_obj (\<lambda>h. h\<lparr>UplinkSwIfIndexes := [], TapSwIfIndexes := [], TunnelSwIfIndexes := []\<rparr>))) s"

section \<open>What VPP applies on an interface\<close>

text \<open>The last acknowledged configuration of an interface.\<close>

fun vpp_conf :: "vhist \<Rightarrow> u32 \<Rightarrow> NpolConfigurePoliciesMsg option" where
  "vpp_conf [] sw = None"
| "vpp_conf ((NpolConfigurePolicies m, VppReply _) # h) sw = (if CP_SwIfIndex m = sw then Some m else vpp_conf h sw)"
| "vpp_conf (_ # h) sw = vpp_conf h sw"

lemma CP_SwIfIndex_configure_msg [simp]: "CP_SwIfIndex (configure_msg sw c i) = sw"
  by (simp add: configure_msg_def Let_def)

lemma ConfigurePolicies_result:
  assumes "ConfigurePolicies vpp sw conf rxtx h = (st, h')"
  shows "vpp_conf h' = (if st = Done then (vpp_conf h)(sw \<mapsto> configure_msg sw conf rxtx) else vpp_conf h) \<and>
    (st = Done \<or> st = Fail EVpp)"
  using assms
  by (auto simp: ConfigurePolicies_def vpp_exec_def call_def Let_def fun_eq_iff split: vpp_reply.splits)

lemma configure_all_result:
  assumes "configure_all vpp conf rxtx sws h = (st, h')"
  shows "(st = Done \<or> st = Fail EVpp) \<and>
    (st = Done \<longrightarrow> (\<forall>sw \<in> set sws. vpp_conf h' sw = Some (configure_msg sw conf rxtx))) \<and>
    (\<forall>sw. sw \<notin> set sws \<longrightarrow> vpp_conf h' sw = vpp_conf h sw)"
  using assms unfolding configure_all_def
proof (induction sws arbitrary: h)
  case Nil
  then show ?case by simp
next
  case (Cons sw sws)
  obtain st1 h1 where c: "ConfigurePolicies vpp sw conf rxtx h = (st1, h1)"
    by (cases "ConfigurePolicies vpp sw conf rxtx h")
  note r = ConfigurePolicies_result [OF c]
  show ?case
  proof (cases "st1 = Done")
    case True
    with Cons.prems c have "foreach (\<lambda>sw. ConfigurePolicies vpp sw conf rxtx) sws h1 = (st, h')" by simp
    note IH = Cons.IH [OF this]
    show ?thesis using IH r True by (cases "sw \<in> set sws") auto
  next
    case False
    with r c Cons.prems show ?thesis by auto
  qed
qed

section \<open>Removing a tunnel\<close>

lemma tunnel_del_loop_absent:
  "x \<notin> set (drop index arr) \<Longrightarrow> tunnel_del_loop x index m arr = Some (take m arr)"
proof (induction "length arr - index" arbitrary: index)
  case 0
  then show ?case by (simp add: tunnel_del_loop.simps)
next
  case (Suc n)
  then have i: "index < length arr" by simp
  then have "drop index arr = arr ! index # drop (Suc index) arr" by (simp add: Cons_nth_drop_Suc)
  with Suc.prems have "arr ! index \<noteq> x" "x \<notin> set (drop (Suc index) arr)" by auto
  with Suc.hyps(1) [of "Suc index"] Suc.hyps(2) i show ?case
    by (simp add: tunnel_del_loop.simps [of x index])
qed

lemma tunnel_del_loop_found:
  assumes "x \<notin> set pre" "x \<notin> set post" "index \<le> length pre"
  shows "tunnel_del_loop x index (length (pre @ x # post)) (pre @ x # post) = Some (pre @ post)"
  using assms(3)
proof (induction "length pre - index" arbitrary: index)
  case 0
  then have i: "index = length pre" by simp
  have "drop (length post) (x # post) = [last (x # post)]"
    by (cases post rule: rev_cases) auto
  moreover have "x \<notin> set (drop (Suc 0) (post @ [last (x # post)]))"
    using assms(2) by (cases post) auto
  ultimately show ?case
    using i tunnel_del_loop_absent [of x "Suc (length pre)" "pre @ post @ [last (x # post)]"]
    by (simp add: tunnel_del_loop.simps [of x "length pre"])
next
  case (Suc n)
  then have i: "index < length pre" by simp
  then have "(pre @ x # post) ! index \<noteq> x"
    using assms(1) by (auto simp: nth_append)
  with Suc.hyps(1) [of "Suc index"] Suc.hyps(2) i show ?case
    by (simp add: tunnel_del_loop.simps [of x index])
qed

lemma tunnel_del_loop_remove1:
  assumes "distinct l"
  shows "tunnel_del_loop x 0 (length l) l = Some (remove1 x l)"
proof (cases "x \<in> set l")
  case True
  then obtain pre post where l: "l = pre @ x # post" "x \<notin> set pre" by (meson split_list_first)
  with assms have "x \<notin> set post" by simp
  with l tunnel_del_loop_found [of x pre post 0] show ?thesis by (simp add: remove1_append)
next
  case False
  then show ?thesis by (simp add: tunnel_del_loop_absent remove1_idem)
qed

section \<open>The configuration of an endpoint\<close>

lemma bind_outcome_Ret: "bind_outcome r f = Ret b \<longleftrightarrow> (\<exists>a. r = Ret a \<and> f a = Ret b)"
  by (cases r) (auto simp: bind_outcome_def)

lemma deref_id_Ret: "deref_id p = Ret i \<longleftrightarrow> (\<exists>q. p = Some q \<and> FP_VppID q = i)"
  by (cases p) (auto simp: deref_id_def)

definition policy_id :: "(PolicyID, FPolicy) gomap \<Rightarrow> string \<Rightarrow> proto_PolicyID \<Rightarrow> u32" where
  "policy_id pols network pid =
     (case mget pols (fromProtoPolicyID pid network) of None \<Rightarrow> InvalidID | Some pol \<Rightarrow> FP_VppID pol)"

definition profile_id :: "(string, FPolicy) gomap \<Rightarrow> string \<Rightarrow> u32" where
  "profile_id profs name = (case mget profs name of None \<Rightarrow> InvalidID | Some prof \<Rightarrow> FP_VppID prof)"

lemma policy_ids_Inr:
  "policy_ids pols network pids = Inr ids \<longleftrightarrow>
   ids = map (policy_id pols network) pids \<and> InvalidID \<notin> policy_id pols network ` set pids"
  by (induction pids arbitrary: ids) (auto simp: policy_id_def split: option.splits sum.splits)

lemma profile_ids_Inr:
  "profile_ids profs names = Inr ids \<longleftrightarrow>
   ids = map (profile_id profs) names \<and> InvalidID \<notin> profile_id profs ` set names"
  by (induction names arbitrary: ids) (auto simp: profile_id_def split: option.splits sum.splits)

text \<open>The policies of a list of tiers, all tiers in a row.\<close>

definition tier_ids :: "(TierInfo \<Rightarrow> proto_PolicyID list) \<Rightarrow> PolicyState \<Rightarrow> string \<Rightarrow> TierInfo list \<Rightarrow> u32 list" where
  "tier_ids sel state network tiers = map (policy_id (Policies state) network) (concat (map sel tiers))"

lemma tiers_loop_Inr:
  assumes "tiers_loop (Policies state) network conf tiers = Inr c"
  shows "c = conf\<lparr>IngressPolicyIDs := IngressPolicyIDs conf @ tier_ids TI_IngressPolicies state network tiers,
            EgressPolicyIDs := EgressPolicyIDs conf @ tier_ids TI_EgressPolicies state network tiers\<rparr> \<and>
   InvalidID \<notin> set (tier_ids TI_IngressPolicies state network tiers) \<union> set (tier_ids TI_EgressPolicies state network tiers)"
  using assms
proof (induction tiers arbitrary: conf)
  case Nil
  then show ?case by (simp add: tier_ids_def)
next
  case (Cons t ts)
  then show ?case
    by (simp add: tier_ids_def split: sum.splits) (fastforce simp: policy_ids_Inr)
qed

lemma tiers_loop_ok:
  assumes "InvalidID \<notin> set (tier_ids TI_IngressPolicies state network tiers) \<union> set (tier_ids TI_EgressPolicies state network tiers)"
  shows "\<exists>c. tiers_loop (Policies state) network conf tiers = Inr c"
  using assms
proof (induction tiers arbitrary: conf)
  case Nil
  then show ?case by simp
next
  case (Cons t ts)
  then have "policy_ids (Policies state) network (TI_IngressPolicies t) = Inr (map (policy_id (Policies state) network) (TI_IngressPolicies t))"
    "policy_ids (Policies state) network (TI_EgressPolicies t) = Inr (map (policy_id (Policies state) network) (TI_EgressPolicies t))"
    by (auto simp: policy_ids_Inr tier_ids_def)
  with Cons show ?case by (simp add: tier_ids_def)
qed

text \<open>The configuration by the user's policies: all the ingress policies of the tiers in order, all
  the egress policies, all the profiles, and an error exactly when one of them is missing.\<close>

definition user_conf :: "PolicyState \<Rightarrow> TierInfo list \<Rightarrow> string list \<Rightarrow> string \<Rightarrow> InterfaceConfig" where
  "user_conf state tiers profiles network =
     NewInterfaceConfig\<lparr>IngressPolicyIDs := tier_ids TI_IngressPolicies state network tiers,
       EgressPolicyIDs := tier_ids TI_EgressPolicies state network tiers,
       ProfileIDs := map (profile_id (Profiles state)) profiles\<rparr>"

definition conf_ids :: "InterfaceConfig \<Rightarrow> u32 set" where
  "conf_ids c = set (IngressPolicyIDs c) \<union> set (EgressPolicyIDs c) \<union> set (ProfileIDs c)"

lemma userDefinedPolicies_cases:
  "if InvalidID \<in> conf_ids (user_conf state tiers profiles network)
   then \<exists>e. userDefinedPolicies state tiers profiles network = Err e
   else userDefinedPolicies state tiers profiles network = Ret (user_conf state tiers profiles network)"
proof (cases "tiers_loop (Policies state) network NewInterfaceConfig tiers")
  case (Inl e)
  with tiers_loop_ok [of state network tiers NewInterfaceConfig]
  have "InvalidID \<in> conf_ids (user_conf state tiers profiles network)"
    by (auto simp: conf_ids_def user_conf_def)
  with Inl show ?thesis by (simp add: userDefinedPolicies_def)
next
  case (Inr c)
  note t = tiers_loop_Inr [OF Inr]
  show ?thesis
  proof (cases "profile_ids (Profiles state) profiles")
    case (Inl e)
    then have "InvalidID \<in> profile_id (Profiles state) ` set profiles"
      using profile_ids_Inr [of "Profiles state" profiles "map (profile_id (Profiles state)) profiles"] by auto
    with Inl Inr show ?thesis by (simp add: userDefinedPolicies_def conf_ids_def user_conf_def)
  next
    case (Inr ids)
    note q = Inr [unfolded profile_ids_Inr]
    from t q Inr \<open>tiers_loop _ _ _ _ = _\<close> show ?thesis
      by (auto simp: userDefinedPolicies_def conf_ids_def user_conf_def NewInterfaceConfig_def)
  qed
qed

lemma getWorkloadPolicies_Ret:
  assumes "getWorkloadPolicies srv w state network = Ret c"
  shows "let u = user_conf state (WEP_Tiers w) (WEP_Profiles w) network in
    InvalidID \<notin> conf_ids u \<and>
    EgressPolicyIDs c = EgressPolicyIDs u \<and> ProfileIDs c = ProfileIDs u \<and>
    (case AllowFromHostPolicy srv of
       Some a \<Rightarrow> IngressPolicyIDs c = (if IngressPolicyIDs u = [] then [] else FP_VppID a # IngressPolicyIDs u)
     | None \<Rightarrow> IngressPolicyIDs c = [] \<and> IngressPolicyIDs u = []) \<and>
    PolicyDefaultIngress c = (if IngressPolicyIDs u \<noteq> [] then NPOL_DEFAULT_DENY
      else if ProfileIDs u \<noteq> [] then NPOL_DEFAULT_PASS else NPOL_DEFAULT_ALLOW) \<and>
    PolicyDefaultEgress c = (if EgressPolicyIDs u \<noteq> [] then NPOL_DEFAULT_DENY
      else if ProfileIDs u \<noteq> [] then NPOL_DEFAULT_PASS else NPOL_DEFAULT_ALLOW) \<and>
    ProfileDefaultIngress c = NPOL_DEFAULT_DENY \<and> ProfileDefaultEgress c = NPOL_DEFAULT_DENY"
proof -
  let ?u = "user_conf state (WEP_Tiers w) (WEP_Profiles w) network"
  have u: "InvalidID \<notin> conf_ids ?u" "wep_getUserDefinedPolicies w state network = Ret ?u"
    using assms userDefinedPolicies_cases [of state "WEP_Tiers w" "WEP_Profiles w" network]
    by (auto simp: getWorkloadPolicies_def wep_getUserDefinedPolicies_def bind_outcome_def split: if_splits)
  have d: "PolicyDefaultIngress ?u = NPOL_DEFAULT_ALLOW" "PolicyDefaultEgress ?u = NPOL_DEFAULT_ALLOW"
    "ProfileDefaultIngress ?u = NPOL_DEFAULT_DENY" "ProfileDefaultEgress ?u = NPOL_DEFAULT_DENY"
    by (simp_all add: user_conf_def NewInterfaceConfig_def)
  from assms u(2) d show ?thesis
    unfolding Let_def getWorkloadPolicies_def
    by (cases "AllowFromHostPolicy srv")
      (auto simp: u(1) bind_outcome_def deref_id_def split: if_splits)
qed

lemma tap_conf_policies:
  assumes "c = tap_egress a f (tap_ingress w f u)" "PolicyDefaultIngress u = NPOL_DEFAULT_ALLOW"
  shows "IngressPolicyIDs c = w # f # IngressPolicyIDs u \<and> EgressPolicyIDs c = a # f # EgressPolicyIDs u \<and>
    ProfileIDs c = ProfileIDs u \<and>
    PolicyDefaultIngress c = (if IngressPolicyIDs u \<noteq> [] \<or> ProfileIDs u = [] then NPOL_DEFAULT_DENY else NPOL_DEFAULT_PASS) \<and>
    PolicyDefaultEgress c = (if EgressPolicyIDs u \<noteq> [] \<or> ProfileIDs u = [] then NPOL_DEFAULT_DENY else NPOL_DEFAULT_PASS) \<and>
    ProfileDefaultIngress c = ProfileDefaultIngress u \<and> ProfileDefaultEgress c = ProfileDefaultEgress u"
  using assms by (auto simp: tap_egress_def tap_ingress_def Let_def)

lemma hep_user_conf:
  "hep_getUserDefinedPolicies h state tiers = Ret u \<longleftrightarrow>
   u = user_conf state tiers (HEP_Profiles h) [] \<and> InvalidID \<notin> conf_ids u"
  using userDefinedPolicies_cases [of state tiers "HEP_Profiles h" "[]"]
  by (auto simp: hep_getUserDefinedPolicies_def split: if_splits)

lemma user_conf_defaults [simp]:
  "PolicyDefaultIngress (user_conf state tiers profiles network) = NPOL_DEFAULT_ALLOW"
  "PolicyDefaultEgress (user_conf state tiers profiles network) = NPOL_DEFAULT_ALLOW"
  "ProfileDefaultIngress (user_conf state tiers profiles network) = NPOL_DEFAULT_DENY"
  "ProfileDefaultEgress (user_conf state tiers profiles network) = NPOL_DEFAULT_DENY"
  by (simp_all add: user_conf_def NewInterfaceConfig_def)

lemma getTapPolicies_Ret:
  assumes "getTapPolicies srv h state = Ret c"
  obtains w f a where "workloadsToHostPolicy srv = Some w" "failSafePolicy srv = Some f" "AllowFromHostPolicy srv = Some a"
    "c = tap_egress (FP_VppID a) (FP_VppID f) (tap_ingress (FP_VppID w) (FP_VppID f) (user_conf state (HEP_Tiers h) (HEP_Profiles h) []))"
    "InvalidID \<notin> conf_ids (user_conf state (HEP_Tiers h) (HEP_Profiles h) [])"
  using assms by (auto simp: getTapPolicies_def bind_outcome_Ret deref_id_Ret hep_user_conf)

lemma getForwardPolicies_Ret:
  assumes "getForwardPolicies srv h state = Ret c" "u = user_conf state (ForwardTiers h) (HEP_Profiles h) []"
  shows "InvalidID \<notin> conf_ids u \<and> ProfileIDs c = ProfileIDs u \<and>
    (IngressPolicyIDs u = [] \<longrightarrow> IngressPolicyIDs c = []) \<and> (EgressPolicyIDs u = [] \<longrightarrow> EgressPolicyIDs c = []) \<and>
    (IngressPolicyIDs u \<noteq> [] \<longrightarrow> (\<exists>a. allowToHostPolicy srv = Some a \<and> IngressPolicyIDs c = FP_VppID a # IngressPolicyIDs u)) \<and>
    (EgressPolicyIDs u \<noteq> [] \<longrightarrow> (\<exists>a. allowToHostPolicy srv = Some a \<and> EgressPolicyIDs c = FP_VppID a # EgressPolicyIDs u)) \<and>
    PolicyDefaultIngress c = (if IngressPolicyIDs u \<noteq> [] then NPOL_DEFAULT_DENY
      else if ProfileIDs u \<noteq> [] then NPOL_DEFAULT_PASS else NPOL_DEFAULT_ALLOW) \<and>
    PolicyDefaultEgress c = (if EgressPolicyIDs u \<noteq> [] then NPOL_DEFAULT_DENY
      else if ProfileIDs u \<noteq> [] then NPOL_DEFAULT_PASS else NPOL_DEFAULT_ALLOW)"
proof -
  have u: "InvalidID \<notin> conf_ids u" "hep_getUserDefinedPolicies h state (ForwardTiers h) = Ret u"
    using assms by (auto simp: getForwardPolicies_def bind_outcome_Ret hep_user_conf)
  have d: "PolicyDefaultIngress u = NPOL_DEFAULT_ALLOW" "PolicyDefaultEgress u = NPOL_DEFAULT_ALLOW"
    by (simp_all add: assms(2))
  from assms(1) u d show ?thesis
    unfolding getForwardPolicies_def
    by (cases "allowToHostPolicy srv")
      (auto simp: bind_outcome_def deref_id_def split: if_splits)
qed

section \<open>Endpoints and VPP\<close>

lemma WorkloadEndpoint_Create_result:
  assumes "WorkloadEndpoint_Create vpp srv sws state network (w, h) = (st, (w', h'))"
  shows "(st = Done \<longrightarrow> (\<exists>c. getWorkloadPolicies srv w state network = Ret c \<and>
      w' = w\<lparr>WEP_SwIfIndex := WEP_SwIfIndex w @ sws\<rparr> \<and>
      (\<forall>sw \<in> set sws. vpp_conf h' sw = Some (configure_msg sw c 0)))) \<and>
    (st \<noteq> Done \<longrightarrow> w' = w) \<and> (\<forall>sw. sw \<notin> set sws \<longrightarrow> vpp_conf h' sw = vpp_conf h sw)"
proof (cases "getWorkloadPolicies srv w state network")
  case (Ret c)
  with assms have "andthen (on_vpp (configure_all vpp c 0 sws)) (on_obj (WEP_SwIfIndex_update (\<lambda>l. l @ sws))) (w, h) = (st, (w', h'))"
    by (simp add: WorkloadEndpoint_Create_def with_conf_def)
  then show ?thesis
    using Ret by (cases rule: andthen_cases) (auto simp: on_vpp_eq on_obj_eq dest!: configure_all_result)
qed (use assms in \<open>auto simp: WorkloadEndpoint_Create_def with_conf_def go_defs\<close>)

lemma WorkloadEndpoint_Update_result:
  assumes "WorkloadEndpoint_Update vpp srv new state network (w, h) = (st, (w', h'))"
  shows "(st = Done \<longrightarrow> (\<exists>c. getWorkloadPolicies srv new state network = Ret c \<and>
      w' = w\<lparr>WEP_Profiles := WEP_Profiles new, WEP_Tiers := WEP_Tiers new\<rparr> \<and>
      (\<forall>sw \<in> set (WEP_SwIfIndex w). vpp_conf h' sw = Some (configure_msg sw c 0)))) \<and>
    (st \<noteq> Done \<longrightarrow> w' = w) \<and> (\<forall>sw. sw \<notin> set (WEP_SwIfIndex w) \<longrightarrow> vpp_conf h' sw = vpp_conf h sw)"
proof (cases "getWorkloadPolicies srv new state network")
  case (Ret c)
  with assms have "andthen (on_vpp (configure_all vpp c 0 (WEP_SwIfIndex w)))
      (on_obj (\<lambda>w. w\<lparr>WEP_Profiles := WEP_Profiles new, WEP_Tiers := WEP_Tiers new\<rparr>)) (w, h) = (st, (w', h'))"
    by (simp add: WorkloadEndpoint_Update_def with_conf_def)
  then show ?thesis
    using Ret by (cases rule: andthen_cases) (auto simp: on_vpp_eq on_obj_eq dest!: configure_all_result)
qed (use assms in \<open>auto simp: WorkloadEndpoint_Update_def with_conf_def go_defs\<close>)

lemma hep_configure_result:
  assumes "hep_configure vpp srv src state (e, h) = (st, (e', h'))"
    "set (UplinkSwIfIndexes e @ TunnelSwIfIndexes e) \<inter> set (TapSwIfIndexes e) = {}"
  shows "(st = Done \<longrightarrow> (\<exists>fwd tap. getForwardPolicies srv src state = Ret fwd \<and> getTapPolicies srv src state = Ret tap \<and>
      e' = e\<lparr>currentForwardConf := Some fwd\<rparr> \<and>
      (\<forall>sw \<in> set (UplinkSwIfIndexes e @ TunnelSwIfIndexes e). vpp_conf h' sw = Some (configure_msg sw fwd 1)) \<and>
      (\<forall>sw \<in> set (TapSwIfIndexes e). vpp_conf h' sw = Some (configure_msg sw tap 0))))"
proof (cases "getForwardPolicies srv src state"; cases "getTapPolicies srv src state")
  fix fwd tap
  assume f: "getForwardPolicies srv src state = Ret fwd" and t: "getTapPolicies srv src state = Ret tap"
  show ?thesis
  proof
    assume "st = Done"
    with assms(1) f t obtain h1 where
      "configure_all vpp fwd 1 (UplinkSwIfIndexes e @ TunnelSwIfIndexes e) h = (Done, h1)"
      "configure_all vpp tap 0 (TapSwIfIndexes e) h1 = (Done, h')" "e' = e\<lparr>currentForwardConf := Some fwd\<rparr>"
      by (auto simp: hep_configure_def with_conf_def andthen_Done on_vpp_eq on_obj_eq)
    with configure_all_result [OF this(1)] configure_all_result [OF this(2)] assms(2) f t
    show "\<exists>fwd tap. getForwardPolicies srv src state = Ret fwd \<and> getTapPolicies srv src state = Ret tap \<and>
      e' = e\<lparr>currentForwardConf := Some fwd\<rparr> \<and>
      (\<forall>sw \<in> set (UplinkSwIfIndexes e @ TunnelSwIfIndexes e). vpp_conf h' sw = Some (configure_msg sw fwd 1)) \<and>
      (\<forall>sw \<in> set (TapSwIfIndexes e). vpp_conf h' sw = Some (configure_msg sw tap 0))"
      by (auto simp: disjoint_iff)
  qed
qed (use assms(1) in \<open>auto simp: hep_configure_def with_conf_def go_defs split: prod.splits status.splits\<close>)

lemma HostEndpoint_Delete_result:
  assumes "HostEndpoint_Delete vpp srv (e, h) = (Done, (e', h'))"
    "set (UplinkSwIfIndexes e @ TunnelSwIfIndexes e) \<inter> set (TapSwIfIndexes e) = {}"
  shows "(\<forall>sw \<in> set (UplinkSwIfIndexes e @ TunnelSwIfIndexes e). vpp_conf h' sw = Some (configure_msg sw NewInterfaceConfig 0)) \<and>
    (\<forall>sw \<in> set (TapSwIfIndexes e). vpp_conf h' sw = Some (configure_msg sw
       (NewInterfaceConfig\<lparr>IngressPolicyIDs := defaultTap0IngressConf srv, EgressPolicyIDs := defaultTap0EgressConf srv\<rparr>) 0)) \<and>
    UplinkSwIfIndexes e' = [] \<and> TapSwIfIndexes e' = [] \<and> TunnelSwIfIndexes e' = []"
proof -
  obtain h1 where "configure_all vpp NewInterfaceConfig 0 (UplinkSwIfIndexes e @ TunnelSwIfIndexes e) h = (Done, h1)"
    "configure_all vpp (NewInterfaceConfig\<lparr>IngressPolicyIDs := defaultTap0IngressConf srv,
       EgressPolicyIDs := defaultTap0EgressConf srv\<rparr>) 0 (TapSwIfIndexes e) h1 = (Done, h')"
    "e' = e\<lparr>UplinkSwIfIndexes := [], TapSwIfIndexes := [], TunnelSwIfIndexes := []\<rparr>"
    using assms(1) by (auto simp: HostEndpoint_Delete_def andthen_Done on_vpp_eq on_obj_eq)
  with configure_all_result [OF this(1)] configure_all_result [OF this(2)] assms(2) show ?thesis
    by (auto simp: disjoint_iff)
qed

section \<open>Properties\<close>

text \<open>C7: When creating a workload endpoint succeeds, every interface it was given has been configured with
  exactly the policies of the endpoint: the message decodes to the endpoint's egress policies, its
  ingress policies with the allow-from-host policy in front if there are any, and its profiles, all
  of them existing in VPP. A direction with a policy denies by default, one without passes to the
  profiles if there are any, and the profiles deny by default.\<close>

theorem WorkloadEndpoint_Create_applied:
  assumes "WorkloadEndpoint_Create vpp srv sws state network (w, h) = (Done, (w', h'))" "sw \<in> set sws"
    "u = user_conf state (WEP_Tiers w) (WEP_Profiles w) network" "AllowFromHostPolicy srv = Some a"
    "length (EgressPolicyIDs u) + length (IngressPolicyIDs u) + length (ProfileIDs u) + 1 < 2 ^ 32"
  shows "\<exists>m. vpp_conf h' sw = Some m \<and> InvalidID \<notin> conf_ids u \<and>
    decode_configure m = (EgressPolicyIDs u,
      if IngressPolicyIDs u = [] then [] else FP_VppID a # IngressPolicyIDs u, ProfileIDs u) \<and>
    CP_PolicyDefaultTx m = (if IngressPolicyIDs u \<noteq> [] then NPOL_DEFAULT_DENY
      else if ProfileIDs u \<noteq> [] then NPOL_DEFAULT_PASS else NPOL_DEFAULT_ALLOW) \<and>
    CP_PolicyDefaultRx m = (if EgressPolicyIDs u \<noteq> [] then NPOL_DEFAULT_DENY
      else if ProfileIDs u \<noteq> [] then NPOL_DEFAULT_PASS else NPOL_DEFAULT_ALLOW) \<and>
    CP_ProfileDefaultTx m = NPOL_DEFAULT_DENY \<and> CP_ProfileDefaultRx m = NPOL_DEFAULT_DENY"
proof -
  obtain c where c: "getWorkloadPolicies srv w state network = Ret c" "vpp_conf h' sw = Some (configure_msg sw c 0)"
    using WorkloadEndpoint_Create_result [OF assms(1)] assms(2) by auto
  note r = getWorkloadPolicies_Ret [OF c(1), folded assms(3), unfolded Let_def assms(4) option.case]
  have "length (EgressPolicyIDs c) + length (IngressPolicyIDs c) + length (ProfileIDs c) < 2 ^ 32"
    using r assms(5) by auto
  note d = decode_configure_roundtrip [OF this, of sw 0]
  with r show ?thesis unfolding c(2) by (simp add: configure_msg_def Let_def)
qed

text \<open>A state with one policy and one profile, and an endpoint that uses them.\<close>

definition srv_ex :: ServerPolicies where
  "srv_ex = \<lparr>failSafePolicy = Some (new_FPolicy\<lparr>FP_VppID := 11\<rparr>),
     workloadsToHostPolicy = Some (new_FPolicy\<lparr>FP_VppID := 12\<rparr>),
     AllowFromHostPolicy = Some (new_FPolicy\<lparr>FP_VppID := 13\<rparr>),
     allowToHostPolicy = Some (new_FPolicy\<lparr>FP_VppID := 14\<rparr>),
     defaultTap0IngressConf = [12], defaultTap0EgressConf = []\<rparr>"

definition pid_ex :: proto_PolicyID where
  "pid_ex = \<lparr>PID_Kind = ''k'', PID_Name = ''n'', PID_Namespace = ''ns''\<rparr>"

definition state_ex :: PolicyState where
  "state_ex = NewPolicyState\<lparr>Policies := [(fromProtoPolicyID pid_ex [], new_FPolicy\<lparr>FP_VppID := 1\<rparr>)],
     Profiles := [(''p'', new_FPolicy\<lparr>FP_VppID := 2\<rparr>)]\<rparr>"

definition tier_ex :: TierInfo where
  "tier_ex = \<lparr>TI_Name = ''t'', TI_IngressPolicies = [pid_ex], TI_EgressPolicies = []\<rparr>"

definition wep_ex :: WorkloadEndpoint where
  "wep_ex = \<lparr>WEP_SwIfIndex = [], WEP_Profiles = [''p''], WEP_Tiers = [tier_ex]\<rparr>"

definition hep_ex :: HostEndpoint where
  "hep_ex = \<lparr>UplinkSwIfIndexes = [1], TapSwIfIndexes = [2], TunnelSwIfIndexes = [3, 4], HEP_Profiles = [],
     HEP_Tiers = [tier_ex], ForwardTiers = [], InterfaceName = ''eth0'', expectedIPs = [],
     currentForwardConf = None\<rparr>"

lemmas endpoint_examples = srv_ex_def pid_ex_def state_ex_def tier_ex_def wep_ex_def hep_ex_def
  new_FPolicy_def NewPolicyState_def NewInterfaceConfig_def

lemmas endpoint_run = getWorkloadPolicies_def wep_getUserDefinedPolicies_def getTapPolicies_def getForwardPolicies_def
  hep_getUserDefinedPolicies_def userDefinedPolicies_def tap_ingress_def tap_egress_def bind_outcome_def
  deref_id_def with_conf_def configure_all_def ConfigurePolicies_def vpp_exec_def call_def go_defs
  fromProtoPolicyID_def InvalidID_def

theorem WorkloadEndpoint_Create_applied_witness:
  "\<exists>w' h' m. WorkloadEndpoint_Create vpp_acks srv_ex [7] state_ex [] (wep_ex, []) = (Done, (w', h')) \<and>
     vpp_conf h' 7 = Some m \<and> decode_configure m = ([], [13, 1], [2]) \<and> CP_PolicyDefaultTx m = NPOL_DEFAULT_DENY"
proof -
  obtain st w' h' where r: "WorkloadEndpoint_Create vpp_acks srv_ex [7] state_ex [] (wep_ex, []) = (st, (w', h'))"
    by (metis surj_pair)
  have st: "st = Done"
    using arg_cong [OF r, of fst]
    by (simp add: WorkloadEndpoint_Create_def endpoint_run endpoint_examples vpp_acks_def Let_def)
  let ?u = "user_conf state_ex (WEP_Tiers wep_ex) (WEP_Profiles wep_ex) []"
  have u: "IngressPolicyIDs ?u = [1]" "EgressPolicyIDs ?u = []" "ProfileIDs ?u = [2]"
    by (simp_all add: user_conf_def tier_ids_def policy_id_def profile_id_def endpoint_examples fromProtoPolicyID_def)
  have a: "AllowFromHostPolicy srv_ex = Some (new_FPolicy\<lparr>FP_VppID := 13\<rparr>)" by (simp add: srv_ex_def)
  show ?thesis
    using WorkloadEndpoint_Create_applied [OF r [unfolded st] _ refl a, of 7] r st u by auto
qed

text \<open>C10: The tap of a host endpoint is never left open: whatever the user's policies, the workloads-to-host
  and fail-safe policies come first in ingress, the allow-from-host and fail-safe policies first in
  egress, the user's follow in order, and a direction denies by default unless it has no policy but
  profiles, in which case it passes to them. The default is never to allow.\<close>

theorem getTapPolicies_guarded:
  assumes "getTapPolicies srv h state = Ret c" "u = user_conf state (HEP_Tiers h) (HEP_Profiles h) []"
  shows "\<exists>w f a. workloadsToHostPolicy srv = Some w \<and> failSafePolicy srv = Some f \<and> AllowFromHostPolicy srv = Some a \<and>
    IngressPolicyIDs c = FP_VppID w # FP_VppID f # IngressPolicyIDs u \<and>
    EgressPolicyIDs c = FP_VppID a # FP_VppID f # EgressPolicyIDs u \<and> ProfileIDs c = ProfileIDs u \<and>
    PolicyDefaultIngress c = (if IngressPolicyIDs u \<noteq> [] \<or> ProfileIDs u = [] then NPOL_DEFAULT_DENY else NPOL_DEFAULT_PASS) \<and>
    PolicyDefaultEgress c = (if EgressPolicyIDs u \<noteq> [] \<or> ProfileIDs u = [] then NPOL_DEFAULT_DENY else NPOL_DEFAULT_PASS)"
proof -
  obtain w f a where "workloadsToHostPolicy srv = Some w" "failSafePolicy srv = Some f" "AllowFromHostPolicy srv = Some a"
    "c = tap_egress (FP_VppID a) (FP_VppID f) (tap_ingress (FP_VppID w) (FP_VppID f) u)"
    using getTapPolicies_Ret [OF assms(1)] assms(2) by blast
  with tap_conf_policies [OF this(4)] assms(2) show ?thesis by simp
qed

theorem getTapPolicies_guarded_witness:
  "\<exists>c. getTapPolicies srv_ex hep_ex state_ex = Ret c \<and> IngressPolicyIDs c = [12, 11, 1] \<and>
     PolicyDefaultIngress c = NPOL_DEFAULT_DENY \<and> PolicyDefaultEgress c = NPOL_DEFAULT_DENY"
proof -
  obtain c where c: "getTapPolicies srv_ex hep_ex state_ex = Ret c"
    by (simp add: endpoint_run endpoint_examples Let_def)
  let ?u = "user_conf state_ex (HEP_Tiers hep_ex) (HEP_Profiles hep_ex) []"
  have u: "IngressPolicyIDs ?u = [1]" "EgressPolicyIDs ?u = []" "ProfileIDs ?u = []"
    by (simp_all add: user_conf_def tier_ids_def policy_id_def endpoint_examples fromProtoPolicyID_def)
  from getTapPolicies_guarded [OF c refl] u c show ?thesis
    by (auto simp: srv_ex_def)
qed

text \<open>C11: When creating a host endpoint succeeds, its uplinks and tunnels carry the forward configuration
  with the directions of the interface inverted, its taps the tap configuration, and the forward
  configuration is remembered for tunnels that come later.\<close>

theorem HostEndpoint_Create_applied:
  assumes "HostEndpoint_Create vpp srv state (e, h) = (Done, (e', h'))"
    "set (UplinkSwIfIndexes e @ TunnelSwIfIndexes e) \<inter> set (TapSwIfIndexes e) = {}"
  shows "\<exists>fwd tap. getForwardPolicies srv e state = Ret fwd \<and> getTapPolicies srv e state = Ret tap \<and>
    e' = e\<lparr>currentForwardConf := Some fwd\<rparr> \<and>
    (\<forall>sw \<in> set (UplinkSwIfIndexes e @ TunnelSwIfIndexes e). vpp_conf h' sw = Some (configure_msg sw fwd 1)) \<and>
    (\<forall>sw \<in> set (TapSwIfIndexes e). vpp_conf h' sw = Some (configure_msg sw tap 0))"
  using hep_configure_result [of vpp srv e state e h Done e' h'] assms by (simp add: HostEndpoint_Create_def)

theorem HostEndpoint_Create_applied_witness:
  "\<exists>e' h' fwd. HostEndpoint_Create vpp_acks srv_ex state_ex (hep_ex, []) = (Done, (e', h')) \<and>
     currentForwardConf e' = Some fwd \<and> vpp_conf h' 4 = Some (configure_msg 4 fwd 1)"
proof -
  obtain st e' h' where r: "HostEndpoint_Create vpp_acks srv_ex state_ex (hep_ex, []) = (st, (e', h'))"
    by (metis surj_pair)
  have st: "st = Done"
    using arg_cong [OF r, of fst]
    by (simp add: HostEndpoint_Create_def hep_configure_def endpoint_run endpoint_examples vpp_acks_def Let_def)
  have "set (UplinkSwIfIndexes hep_ex @ TunnelSwIfIndexes hep_ex) \<inter> set (TapSwIfIndexes hep_ex) = {}"
    "4 \<in> set (UplinkSwIfIndexes hep_ex @ TunnelSwIfIndexes hep_ex)"
    by (simp_all add: hep_ex_def)
  with HostEndpoint_Create_applied [OF r [unfolded st]] r st show ?thesis by fastforce
qed

text \<open>C14: The deletion loop of a tunnel, which shifts the slice it ranges over, removes exactly that tunnel,
  keeps the order of the others and never panics, as long as no tunnel is listed twice; and adding a
  tunnel keeps the list free of duplicates.\<close>

theorem handleTunnelChange_list:
  assumes "distinct (TunnelSwIfIndexes e)"
  shows "TunnelSwIfIndexes (fst (snd (handleTunnelChange vpp x False pending (e, h)))) = remove1 x (TunnelSwIfIndexes e) \<and>
    fst (handleTunnelChange vpp x False pending (e, h)) = Done \<and>
    distinct (TunnelSwIfIndexes (fst (snd (handleTunnelChange vpp x True pending (e, h))))) \<and>
    set (TunnelSwIfIndexes (fst (snd (handleTunnelChange vpp x True pending (e, h))))) = insert x (set (TunnelSwIfIndexes e))"
  using assms
  by (auto simp: handleTunnelChange_def tunnel_del_loop_remove1 go_defs Let_def split: prod.splits option.splits)

theorem handleTunnelChange_list_witness:
  "TunnelSwIfIndexes (fst (snd (handleTunnelChange vpp_acks 3 False False (hep_ex, [])))) = [4]"
  using handleTunnelChange_list [of hep_ex vpp_acks 3 False "[]"] by (simp add: hep_ex_def)

end
