(* ===== verification/FelixServer.thy ===== *)
theory FelixServer
  imports FelixEndpoints
begin

text \<open>
  \<open>felix/felix_server.go\<close>, the state of the server and the handlers of one message each: sets,
  policies, profiles, host and workload endpoints, IP pools, node metadata, and the policies the server
  makes itself. A handler is a command on the server and the history of VPP calls; the events the
  source sends to the other components are appended to a log in the server. Messages that arrive while
  the server is syncing are applied to the pending state (\<open>pending\<close> is true), without VPP.

  Parameters, in \<open>felix_env\<close>: VPP; Calico's protocol names, AS number parser and configuration
  parser; the decoding of the network-status annotation into network names; the two interface queries
  to VPP; the node's name. A pool is sent with every pool update.
\<close>

unbundle bit_operations_syntax

section \<open>State\<close>

datatype SyncState = StateDisconnected | StateConnected | StateSyncing | StateInSync

record interfaceDetails =
  tapIndex :: u32
  uplinkIndex :: u32
  addresses :: "string list"

record NetworkDefinition =
  ND_Name :: string
  ND_NetAttachDefs :: string

record ProtoPort =
  PPort_Net :: string
  PPort_Protocol :: string
  PPort_Port :: u16

record FelixConfig =
  RawValues :: "(string, string) gomap"
  DefaultEndpointToHostAction :: string
  FailsafeInboundHostPorts :: "ProtoPort list"
  FailsafeOutboundHostPorts :: "ProtoPort list"

record IPAMPool =
  Pool_Cidr :: string
  Pool_Masquerade :: bool
  Pool_IpipMode :: string
  Pool_VxlanMode :: string

record LocalNodeSpec =
  LN_ASNumber :: "u32 option"
  LN_Labels :: "(string, string) gomap"
  LN_Name :: string
  IPv4Address :: "ipnet option"
  IPv6Address :: "ipnet option"

datatype felix_event =
    FelixConfChanged FelixConfig FelixConfig
  | FelixConfigSent FelixConfig
  | GotOurNodeBGP LocalNodeSpec
  | PeerNodeStateChanged "LocalNodeSpec option" "LocalNodeSpec option"
  | WireguardPublicKeyChanged string string string
  | IpamConfChanged "IPAMPool option" "IPAMPool option"
  | BGPConfChanged

record Server =
  sync_state :: SyncState
  endpointsInterfaces :: "(WorkloadEndpointID, (string, u32) gomap) gomap"
  configuredState :: PolicyState
  pendingState :: PolicyState
  policies :: ServerPolicies
  allPodsIpset :: "IPSet option"
  ip4 :: "ip option"
  ip6 :: "ip option"
  interfacesMap :: "(string, interfaceDetails) gomap"
  networkDefinitions :: "(string, NetworkDefinition) gomap"
  tunnelSwIfIndexes :: "(u32, bool) gomap"
  felixConfigReceived :: bool
  felixConfig :: FelixConfig
  ippoolmap :: "(string, IPAMPool) gomap"
  nodeStatesByName :: "(string, LocalNodeSpec) gomap"
  nodeByWGPublicKey :: "(string, string) gomap"
  gotOurNodeBGP :: bool
  events :: "felix_event list"

record felix_env =
  env_vpp :: vpp
  protocolNames :: protocol_names
  NodeName :: string
  newConfig :: FelixConfig
  configUpdateFrom :: "(string, string) gomap \<Rightarrow> bool \<times> FelixConfig"
  configFileFields :: "string list"
  ASNumberFromString :: "string \<Rightarrow> u32 option"
  networkStatusNames :: "string \<Rightarrow> string list"
  SearchInterfacesWithTagPrefix :: "string \<Rightarrow> (string, u32) gomap option"
  AddrList :: "u32 \<Rightarrow> bool \<Rightarrow> ipnet list option"

type_synonym handler = "(Server \<times> vhist, go_error) cmd"

section \<open>Commands on the server\<close>

definition on_server :: "(Server \<Rightarrow> Server) \<Rightarrow> handler" where
  [go_defs]: "on_server f = on_obj f"

definition SendEvent :: "felix_event \<Rightarrow> Server \<Rightarrow> Server" where
  "SendEvent e = events_update (\<lambda>es. es @ [e])"

text \<open>A method on an object the server points to: \<open>put\<close> stores the changed object, also on error.\<close>

definition on_sub :: "('o \<times> vhist, go_error) cmd \<Rightarrow> 'o \<Rightarrow> ('o \<Rightarrow> Server \<Rightarrow> Server) \<Rightarrow> handler" where
  "on_sub c obj put s = (case c (obj, snd s) of (st, (obj', h')) \<Rightarrow> (st, (put obj' (fst s), h')))"

definition currentState :: "bool \<Rightarrow> Server \<Rightarrow> PolicyState" where
  "currentState pending s = (if pending then pendingState s else configuredState s)"

definition upd_state :: "bool \<Rightarrow> (PolicyState \<Rightarrow> PolicyState) \<Rightarrow> Server \<Rightarrow> Server" where
  "upd_state pending f s = (if pending then s\<lparr>pendingState := f (pendingState s)\<rparr>
     else s\<lparr>configuredState := f (configuredState s)\<rparr>)"

text \<open>The methods that may fail half-way on a policy being updated: the receiver and the new policy.\<close>

definition update_policy :: "vpp \<Rightarrow> (string, IPSet) gomap \<Rightarrow> FPolicy \<Rightarrow> (FPolicy \<times> vhist, go_error) cmd" where
  "update_policy vpp ipsets new s =
     (case Policy_Update vpp ipsets ((fst s, new), snd s) of (st, ((p', _), h')) \<Rightarrow> (st, (p', h')))"

section \<open>Sets\<close>

definition handleIpsetUpdate :: "felix_env \<Rightarrow> IPSetUpdate \<Rightarrow> bool \<Rightarrow> handler" where
  "handleIpsetUpdate env msg pending s =
     (case fromIPSetUpdate msg of
        Inl e \<Rightarrow> fail e s
      | Inr ips \<Rightarrow>
          (case mget (IPSets (currentState pending (fst s))) (ISU_Id msg) of
             Some existing \<Rightarrow>
               on_sub (ReplaceMembers (env_vpp env) ips (\<not> pending)) existing
                 (\<lambda>i'. upd_state pending (IPSets_update (mput (ISU_Id msg) i'))) s
           | None \<Rightarrow>
               if pending then on_server (upd_state pending (IPSets_update (mput (ISU_Id msg) ips))) s
               else (case IPSet_Create (env_vpp env) (ips, snd s) of
                       (Done, (i', h')) \<Rightarrow> (Done, (upd_state pending (IPSets_update (mput (ISU_Id msg) i')) (fst s), h'))
                     | (Fail e, (i', h')) \<Rightarrow> (Fail e, (fst s, h'))
                     | (Panicked, (i', h')) \<Rightarrow> (Panicked, (fst s, h')))))"

definition handleIpsetDeltaUpdate :: "felix_env \<Rightarrow> string \<Rightarrow> string list \<Rightarrow> string list \<Rightarrow> bool \<Rightarrow> handler" where
  "handleIpsetDeltaUpdate env i added removed pending s =
     (case mget (IPSets (currentState pending (fst s))) i of
        None \<Rightarrow> fail EDeltaNonExistentIpset s
      | Some ips \<Rightarrow>
          on_sub (andthen (AddMembers (env_vpp env) added (\<not> pending)) (RemoveMembers (env_vpp env) removed (\<not> pending)))
            ips (\<lambda>i'. upd_state pending (IPSets_update (mput i i'))) s)"

definition handleIpsetRemove :: "felix_env \<Rightarrow> string \<Rightarrow> bool \<Rightarrow> handler" where
  "handleIpsetRemove env i pending s =
     (case mget (IPSets (currentState pending (fst s))) i of
        None \<Rightarrow> skip s
      | Some ips \<Rightarrow>
          andthen
            (whenC (\<not> pending)
               (on_sub (IPSet_Delete (env_vpp env)) ips (\<lambda>i'. upd_state pending (IPSets_update (mput i i')))))
            (on_server (upd_state pending (IPSets_update (mdel i)))) s)"

section \<open>Policies and profiles\<close>

record ActivePolicyUpdate =
  APU_Id :: proto_PolicyID
  APU_Policy :: proto_Policy

text \<open>The body that is run for the default network and then for every network.\<close>

definition policy_update_in :: "felix_env \<Rightarrow> ActivePolicyUpdate \<Rightarrow> bool \<Rightarrow> string \<Rightarrow> handler" where
  "policy_update_in env msg pending network s =
     (let i = fromProtoPolicyID (APU_Id msg) network; state = currentState pending (fst s) in
      case fromProtoPolicy (protocolNames env) (APU_Policy msg) network of
        Inl e \<Rightarrow> fail e s
      | Inr p \<Rightarrow>
          (case mget (Policies state) i of
             Some existing \<Rightarrow>
               if pending then on_server (upd_state pending (Policies_update (mput i p))) s
               else on_sub (update_policy (env_vpp env) (IPSets state) p) existing
                      (\<lambda>p'. upd_state pending (Policies_update (mput i p'))) s
           | None \<Rightarrow>
               if pending then on_server (upd_state pending (Policies_update (mput i p))) s
               else on_sub (Policy_Create (env_vpp env) (IPSets state)) p
                      (\<lambda>p'. upd_state pending (Policies_update (mput i p'))) s))"

definition handleActivePolicyUpdate :: "felix_env \<Rightarrow> ActivePolicyUpdate \<Rightarrow> bool \<Rightarrow> handler" where
  "handleActivePolicyUpdate env msg pending =
     andthen (policy_update_in env msg pending [])
       (\<lambda>s. foreach (policy_update_in env msg pending) (mkeys (networkDefinitions (fst s))) s)"

text \<open>The removals in a list of networks: the first network without the policy ends the whole handler.\<close>

fun policy_remove_in :: "felix_env \<Rightarrow> proto_PolicyID \<Rightarrow> bool \<Rightarrow> string list \<Rightarrow> handler" where
  "policy_remove_in env pid pending [] s = skip s"
| "policy_remove_in env pid pending (network # networks) s =
     (let i = fromProtoPolicyID pid network in
      case mget (Policies (currentState pending (fst s))) i of
        None \<Rightarrow> skip s
      | Some existing \<Rightarrow>
          andthen
            (whenC (\<not> pending)
               (on_sub (Policy_Delete (env_vpp env)) existing (\<lambda>p'. upd_state pending (Policies_update (mput i p')))))
            (andthen (on_server (upd_state pending (Policies_update (mdel i))))
                     (policy_remove_in env pid pending networks)) s)"

definition handleActivePolicyRemove :: "felix_env \<Rightarrow> proto_PolicyID \<Rightarrow> bool \<Rightarrow> handler" where
  "handleActivePolicyRemove env pid pending s =
     policy_remove_in env pid pending ([] # mkeys (networkDefinitions (fst s))) s"

definition handleActiveProfileUpdate :: "felix_env \<Rightarrow> string \<Rightarrow> proto_Profile \<Rightarrow> bool \<Rightarrow> handler" where
  "handleActiveProfileUpdate env i profile pending s =
     (let state = currentState pending (fst s) in
      case fromProtoProfile (protocolNames env) profile of
        Inl e \<Rightarrow> fail e s
      | Inr p \<Rightarrow>
          (case mget (Profiles state) i of
             Some existing \<Rightarrow>
               if pending then on_server (upd_state pending (Profiles_update (mput i p))) s
               else on_sub (update_policy (env_vpp env) (IPSets state) p) existing
                      (\<lambda>p'. upd_state pending (Profiles_update (mput i p'))) s
           | None \<Rightarrow>
               if pending then on_server (upd_state pending (Profiles_update (mput i p))) s
               else on_sub (Policy_Create (env_vpp env) (IPSets state)) p
                      (\<lambda>p'. upd_state pending (Profiles_update (mput i p'))) s))"

definition handleActiveProfileRemove :: "felix_env \<Rightarrow> string \<Rightarrow> bool \<Rightarrow> handler" where
  "handleActiveProfileRemove env i pending s =
     (case mget (Profiles (currentState pending (fst s))) i of
        None \<Rightarrow> skip s
      | Some existing \<Rightarrow>
          andthen
            (whenC (\<not> pending)
               (on_sub (Policy_Delete (env_vpp env)) existing (\<lambda>p'. upd_state pending (Profiles_update (mput i p')))))
            (on_server (upd_state pending (Profiles_update (mdel i)))) s)"

section \<open>Host endpoints\<close>

definition getAllTunnelSwIfIndexes :: "Server \<Rightarrow> u32 list" where
  "getAllTunnelSwIfIndexes s = mkeys (tunnelSwIfIndexes s)"

definition add_interface :: "interfaceDetails \<Rightarrow> HostEndpoint \<Rightarrow> HostEndpoint" where
  "add_interface d hep = hep\<lparr>UplinkSwIfIndexes := UplinkSwIfIndexes hep @ [uplinkIndex d],
     TapSwIfIndexes := TapSwIfIndexes hep @ [tapIndex d]\<rparr>"

text \<open>The interfaces a host endpoint stands for: the named one, those with an expected address when
  there is no name, all of them for \<open>*\<close>.\<close>

definition resolve_interfaces :: "Server \<Rightarrow> HostEndpoint \<Rightarrow> HostEndpoint" where
  "resolve_interfaces s hep =
     (if InterfaceName hep \<noteq> [] \<and> InterfaceName hep \<noteq> ''*'' then
        (case mget (interfacesMap s) (InterfaceName hep) of
           Some d \<Rightarrow> add_interface d hep
         | None \<Rightarrow> hep)
      else if InterfaceName hep = [] then
        fold (\<lambda>d hep. if \<exists>a \<in> set (addresses d). a \<in> set (expectedIPs hep) then add_interface d hep else hep)
          (mvals (interfacesMap s)) hep
      else fold add_interface (mvals (interfacesMap s)) hep)"

definition handleHostEndpointUpdate :: "felix_env \<Rightarrow> HostEndpointID \<Rightarrow> proto_HostEndpoint \<Rightarrow> bool \<Rightarrow> handler" where
  "handleHostEndpointUpdate env i endpoint pending s =
     (let state = currentState pending (fst s);
          hep = (resolve_interfaces (fst s) (fromProtoHostEndpoint endpoint))
                  \<lparr>TunnelSwIfIndexes := getAllTunnelSwIfIndexes (fst s)\<rparr>
      in if length (UplinkSwIfIndexes hep) = 0 \<or> length (TapSwIfIndexes hep) = 0 then skip s
         else case mget (HostEndpoints state) i of
           Some existing \<Rightarrow>
             if pending
             then on_server (upd_state pending (HostEndpoints_update
                    (mput i (hep\<lparr>currentForwardConf := currentForwardConf existing\<rparr>)))) s
             else on_sub (HostEndpoint_Update (env_vpp env) (policies (fst s)) hep state) existing
                    (\<lambda>e'. upd_state pending (HostEndpoints_update (mput i e'))) s
         | None \<Rightarrow>
             if pending then on_server (upd_state pending (HostEndpoints_update (mput i hep))) s
             else on_sub (HostEndpoint_Create (env_vpp env) (policies (fst s)) state) hep
                    (\<lambda>e'. upd_state pending (HostEndpoints_update (mput i e'))) s)"

definition handleHostEndpointRemove :: "felix_env \<Rightarrow> HostEndpointID \<Rightarrow> bool \<Rightarrow> handler" where
  "handleHostEndpointRemove env i pending s =
     (case mget (HostEndpoints (currentState pending (fst s))) i of
        None \<Rightarrow> skip s
      | Some existing \<Rightarrow>
          andthen
            (whenC (\<not> pending \<and> length (UplinkSwIfIndexes existing) \<noteq> 0)
               (on_sub (HostEndpoint_Delete (env_vpp env) (policies (fst s))) existing
                  (\<lambda>e'. upd_state pending (HostEndpoints_update (mput i e')))))
            (on_server (upd_state pending (HostEndpoints_update (mdel i)))) s)"

section \<open>Workload endpoints\<close>

record WorkloadEndpointUpdate =
  WEU_Id :: proto_WorkloadEndpointID
  WEU_Endpoint :: proto_WorkloadEndpoint

definition getAllWorkloadEndpointIdsFromUpdate :: "felix_env \<Rightarrow> Server \<Rightarrow> WorkloadEndpointUpdate \<Rightarrow> WorkloadEndpointID list" where
  "getAllWorkloadEndpointIdsFromUpdate env s msg =
     (let i = fromProtoEndpointID (WEU_Id msg) in
      i # (case mget (PWE_Annotations (WEU_Endpoint msg)) ''k8s.v1.cni.cncf.io/network-status'' of
             None \<Rightarrow> []
           | Some json \<Rightarrow>
               concat (map (\<lambda>name.
                 map (\<lambda>p. i\<lparr>WE_Network := fst p\<rparr>)
                   (filter (\<lambda>p. name = ND_NetAttachDefs (snd p)) (networkDefinitions s)))
                 (networkStatusNames env json))))"

definition workload_update_one :: "felix_env \<Rightarrow> WorkloadEndpointUpdate \<Rightarrow> bool \<Rightarrow> WorkloadEndpointID \<Rightarrow> handler" where
  "workload_update_one env msg pending i s =
     (let wep = fromProtoWorkload (WEU_Endpoint msg); state = currentState pending (fst s);
          put = (\<lambda>w'. upd_state pending (WorkloadEndpoints_update (mput i w')))
      in case mget (WorkloadEndpoints state) i of
           Some existing \<Rightarrow>
             if pending \<or> \<not> mhas (endpointsInterfaces (fst s)) i then on_server (put wep) s
             else on_sub (WorkloadEndpoint_Update (env_vpp env) (policies (fst s)) wep state (WE_Network i)) existing put s
         | None \<Rightarrow>
             (case mget (endpointsInterfaces (fst s)) i of
                Some swIfIndexMap \<Rightarrow>
                  if pending then on_server (put wep) s
                  else let state' = state\<lparr>WorkloadEndpoints := mput i wep (WorkloadEndpoints state)\<rparr> in
                       on_sub (WorkloadEndpoint_Create (env_vpp env) (policies (fst s)) (mvals swIfIndexMap) state'
                         (WE_Network i)) wep put s
              | None \<Rightarrow> on_server (put wep) s))"

definition handleWorkloadEndpointUpdate :: "felix_env \<Rightarrow> WorkloadEndpointUpdate \<Rightarrow> bool \<Rightarrow> handler" where
  "handleWorkloadEndpointUpdate env msg pending s =
     foreach (workload_update_one env msg pending) (getAllWorkloadEndpointIdsFromUpdate env (fst s) msg) s"

text \<open>\<open>Delete\<close> only clears the endpoint's interfaces. The loop over the other networks of the workload
  tests and deletes the first endpoint again, whose interfaces are already cleared.\<close>

definition handleWorkloadEndpointRemove :: "felix_env \<Rightarrow> proto_WorkloadEndpointID \<Rightarrow> bool \<Rightarrow> handler" where
  "handleWorkloadEndpointRemove env pid pending s =
     (let i = fromProtoEndpointID pid; state = currentState pending (fst s) in
      case mget (WorkloadEndpoints state) i of
        None \<Rightarrow> skip s
      | Some existing \<Rightarrow>
          andthen
            (whenC (\<not> pending \<and> length (WEP_SwIfIndex existing) \<noteq> 0)
               (on_sub WorkloadEndpoint_Delete existing
                  (\<lambda>w'. upd_state pending (WorkloadEndpoints_update (mput i w')))))
            (on_server (upd_state pending (WorkloadEndpoints_update (\<lambda>m.
               filter (\<lambda>p. \<not> (OrchestratorID (fst p) = OrchestratorID i \<and> WorkloadID (fst p) = WorkloadID i))
                 (mdel i m))))) s)"

end
