(* ===== verification/FelixSync.thy ===== *)
theory FelixSync
  imports FelixServer
begin

text \<open>
  The rest of \<open>felix/felix_server.go\<close>: the policies the server makes itself, the IP pools, the node
  metadata, the configuration, the reconciliation when Felix is in sync, the events of the other
  components, the dispatch of messages, and the loop of \<open>ServeFelix\<close> as a step relation.
\<close>

unbundle bit_operations_syntax

section \<open>The server's own policies\<close>

definition GetMaxCIDRMask :: "ip \<Rightarrow> u8 list" where
  "GetMaxCIDRMask addr = (let maxCIDRLen = (if IsIP6 addr then 128 else 32) in CIDRMask maxCIDRLen maxCIDRLen)"

definition FullyQualified :: "ip \<Rightarrow> ipnet" where
  "FullyQualified addr = \<lparr>IPNet_IP = addr, IPNet_Mask = GetMaxCIDRMask addr\<rparr>"

definition getEndpointToHostAction :: "Server \<Rightarrow> RuleAction" where
  "getEndpointToHostAction s =
     (if ToUpper (DefaultEndpointToHostAction (felixConfig s)) = ''ACCEPT'' then ActionAllow else ActionDeny)"

text \<open>A rule literal of the source: the fields it does not name are zero.\<close>

definition rule_lit :: "string \<Rightarrow> NRule \<Rightarrow> FRule" where
  "rule_lit rid r = \<lparr>FR_Rule = r, RuleID = rid, FR_VppID = InvalidID, DstIPPortIPSetNames = [],
     DstNotIPPortIPSetNames = [], SrcIPPortIPSetNames = [], SrcNotIPPortIPSetNames = [],
     DstIPSetNames = [], DstNotIPSetNames = [], SrcIPSetNames = [], SrcNotIPSetNames = [],
     DstIPPortSetNames = [], Annotations = []\<rparr>"

definition wepAddrIpset :: string where
  "wepAddrIpset = ''calico-vpp-wep-addr-ipset''"

text \<open>The policy state with the set of all pods only.\<close>

definition all_pods_sets :: "Server \<Rightarrow> (string, IPSet) gomap" where
  "all_pods_sets s = (case allPodsIpset s of None \<Rightarrow> [] | Some i \<Rightarrow> [(wepAddrIpset, i)])"

definition host_nets :: "Server \<Rightarrow> ipnet list" where
  "host_nets s = (case ip4 s of None \<Rightarrow> [] | Some a \<Rightarrow> [FullyQualified a]) @
     (case ip6 s of None \<Rightarrow> [] | Some a \<Rightarrow> [FullyQualified a])"

text \<open>
  The pattern of the functions that make a policy again: created when there is none, else the old one
  is updated to the new one, which takes its identifier. The result is the status, the new policy (with
  its rules created) and the history.
\<close>

definition create_or_update :: "vpp \<Rightarrow> (string, IPSet) gomap \<Rightarrow> FPolicy option \<Rightarrow> FPolicy \<Rightarrow> vhist \<Rightarrow>
    go_error status \<times> FPolicy \<times> vhist" where
  "create_or_update vpp ipsets old new h =
     (case old of
        None \<Rightarrow> Policy_Create vpp ipsets (new, h)
      | Some p \<Rightarrow>
          (case Policy_Update vpp ipsets ((p, new\<lparr>FP_VppID := FP_VppID p\<rparr>), h) of
             (st, ((p', new'), h')) \<Rightarrow> (st, (new', h'))))"

definition allowToHost_policy :: "Server \<Rightarrow> FPolicy" where
  "allowToHost_policy s = new_FPolicy\<lparr>
     InboundRules := [rule_lit ''calicovpp-internal-allowtohost'' ((zero_NRule ActionAllow)\<lparr>DstNet := host_nets s\<rparr>)],
     OutboundRules := [rule_lit ''calicovpp-internal-allowtohost'' ((zero_NRule ActionAllow)\<lparr>SrcNet := host_nets s\<rparr>)]\<rparr>"

definition createAllowToHostPolicy :: "felix_env \<Rightarrow> handler" where
  "createAllowToHostPolicy env s =
     (case create_or_update (env_vpp env) [] (allowToHostPolicy (policies (fst s))) (allowToHost_policy (fst s)) (snd s) of
        (st, (new', h')) \<Rightarrow>
          (st, ((fst s)\<lparr>policies := (policies (fst s))\<lparr>allowToHostPolicy := Some new'\<rparr>\<rparr>, h')))"

definition createAllPodsIpset :: "felix_env \<Rightarrow> handler" where
  "createAllPodsIpset env s =
     (case IPSet_Create (env_vpp env) (NewIPSet, snd s) of
        (Done, (i', h')) \<Rightarrow> (Done, ((fst s)\<lparr>allPodsIpset := Some i'\<rparr>, h'))
      | (Fail e, (i', h')) \<Rightarrow> (Fail e, (fst s, h'))
      | (Panicked, (i', h')) \<Rightarrow> (Panicked, (fst s, h')))"

definition allowFromHost_policy :: "Server \<Rightarrow> FPolicy" where
  "allowFromHost_policy s = new_FPolicy\<lparr>
     OutboundRules := [(rule_lit ''calicovpp-internal-egressallowfromhost'' (zero_NRule ActionAllow))
                         \<lparr>DstIPSetNames := [wepAddrIpset]\<rparr>],
     InboundRules := [rule_lit ''calicovpp-internal-ingressallowfromhost'' ((zero_NRule ActionAllow)\<lparr>SrcNet := host_nets s\<rparr>)]\<rparr>"

definition createAllowFromHostPolicy :: "felix_env \<Rightarrow> handler" where
  "createAllowFromHostPolicy env s =
     (case create_or_update (env_vpp env) (all_pods_sets (fst s)) (AllowFromHostPolicy (policies (fst s)))
             (allowFromHost_policy (fst s)) (snd s) of
        (st, (new', h')) \<Rightarrow>
          (st, ((fst s)\<lparr>policies := (policies (fst s))\<lparr>AllowFromHostPolicy := Some new'\<rparr>\<rparr>, h')))"

definition workloadsToHost_rule :: "Server \<Rightarrow> FRule" where
  "workloadsToHost_rule s = (rule_lit [] (zero_NRule (getEndpointToHostAction s)))\<lparr>SrcIPSetNames := [wepAddrIpset]\<rparr>"

text \<open>An error of the interface query or of a configure call is logged; an empty result is configured
  nowhere.\<close>

definition createEndpointToHostPolicy :: "felix_env \<Rightarrow> handler" where
  "createEndpointToHostPolicy env s =
     (case Policy_Create (env_vpp env) (all_pods_sets (fst s))
             (new_FPolicy\<lparr>InboundRules := [workloadsToHost_rule (fst s)]\<rparr>, snd s) of
        (Done, (p', h')) \<Rightarrow>
          (let conf = NewInterfaceConfig\<lparr>IngressPolicyIDs := [FP_VppID p'],
                 PolicyDefaultIngress := NPOL_DEFAULT_ALLOW, PolicyDefaultEgress := NPOL_DEFAULT_ALLOW\<rparr>;
               taps = (case SearchInterfacesWithTagPrefix env ''host-'' of None \<Rightarrow> [] | Some m \<Rightarrow> mvals m);
               h'' = snd (foreach (\<lambda>sw. attempt (ConfigurePolicies (env_vpp env) sw conf 0)) taps h')
           in (Done, ((fst s)\<lparr>policies := (policies (fst s))\<lparr>workloadsToHostPolicy := Some p',
                 defaultTap0IngressConf := IngressPolicyIDs conf, defaultTap0EgressConf := EgressPolicyIDs conf\<rparr>\<rparr>, h'')))
      | (Fail e, (p', h')) \<Rightarrow> (Fail e, (fst s, h'))
      | (Panicked, (p', h')) \<Rightarrow> (Panicked, (fst s, h')))"

text \<open>One fail-safe port: a protocol or network that does not parse is skipped.\<close>

definition failsafe_rule :: "protocol_names \<Rightarrow> bool \<Rightarrow> ProtoPort \<Rightarrow> FRule list" where
  "failsafe_rule pn inbound pp =
     (case parseProtocol pn (Protocol_Name (PPort_Protocol pp)) of
        Inl _ \<Rightarrow> []
      | Inr protocol \<Rightarrow>
          (let r = (zero_NRule ActionAllow)\<lparr>DstPortRange := [\<lparr>PR_First = PPort_Port pp, PR_Last = PPort_Port pp\<rparr>],
                 Filters := [\<lparr>RF_ShouldMatch = True, RF_Type = NpolFilterProto, RF_Value = uint protocol\<rparr>]\<rparr>;
               rid = (if inbound then ''failsafe-in-'' else ''failsafe-out-'') @ PPort_Net pp @ ''-'' @
                     PPort_Protocol pp @ ''-'' @ show_nat (unat (PPort_Port pp))
           in if PPort_Net pp = [] then [rule_lit rid r]
              else case ParseCIDR (PPort_Net pp) of
                     None \<Rightarrow> []
                   | Some (_, n) \<Rightarrow> [rule_lit rid (if inbound then r\<lparr>SrcNet := [n]\<rparr> else r\<lparr>DstNet := [n]\<rparr>)]))"

definition failsafe_policy :: "felix_env \<Rightarrow> Server \<Rightarrow> FPolicy" where
  "failsafe_policy env s = new_FPolicy\<lparr>
     InboundRules := concat (map (failsafe_rule (protocolNames env) True) (FailsafeInboundHostPorts (felixConfig s))),
     OutboundRules := concat (map (failsafe_rule (protocolNames env) False) (FailsafeOutboundHostPorts (felixConfig s)))\<rparr>"

text \<open>Here the server's pointer changes only when there was no error; the receiver of a failed update
  keeps what the update did to it.\<close>

definition createFailSafePolicies :: "felix_env \<Rightarrow> handler" where
  "createFailSafePolicies env s =
     (case failSafePolicy (policies (fst s)) of
        None \<Rightarrow>
          (case Policy_Create (env_vpp env) [] (failsafe_policy env (fst s), snd s) of
             (Done, (p', h')) \<Rightarrow> (Done, ((fst s)\<lparr>policies := (policies (fst s))\<lparr>failSafePolicy := Some p'\<rparr>\<rparr>, h'))
           | (Fail e, (p', h')) \<Rightarrow> (Fail e, (fst s, h'))
           | (Panicked, (p', h')) \<Rightarrow> (Panicked, (fst s, h')))
      | Some p \<Rightarrow>
          (case Policy_Update (env_vpp env) [] ((p, (failsafe_policy env (fst s))\<lparr>FP_VppID := FP_VppID p\<rparr>), snd s) of
             (st, ((p', new'), h')) \<Rightarrow>
               (st, ((fst s)\<lparr>policies := (policies (fst s))\<lparr>failSafePolicy := Some (if st = Done then new' else p')\<rparr>\<rparr>, h'))))"

section \<open>IP pools\<close>

definition ipamPoolCopy :: "IPAMPool option \<Rightarrow> IPAMPool option" where
  "ipamPoolCopy p = (case p of None \<Rightarrow> None
     | Some q \<Rightarrow> Some \<lparr>Pool_Cidr = Pool_Cidr q, Pool_Masquerade = Pool_Masquerade q,
                       Pool_IpipMode = Pool_IpipMode q, Pool_VxlanMode = Pool_VxlanMode q\<rparr>)"

definition ipamPoolEquals :: "IPAMPool \<Rightarrow> IPAMPool \<Rightarrow> bool" where
  "ipamPoolEquals a b \<longleftrightarrow> Pool_Cidr a = Pool_Cidr b \<and> Pool_IpipMode a = Pool_IpipMode b \<and>
     Pool_VxlanMode a = Pool_VxlanMode b"

definition addDelSnatPrefixForIPPool :: "vpp \<Rightarrow> IPAMPool \<Rightarrow> bool \<Rightarrow> (vhist, go_error) cmd" where
  "addDelSnatPrefixForIPPool vpp pool isAdd h =
     (case ParseCIDR (Pool_Cidr pool) of
        None \<Rightarrow> fail (EParseCIDR (Pool_Cidr pool)) h
      | Some (_, ipNet) \<Rightarrow> CnatAddDelSnatPrefix vpp ipNet isAdd h)"

definition handleIpamPoolUpdate :: "felix_env \<Rightarrow> string \<Rightarrow> IPAMPool \<Rightarrow> bool \<Rightarrow> handler" where
  "handleIpamPoolUpdate env i new pending s =
     (if i = [] then skip s
      else case mget (ippoolmap (fst s)) i of
        Some old \<Rightarrow>
          if ipamPoolEquals new old then skip s
          else andthen (on_server (ippoolmap_update (mput i new)))
            (if Pool_Cidr new \<noteq> Pool_Cidr old \<or> Pool_Masquerade new \<noteq> Pool_Masquerade old
             then (\<lambda>s. case addDelSnatPrefixForIPPool (env_vpp env) old False (snd s) of
                    (st1, h1) \<Rightarrow>
                      (case addDelSnatPrefixForIPPool (env_vpp env) new True h1 of
                         (st2, h2) \<Rightarrow>
                           if st1 = Done \<and> st2 = Done
                           then (Done, (SendEvent (IpamConfChanged (ipamPoolCopy (Some old)) (ipamPoolCopy (Some new))) (fst s), h2))
                           else (Fail ESnatPrefix, (fst s, h2))))
             else skip) s
      | None \<Rightarrow>
          andthen (on_server (ippoolmap_update (mput i new)))
          (andthen (on_vpp (addDelSnatPrefixForIPPool (env_vpp env) new True))
                   (on_server (SendEvent (IpamConfChanged None (ipamPoolCopy (Some new)))))) s)"

definition handleIpamPoolRemove :: "felix_env \<Rightarrow> string \<Rightarrow> bool \<Rightarrow> handler" where
  "handleIpamPoolRemove env i pending s =
     (if i = [] then skip s
      else case mget (ippoolmap (fst s)) i of
        Some old \<Rightarrow>
          andthen (on_server (ippoolmap_update (mdel i)))
          (andthen (on_vpp (addDelSnatPrefixForIPPool (env_vpp env) old False))
                   (on_server (SendEvent (IpamConfChanged (ipamPoolCopy (Some old)) None)))) s
      | None \<Rightarrow> skip s)"

text \<open>A pool whose text does not parse gives a nil network, and reading its mask panics.\<close>

definition ipamPoolContains :: "IPAMPool \<Rightarrow> ipnet \<Rightarrow> bool outcome" where
  "ipamPoolContains pool prefix =
     (case ParseCIDR (Pool_Cidr pool) of
        None \<Rightarrow> Crash
      | Some (_, poolCIDR) \<Rightarrow>
          (let (poolCIDRLen, poolCIDRBits) = Mask_Size (IPNet_Mask poolCIDR);
               (prefixLen, prefixBits) = Mask_Size (IPNet_Mask prefix)
           in Ret (poolCIDRBits = prefixBits \<and> Contains poolCIDR (IPNet_IP prefix) \<and> prefixLen \<ge> poolCIDRLen)))"

fun first_pool :: "IPAMPool list \<Rightarrow> ipnet \<Rightarrow> IPAMPool option outcome" where
  "first_pool [] prefix = Ret None"
| "first_pool (pool # pools) prefix =
     (case ipamPoolContains pool prefix of
        Crash \<Rightarrow> Crash
      | Err _ \<Rightarrow> first_pool pools prefix
      | Ret inside \<Rightarrow> if inside then Ret (Some pool) else first_pool pools prefix)"

definition GetPrefixIPPool :: "Server \<Rightarrow> ipnet \<Rightarrow> IPAMPool option outcome" where
  "GetPrefixIPPool s prefix = first_pool (mvals (ippoolmap s)) prefix"

definition NeedsSNAT :: "Server \<Rightarrow> ipnet \<Rightarrow> bool outcome" where
  "NeedsSNAT s prefix =
     bind_outcome (GetPrefixIPPool s prefix) (\<lambda>pool.
       Ret (case pool of None \<Rightarrow> False | Some p \<Rightarrow> Pool_Masquerade p))"

section \<open>Nodes\<close>

record HostMetadataV4V6Update =
  HM_Hostname :: string
  HM_Ipv4Addr :: string
  HM_Ipv6Addr :: string
  HM_Asnumber :: string
  HM_Labels :: "(string, string) gomap"

text \<open>\<open>ParseCIDR\<close> with the address as written in place of the network address.\<close>

definition parse_node_addr :: "string \<Rightarrow> (go_error + ipnet option)" where
  "parse_node_addr s =
     (if s = [] then Inr None
      else case ParseCIDR s of None \<Rightarrow> Inl ENodeSpec | Some (a, n) \<Rightarrow> Inr (Some (n\<lparr>IPNet_IP := a\<rparr>)))"

definition NewLocalNodeSpec :: "felix_env \<Rightarrow> HostMetadataV4V6Update \<Rightarrow> go_error + LocalNodeSpec" where
  "NewLocalNodeSpec env msg =
     (case parse_node_addr (HM_Ipv4Addr msg) of Inl e \<Rightarrow> Inl e | Inr a4 \<Rightarrow>
      case parse_node_addr (HM_Ipv6Addr msg) of Inl e \<Rightarrow> Inl e | Inr a6 \<Rightarrow>
      if HM_Asnumber msg = []
      then Inr \<lparr>LN_ASNumber = None, LN_Labels = HM_Labels msg, LN_Name = HM_Hostname msg, IPv4Address = a4, IPv6Address = a6\<rparr>
      else case ASNumberFromString env (HM_Asnumber msg) of
             None \<Rightarrow> Inl ENodeSpec
           | Some asn \<Rightarrow> Inr \<lparr>LN_ASNumber = Some asn, LN_Labels = HM_Labels msg, LN_Name = HM_Hostname msg,
                               IPv4Address = a4, IPv6Address = a6\<rparr>)"

text \<open>The change types are flags.\<close>

definition ChangeSame :: nat where "ChangeSame = 0"
definition ChangeAdded :: nat where "ChangeAdded = 1"
definition ChangeDeleted :: nat where "ChangeDeleted = 2"
definition ChangeUpdated :: nat where "ChangeUpdated = 4"

definition GetStringChangeType :: "string \<Rightarrow> string \<Rightarrow> nat" where
  "GetStringChangeType old new =
     (if old = new \<and> new = [] then ChangeSame
      else if old = new then ChangeSame
      else if old = [] then ChangeAdded
      else if new = [] then ChangeDeleted
      else ChangeUpdated)"

definition GetIPNetChangeType :: "ipnet option \<Rightarrow> ipnet option \<Rightarrow> nat" where
  "GetIPNetChangeType old new =
     GetStringChangeType (case old of None \<Rightarrow> [] | Some n \<Rightarrow> ip_String (IPNet_IP n))
       (case new of None \<Rightarrow> [] | Some n \<Rightarrow> ip_String (IPNet_IP n))"

text \<open>Our own node got an address: the server remembers it, tells VPP (an error is logged), hands the node
  to whoever waits for it, once, and makes its host policies again.\<close>

definition own_node_update :: "felix_env \<Rightarrow> LocalNodeSpec \<Rightarrow> handler" where
  "own_node_update env spec =
     andthen (on_server (\<lambda>s. s\<lparr>ip4 := (case IPv4Address spec of None \<Rightarrow> ip4 s | Some n \<Rightarrow> Some (IPNet_IP n)),
                               ip6 := (case IPv6Address spec of None \<Rightarrow> ip6 s | Some n \<Rightarrow> Some (IPNet_IP n))\<rparr>))
     (andthen (attempt (on_vpp (CnatSetSnatAddresses (env_vpp env)
                (case IPv4Address spec of None \<Rightarrow> [] | Some n \<Rightarrow> IPNet_IP n)
                (case IPv6Address spec of None \<Rightarrow> [] | Some n \<Rightarrow> IPNet_IP n))))
     (andthen (on_server (\<lambda>s. if gotOurNodeBGP s then s else SendEvent (GotOurNodeBGP spec) (s\<lparr>gotOurNodeBGP := True\<rparr>)))
     (andthen (createAllowFromHostPolicy env) (createAllowToHostPolicy env))))"

definition handleHostMetadataV4V6Update :: "felix_env \<Rightarrow> HostMetadataV4V6Update \<Rightarrow> bool \<Rightarrow> handler" where
  "handleHostMetadataV4V6Update env msg pending s =
     (case NewLocalNodeSpec env msg of
        Inl e \<Rightarrow> fail e s
      | Inr spec \<Rightarrow>
          (let old = mget (nodeStatesByName (fst s)) (LN_Name spec);
               own = (LN_Name spec = NodeName env)
           in andthen
                (whenC (own \<and> (IPv4Address spec \<noteq> None \<or> IPv6Address spec \<noteq> None)) (own_node_update env spec))
                (andthen
                   (case old of
                      None \<Rightarrow> on_server (SendEvent (PeerNodeStateChanged None (Some spec)))
                    | Some o' \<Rightarrow>
                        (let change = GetIPNetChangeType (IPv4Address o') (IPv4Address spec) OR
                                      GetIPNetChangeType (IPv6Address o') (IPv6Address spec)
                         in if change AND (ChangeDeleted OR ChangeUpdated) \<noteq> 0 \<and> own then fail ENodeWatcherRestart
                            else if change \<noteq> ChangeSame
                            then on_server (SendEvent (PeerNodeStateChanged (Some o') (Some spec)))
                            else skip))
                   (on_server (nodeStatesByName_update (mput (LN_Name spec) spec)))) s))"

definition handleHostMetadataV4V6Remove :: "felix_env \<Rightarrow> string \<Rightarrow> bool \<Rightarrow> handler" where
  "handleHostMetadataV4V6Remove env hostname pending s =
     (case mget (nodeStatesByName (fst s)) hostname of
        None \<Rightarrow> fail ENodeNotFound s
      | Some old \<Rightarrow>
          andthen (on_server (SendEvent (PeerNodeStateChanged (Some old) None)))
            (if LN_Name old = NodeName env then fail ENodeWatcherRestart else skip) s)"

definition handleWireguardEndpointUpdate :: "string \<Rightarrow> string \<Rightarrow> bool \<Rightarrow> handler" where
  "handleWireguardEndpointUpdate hostname publicKey pending =
     on_server (\<lambda>s. SendEvent (WireguardPublicKeyChanged hostname
       (case mget (nodeByWGPublicKey s) hostname of None \<Rightarrow> [] | Some k \<Rightarrow> k) publicKey) s)"

definition handleGlobalBGPConfigUpdate :: "bool \<Rightarrow> handler" where
  "handleGlobalBGPConfigUpdate pending = on_server (SendEvent BGPConfChanged)"

section \<open>Configuration\<close>

text \<open>\<open>removeFelixConfigFileField\<close>: the fields whose kind is \<open>file\<close> are found by reflection on Felix's
  configuration type; here they are a parameter.\<close>

definition removeFelixConfigFileField :: "felix_env \<Rightarrow> (string, string) gomap \<Rightarrow> (string, string) gomap" where
  "removeFelixConfigFileField env rawData = mdel_all (configFileFields env) rawData"

definition same_map :: "('k, 'v) gomap \<Rightarrow> ('k, 'v) gomap \<Rightarrow> bool" where
  "same_map m n \<longleftrightarrow> list_all (\<lambda>k. mget m k = mget n k) (mkeys m @ mkeys n)"

fun protoPortListEqual :: "ProtoPort list \<Rightarrow> ProtoPort list \<Rightarrow> bool" where
  "protoPortListEqual [] [] = True"
| "protoPortListEqual (a # as) (b # bs) =
     (PPort_Net a = PPort_Net b \<and> PPort_Protocol a = PPort_Protocol b \<and> PPort_Port a = PPort_Port b \<and>
      protoPortListEqual as bs)"
| "protoPortListEqual _ _ = False"

definition update_workloadsToHost :: "felix_env \<Rightarrow> handler" where
  "update_workloadsToHost env s =
     (case workloadsToHostPolicy (policies (fst s)) of
        None \<Rightarrow> panic s
      | Some p \<Rightarrow>
          on_sub (update_policy (env_vpp env) (all_pods_sets (fst s))
                    ((Policy_DeepCopy p)\<lparr>InboundRules := [workloadsToHost_rule (fst s)]\<rparr>)) p
            (\<lambda>p' s. s\<lparr>policies := (policies s)\<lparr>workloadsToHostPolicy := Some p'\<rparr>\<rparr>) s)"

definition apply_config_changes :: "felix_env \<Rightarrow> FelixConfig \<Rightarrow> handler" where
  "apply_config_changes env oldCfg =
     andthen (on_server (\<lambda>s. SendEvent (FelixConfChanged (felixConfig s) oldCfg) s))
     (andthen (\<lambda>s. whenC (DefaultEndpointToHostAction (felixConfig (fst s)) \<noteq> DefaultEndpointToHostAction oldCfg)
                     (update_workloadsToHost env) s)
              (\<lambda>s. whenC (\<not> protoPortListEqual (FailsafeInboundHostPorts (felixConfig (fst s))) (FailsafeInboundHostPorts oldCfg) \<or>
                          \<not> protoPortListEqual (FailsafeOutboundHostPorts (felixConfig (fst s))) (FailsafeOutboundHostPorts oldCfg))
                     (createFailSafePolicies env) s))"

definition handleConfigUpdate :: "felix_env \<Rightarrow> (string, string) gomap \<Rightarrow> handler" where
  "handleConfigUpdate env raw s =
     (if sync_state (fst s) \<noteq> StateConnected then fail ENotConnected s
      else
        let oldCfg = felixConfig (fst s);
            (ok, newCfg) = configUpdateFrom env (removeFelixConfigFileField env raw)
        in andthen (on_server (\<lambda>s. s\<lparr>sync_state := StateSyncing, felixConfig := newCfg\<rparr>))
           (if \<not> ok then fail EFelixConfig
            else andthen
              (on_server (\<lambda>s. if felixConfigReceived s then s
                              else SendEvent (FelixConfigSent newCfg) (s\<lparr>felixConfigReceived := True\<rparr>)))
              (whenC (\<not> same_map (RawValues oldCfg) (RawValues newCfg)) (apply_config_changes env oldCfg))) s)"

section \<open>Reconciliation\<close>

text \<open>\<open>for k, v := range m { v.method() }\<close> over a map of pointers: the values change in place.\<close>

definition map_foreach :: "('k \<Rightarrow> ('v \<times> vhist, go_error) cmd) \<Rightarrow> (('k, 'v) gomap \<times> vhist, go_error) cmd" where
  "map_foreach c = foreach_mut (\<lambda>((k, v), h). case c k (v, h) of (st, (v', h')) \<Rightarrow> (st, ((k, v'), h')))"

text \<open>Such a loop over one of the maps of the configured state.\<close>

definition over_map :: "(PolicyState \<Rightarrow> ('k, 'v) gomap) \<Rightarrow> ((('k, 'v) gomap \<Rightarrow> ('k, 'v) gomap) \<Rightarrow> PolicyState \<Rightarrow> PolicyState) \<Rightarrow>
    (Server \<Rightarrow> 'k \<Rightarrow> ('v \<times> vhist, go_error) cmd) \<Rightarrow> handler" where
  "over_map sel sel_update c s =
     on_sub (map_foreach (c (fst s))) (sel (configuredState (fst s)))
       (\<lambda>m. configuredState_update (sel_update (\<lambda>_. m))) s"

definition cleanup_configured :: "felix_env \<Rightarrow> handler" where
  "cleanup_configured env =
     andthen (over_map WorkloadEndpoints WorkloadEndpoints_update
                (\<lambda>_ _ s. whenC (length (WEP_SwIfIndex (fst s)) \<noteq> 0) WorkloadEndpoint_Delete s))
     (andthen (over_map Policies Policies_update (\<lambda>_ _. attempt (Policy_Delete (env_vpp env))))
     (andthen (over_map Profiles Profiles_update (\<lambda>_ _. attempt (Policy_Delete (env_vpp env))))
     (andthen (over_map IPSets IPSets_update (\<lambda>_ _. attempt (IPSet_Delete (env_vpp env))))
              (over_map HostEndpoints HostEndpoints_update
                (\<lambda>srv _ s. whenC (length (UplinkSwIfIndexes (fst s)) \<noteq> 0)
                   (attempt (HostEndpoint_Delete (env_vpp env) (policies srv))) s)))))"

definition swap_states :: "Server \<Rightarrow> Server" where
  "swap_states s = s\<lparr>configuredState := pendingState s, pendingState := NewPolicyState\<rparr>"

definition create_configured :: "felix_env \<Rightarrow> handler" where
  "create_configured env =
     andthen (over_map IPSets IPSets_update (\<lambda>_ _. IPSet_Create (env_vpp env)))
     (andthen (over_map Profiles Profiles_update (\<lambda>srv _. Policy_Create (env_vpp env) (IPSets (configuredState srv))))
     (andthen (over_map Policies Policies_update (\<lambda>srv _. Policy_Create (env_vpp env) (IPSets (configuredState srv))))
     (andthen (over_map WorkloadEndpoints WorkloadEndpoints_update
                (\<lambda>srv i. case mget (endpointsInterfaces srv) i of
                   None \<Rightarrow> skip
                 | Some intf \<Rightarrow> WorkloadEndpoint_Create (env_vpp env) (policies srv) (mvals intf)
                                  (configuredState srv) (WE_Network i)))
              (over_map HostEndpoints HostEndpoints_update
                (\<lambda>srv _. HostEndpoint_Create (env_vpp env) (policies srv) (configuredState srv))))))"

definition applyPendingState :: "felix_env \<Rightarrow> handler" where
  "applyPendingState env =
     andthen (cleanup_configured env) (andthen (on_server swap_states) (create_configured env))"

definition handleInSync :: "felix_env \<Rightarrow> handler" where
  "handleInSync env s =
     (if sync_state (fst s) \<noteq> StateSyncing then fail ENotSyncing s
      else andthen (on_server (\<lambda>s. s\<lparr>sync_state := StateInSync\<rparr>)) (applyPendingState env) s)"

section \<open>Events of the other components\<close>

record LocalPodSpec =
  Pod_OrchestratorID :: string
  Pod_WorkloadID :: string
  Pod_EndpointID :: string
  Pod_NetworkName :: string
  Pod_InterfaceName :: string
  Pod_TunTapSwIfIndex :: u32
  Pod_MemifSwIfIndex :: u32
  Pod_ContainerIPs :: "ip list"

definition GetContainerIPs :: "LocalPodSpec \<Rightarrow> ipnet list" where
  "GetContainerIPs pod = map (\<lambda>a. \<lparr>IPNet_IP = a, IPNet_Mask = GetMaxCIDRMask a\<rparr>) (Pod_ContainerIPs pod)"

definition pod_wep_id :: "LocalPodSpec \<Rightarrow> WorkloadEndpointID" where
  "pod_wep_id pod = \<lparr>OrchestratorID = Pod_OrchestratorID pod, WorkloadID = Pod_WorkloadID pod,
     EndpointID = Pod_EndpointID pod, WE_Network = Pod_NetworkName pod\<rparr>"

text \<open>The set of all pods, on which an error is logged; a nil set panics.\<close>

definition all_pods_change :: "(string list \<Rightarrow> bool \<Rightarrow> (IPSet \<times> vhist, go_error) cmd) \<Rightarrow> ipnet list \<Rightarrow> handler" where
  "all_pods_change op containerIPs s =
     (case allPodsIpset (fst s) of
        None \<Rightarrow> panic s
      | Some i \<Rightarrow>
          attempt (on_sub (op (map (\<lambda>n. ip_String (IPNet_IP n)) containerIPs) True) i
            (\<lambda>i' s. s\<lparr>allPodsIpset := Some i'\<rparr>)) s)"

definition workloadAdded :: "felix_env \<Rightarrow> WorkloadEndpointID \<Rightarrow> u32 \<Rightarrow> string \<Rightarrow> ipnet list \<Rightarrow> handler" where
  "workloadAdded env i swIfIndex ifName containerIPs s =
     (let intf = mget (endpointsInterfaces (fst s)) i in
      if (case intf of None \<Rightarrow> False | Some m \<Rightarrow> swIfIndex \<in> set (mvals m)) then skip s
      else andthen
        (on_server (endpointsInterfaces_update (mput i
           (case intf of None \<Rightarrow> [(ifName, swIfIndex)] | Some m \<Rightarrow> mput ifName swIfIndex m))))
        (andthen
           (\<lambda>s. if sync_state (fst s) = StateInSync then
                  (case mget (WorkloadEndpoints (configuredState (fst s))) i of
                     None \<Rightarrow> skip s
                   | Some wep \<Rightarrow>
                       attempt (on_sub (WorkloadEndpoint_Create (env_vpp env) (policies (fst s)) [swIfIndex]
                                  (configuredState (fst s)) (WE_Network i)) wep
                         (\<lambda>w'. upd_state False (WorkloadEndpoints_update (mput i w')))) s)
                else skip s)
           (all_pods_change (AddMembers (env_vpp env)) containerIPs)) s)"

definition WorkloadRemoved :: "felix_env \<Rightarrow> WorkloadEndpointID \<Rightarrow> ipnet list \<Rightarrow> handler" where
  "WorkloadRemoved env i containerIPs s =
     (if \<not> mhas (endpointsInterfaces (fst s)) i then skip s
      else andthen
        (if sync_state (fst s) = StateInSync then
           (case mget (WorkloadEndpoints (configuredState (fst s))) i of
              None \<Rightarrow> skip
            | Some wep \<Rightarrow>
                attempt (on_sub WorkloadEndpoint_Delete wep
                  (\<lambda>w'. upd_state False (WorkloadEndpoints_update (mput i w')))))
         else skip)
        (andthen (on_server (endpointsInterfaces_update (mdel i)))
           (all_pods_change (RemoveMembers (env_vpp env)) containerIPs)) s)"

datatype server_event =
    NetAddedOrUpdated NetworkDefinition
  | NetDeleted NetworkDefinition
  | PodAdded LocalPodSpec
  | PodDeleted "LocalPodSpec option"
  | TunnelAdded u32
  | TunnelDeleted u32

text \<open>A tunnel is told to every host endpoint of the current state.\<close>

definition tunnel_change :: "felix_env \<Rightarrow> u32 \<Rightarrow> bool \<Rightarrow> handler" where
  "tunnel_change env swIfIndex isAdd =
     andthen (on_server (tunnelSwIfIndexes_update (if isAdd then mput swIfIndex True else mdel swIfIndex)))
       (\<lambda>s. case sync_state (fst s) of
              StateDisconnected \<Rightarrow> fail ENotSyncing s
            | st \<Rightarrow>
                (let pending = (st \<noteq> StateInSync) in
                 on_sub (map_foreach (\<lambda>_. handleTunnelChange (env_vpp env) swIfIndex isAdd pending))
                   (HostEndpoints (currentState pending (fst s)))
                   (\<lambda>m. upd_state pending (HostEndpoints_update (\<lambda>_. m))) s))"

fun handleFelixServerEvents :: "felix_env \<Rightarrow> server_event \<Rightarrow> handler" where
  "handleFelixServerEvents env (NetAddedOrUpdated netDef) s =
     on_server (networkDefinitions_update (mput (ND_Name netDef) netDef)) s"
| "handleFelixServerEvents env (NetDeleted netDef) s =
     on_server (networkDefinitions_update (mdel (ND_Name netDef))) s"
| "handleFelixServerEvents env (PodAdded pod) s =
     workloadAdded env (pod_wep_id pod)
       (if Pod_TunTapSwIfIndex pod = InvalidID then Pod_MemifSwIfIndex pod else Pod_TunTapSwIfIndex pod)
       (Pod_InterfaceName pod) (GetContainerIPs pod) s"
| "handleFelixServerEvents env (PodDeleted None) s = skip s"
| "handleFelixServerEvents env (PodDeleted (Some pod)) s =
     WorkloadRemoved env (pod_wep_id pod) (GetContainerIPs pod) s"
| "handleFelixServerEvents env (TunnelAdded swIfIndex) s = tunnel_change env swIfIndex True s"
| "handleFelixServerEvents env (TunnelDeleted swIfIndex) s = tunnel_change env swIfIndex False s"

section \<open>Messages\<close>

datatype felix_msg =
    M_ConfigUpdate "(string, string) gomap"
  | M_InSync
  | M_IPSetUpdate IPSetUpdate
  | M_IPSetDeltaUpdate string "string list" "string list"
  | M_IPSetRemove string
  | M_ActivePolicyUpdate ActivePolicyUpdate
  | M_ActivePolicyRemove proto_PolicyID
  | M_ActiveProfileUpdate string proto_Profile
  | M_ActiveProfileRemove string
  | M_HostEndpointUpdate HostEndpointID proto_HostEndpoint
  | M_HostEndpointRemove HostEndpointID
  | M_WorkloadEndpointUpdate WorkloadEndpointUpdate
  | M_WorkloadEndpointRemove proto_WorkloadEndpointID
  | M_HostMetadataV4V6Update HostMetadataV4V6Update
  | M_HostMetadataV4V6Remove string
  | M_IPAMPoolUpdate string IPAMPool
  | M_IPAMPoolRemove string
  | M_GlobalBGPConfigUpdate
  | M_WireguardEndpointUpdate string string
  | M_Ignored

text \<open>The messages with a handler that does nothing but log are \<open>M_Ignored\<close>: host metadata without
  addresses, service accounts, namespaces, removal of a Wireguard endpoint, and unknown messages.\<close>

fun handle_in_state :: "felix_env \<Rightarrow> felix_msg \<Rightarrow> bool \<Rightarrow> handler" where
  "handle_in_state env (M_IPSetUpdate m) pending s = handleIpsetUpdate env m pending s"
| "handle_in_state env (M_IPSetDeltaUpdate i add rem) pending s = handleIpsetDeltaUpdate env i add rem pending s"
| "handle_in_state env (M_IPSetRemove i) pending s = handleIpsetRemove env i pending s"
| "handle_in_state env (M_ActivePolicyUpdate m) pending s = handleActivePolicyUpdate env m pending s"
| "handle_in_state env (M_ActivePolicyRemove i) pending s = handleActivePolicyRemove env i pending s"
| "handle_in_state env (M_ActiveProfileUpdate i p) pending s = handleActiveProfileUpdate env i p pending s"
| "handle_in_state env (M_ActiveProfileRemove i) pending s = handleActiveProfileRemove env i pending s"
| "handle_in_state env (M_HostEndpointUpdate i e) pending s = handleHostEndpointUpdate env i e pending s"
| "handle_in_state env (M_HostEndpointRemove i) pending s = handleHostEndpointRemove env i pending s"
| "handle_in_state env (M_WorkloadEndpointUpdate m) pending s = handleWorkloadEndpointUpdate env m pending s"
| "handle_in_state env (M_WorkloadEndpointRemove i) pending s = handleWorkloadEndpointRemove env i pending s"
| "handle_in_state env (M_HostMetadataV4V6Update m) pending s = handleHostMetadataV4V6Update env m pending s"
| "handle_in_state env (M_HostMetadataV4V6Remove n) pending s = handleHostMetadataV4V6Remove env n pending s"
| "handle_in_state env (M_IPAMPoolUpdate i p) pending s = handleIpamPoolUpdate env i p pending s"
| "handle_in_state env (M_IPAMPoolRemove i) pending s = handleIpamPoolRemove env i pending s"
| "handle_in_state env M_GlobalBGPConfigUpdate pending s = handleGlobalBGPConfigUpdate pending s"
| "handle_in_state env (M_WireguardEndpointUpdate n k) pending s = handleWireguardEndpointUpdate n k pending s"
| "handle_in_state env _ pending s = skip s"

definition handleFelixUpdate :: "felix_env \<Rightarrow> felix_msg \<Rightarrow> handler" where
  "handleFelixUpdate env msg s =
     (case msg of
        M_ConfigUpdate raw \<Rightarrow> handleConfigUpdate env raw s
      | M_InSync \<Rightarrow> handleInSync env s
      | _ \<Rightarrow>
          (case sync_state (fst s) of
             StateSyncing \<Rightarrow> handle_in_state env msg True s
           | StateInSync \<Rightarrow> handle_in_state env msg False s
           | _ \<Rightarrow> fail ENotSyncing s))"

end
