(* ===== verification/FelixReconcile.thy ===== *)
theory FelixReconcile
  imports FelixSync
begin

text \<open>
  What \<open>applyPendingState\<close> of \<open>felix/felix_server.go\<close> achieves when Felix reports that it is in sync:
  which calls each stage makes, that creating an object leaves the installed ones alone, and that after
  a successful reconciliation VPP holds every set, profile and policy of the new state. Then the
  properties of the protocol: what messages do while syncing, and which changes are lost.
\<close>

section \<open>Which calls a command makes\<close>

datatype call_kind = SetCall | RuleCall | PolicyCall | ConfCall | SnatCall

fun kind_of :: "vpp_call \<Rightarrow> call_kind" where
  "kind_of (NpolIpsetCreate _) = SetCall"
| "kind_of (NpolIpsetDelete _) = SetCall"
| "kind_of (NpolIpsetAddDelMembers _ _ _ _) = SetCall"
| "kind_of (NpolRuleCreate _) = RuleCall"
| "kind_of (NpolRuleUpdate _ _) = RuleCall"
| "kind_of (NpolRuleDelete _) = RuleCall"
| "kind_of (NpolPolicyCreate _) = PolicyCall"
| "kind_of (NpolPolicyUpdate _ _) = PolicyCall"
| "kind_of (NpolPolicyDelete _) = PolicyCall"
| "kind_of (NpolConfigurePolicies _) = ConfCall"
| "kind_of (CnatSetSnatAddressesV2 _ _) = SnatCall"
| "kind_of (CnatSnatPolicyAddDelExcludePfx _ _) = SnatCall"

text \<open>\<open>h'\<close> continues \<open>h\<close> with calls of the given kinds only.\<close>

definition grows :: "call_kind set \<Rightarrow> vhist \<Rightarrow> vhist \<Rightarrow> bool" where
  "grows K h h' \<longleftrightarrow> (\<exists>ys. h' = ys @ h \<and> (\<forall>x \<in> set ys. kind_of (fst x) \<in> K))"

lemma grows_refl [simp]: "grows K h h"
  by (simp add: grows_def)

lemma grows_trans: "grows K h h' \<Longrightarrow> grows K h' h'' \<Longrightarrow> grows K h h''"
  by (fastforce simp: grows_def)

lemma grows_mono: "grows K h h' \<Longrightarrow> K \<subseteq> K' \<Longrightarrow> grows K' h h'"
  unfolding grows_def by blast

lemma grows_Cons: "kind_of c \<in> K \<Longrightarrow> grows K h ((c, r) # h)"
  unfolding grows_def by (rule exI [of _ "[(c, r)]"]) simp

lemma grows_induct:
  assumes "grows K h h'" "P h" "\<And>c r g. kind_of c \<in> K \<Longrightarrow> P g \<Longrightarrow> P ((c, r) # g)"
  shows "P h'"
proof -
  obtain ys where ys: "h' = ys @ h" "\<forall>x \<in> set ys. kind_of (fst x) \<in> K"
    using assms(1) by (auto simp: grows_def)
  have "P (ys @ h)" if "\<forall>x \<in> set ys. kind_of (fst x) \<in> K" for ys
    using that by (induction ys) (auto simp: assms(2) intro: assms(3))
  with ys show ?thesis by simp
qed

lemma vpp_members_step: "kind_of c \<noteq> SetCall \<Longrightarrow> vpp_members ((c, r) # h) = vpp_members h"
  by (cases c; cases r) (auto simp: fun_eq_iff)

lemma vpp_rule_step: "kind_of c \<noteq> RuleCall \<Longrightarrow> vpp_rule ((c, r) # h) = vpp_rule h"
  by (cases c; cases r) (auto simp: fun_eq_iff)

lemma vpp_policy_step: "kind_of c \<noteq> PolicyCall \<Longrightarrow> vpp_policy ((c, r) # h) = vpp_policy h"
  by (cases c; cases r) (auto simp: fun_eq_iff)

lemma grows_members: "grows K h h' \<Longrightarrow> SetCall \<notin> K \<Longrightarrow> vpp_members h' = vpp_members h"
  by (erule grows_induct [where P = "\<lambda>g. vpp_members g = vpp_members h"]) (simp, metis vpp_members_step)

lemma grows_rule: "grows K h h' \<Longrightarrow> RuleCall \<notin> K \<Longrightarrow> vpp_rule h' = vpp_rule h"
  by (erule grows_induct [where P = "\<lambda>g. vpp_rule g = vpp_rule h"]) (simp, metis vpp_rule_step)

lemma grows_policy: "grows K h h' \<Longrightarrow> PolicyCall \<notin> K \<Longrightarrow> vpp_policy h' = vpp_policy h"
  by (erule grows_induct [where P = "\<lambda>g. vpp_policy g = vpp_policy h"]) (simp, metis vpp_policy_step)

text \<open>The sets that exist in VPP.\<close>

fun live_sets :: "vhist \<Rightarrow> u32 set" where
  "live_sets [] = {}"
| "live_sets ((NpolIpsetCreate _, VppReply i) # h) = insert i (live_sets h)"
| "live_sets ((NpolIpsetDelete i, VppReply _) # h) = live_sets h - {i}"
| "live_sets (_ # h) = live_sets h"

lemma live_sets_step: "kind_of c \<noteq> SetCall \<Longrightarrow> live_sets ((c, r) # h) = live_sets h"
  by (cases c; cases r) auto

lemma grows_live_sets: "grows K h h' \<Longrightarrow> SetCall \<notin> K \<Longrightarrow> live_sets h' = live_sets h"
  by (erule grows_induct [where P = "\<lambda>g. live_sets g = live_sets h"]) (simp, metis live_sets_step)

text \<open>Commands whose calls are of the given kinds, whatever their outcome.\<close>

definition makes :: "call_kind set \<Rightarrow> ('o \<times> vhist, go_error) cmd \<Rightarrow> bool" where
  "makes K c \<longleftrightarrow> (\<forall>s. grows K (snd s) (snd (snd (c s))))"

named_theorems makes_intros \<open>rules for the kinds of calls of a command\<close>

lemma makesD: "makes K c \<Longrightarrow> c (obj, h) = (st, (obj', h')) \<Longrightarrow> grows K h h'"
  unfolding makes_def by (metis snd_conv)

lemma makes_skip [makes_intros]: "makes K skip" "makes K (fail e)" "makes K panic" "makes K (on_obj f)"
  by (simp_all add: makes_def go_defs)

lemma makes_andthen [makes_intros]: "makes K c \<Longrightarrow> makes K d \<Longrightarrow> makes K (andthen c d)"
  unfolding makes_def andthen_def
  by (auto split: prod.splits status.splits) (metis grows_trans snd_conv)+

lemma makes_attempt [makes_intros]: "makes K c \<Longrightarrow> makes K (attempt c)"
proof -
  have "snd (attempt c s) = snd (c s)" for s by (simp add: attempt_def split: prod.splits status.splits)
  then show "makes K c \<Longrightarrow> makes K (attempt c)" by (simp add: makes_def)
qed

lemma makes_whenC [makes_intros]: "(b \<Longrightarrow> makes K c) \<Longrightarrow> makes K (whenC b c)"
  by (simp add: whenC_def makes_skip)

lemma makes_with_conf [makes_intros]: "(\<And>c. r = Ret c \<Longrightarrow> makes K (k c)) \<Longrightarrow> makes K (with_conf r k)"
  by (cases r) (auto simp: with_conf_def makes_skip)

lemma makes_on_vpp: "(\<And>h. grows K h (snd (c h))) \<Longrightarrow> makes K (on_vpp c)"
  by (simp add: makes_def on_vpp_def split: prod.splits) (metis snd_conv)

lemma makes_dep: "(\<And>a. makes K (c a)) \<Longrightarrow> makes K (\<lambda>s. c (fst s) s)"
  by (simp add: makes_def)

lemma grows_exec: "kind_of c \<in> K \<Longrightarrow> grows K h (snd (vpp_exec vpp c h))"
  by (auto simp: vpp_exec_def call_def Let_def split: vpp_reply.splits intro: grows_Cons)

lemma grows_configure_all: "grows {ConfCall} h (snd (configure_all vpp conf rxtx sws h))"
  unfolding configure_all_def
proof (induction sws arbitrary: h)
  case (Cons sw sws)
  have "grows {ConfCall} h (snd (ConfigurePolicies vpp sw conf rxtx h))"
    by (simp add: ConfigurePolicies_def grows_exec)
  then show ?case
    by (auto split: prod.splits status.splits) (metis Cons.IH grows_trans snd_conv)
qed simp

lemma makes_configure [makes_intros]: "makes {ConfCall} (on_vpp (configure_all vpp conf rxtx sws))"
  by (intro makes_on_vpp grows_configure_all)

lemma makes_foreach_mut:
  assumes "makes K f"
  shows "makes K (foreach_mut f)"
proof -
  have "grows K h (snd (snd (foreach_mut f (xs, h))))" for xs h
  proof (induction xs arbitrary: h)
    case (Cons x xs)
    obtain st x' h' where f: "f (x, h) = (st, (x', h'))" by (metis surj_pair)
    with assms have "grows K h h'" by (rule makesD)
    with f Cons.IH [of h'] show ?case
      by (cases st) (auto split: prod.splits intro: grows_trans)
  qed simp
  then show ?thesis by (simp add: makes_def)
qed

lemma makes_Rule_Create: "Rule_Create vpp ipsets (r, h) = (st, (r', h')) \<Longrightarrow> grows {RuleCall} h h'"
  by (erule Rule_Create_cases) (simp_all add: grows_Cons)

lemma grows_create_loop:
  "foreach_mut (create_and_record vpp ipsets) (rs, (ids, h)) = (st, (rs', (ids', h'))) \<Longrightarrow> grows {RuleCall} h h'"
proof (induction rs arbitrary: ids h rs')
  case (Cons r rs)
  from Cons.prems show ?case
  proof (cases rule: foreach_mut_Cons_cases)
    case (stop r1)
    then show ?thesis using create_and_record_cases(1) makes_Rule_Create by blast
  next
    case (go r1 s1 rs2)
    obtain ids1 h1 where s1: "s1 = (ids1, h1)" by (cases s1)
    have "grows {RuleCall} h h1" using create_and_record_cases(1) [OF go(1) [unfolded s1]] by (rule makes_Rule_Create)
    moreover have "grows {RuleCall} h1 h'" using Cons.IH [OF go(2) [unfolded s1]] .
    ultimately show ?thesis by (rule grows_trans)
  qed
qed simp

lemma makes_createRules: "makes {RuleCall} (createRules vpp ipsets)"
proof -
  have loop: "grows {RuleCall} h (snd (snd (snd (foreach_mut (create_and_record vpp ipsets) (rs, (ids, h))))))" for rs ids h
    using grows_create_loop [of vpp ipsets rs ids h] by (metis prod.collapse)
  have "makes {RuleCall} (create_inbound vpp ipsets)" "makes {RuleCall} (create_outbound vpp ipsets)"
    using loop by (simp_all add: makes_def create_inbound_def create_outbound_def case_prod_unfold)
  then show ?thesis unfolding createRules_def by (rule makes_andthen)
qed

lemma makes_mono: "makes K c \<Longrightarrow> K \<subseteq> K' \<Longrightarrow> makes K' c"
  unfolding makes_def by (meson grows_mono)

lemma makes_Policy_Create: "makes {RuleCall, PolicyCall} (Policy_Create vpp ipsets)"
proof -
  have "makes {RuleCall, PolicyCall} (\<lambda>s. case PolicyCreate vpp (FP_Policy (fst s)) (snd s) of
      (None, h') \<Rightarrow> (Fail EVpp, (fst s, h')) | (Some i, h') \<Rightarrow> (Done, ((fst s)\<lparr>FP_VppID := i\<rparr>, h')))"
    by (auto simp: makes_def PolicyCreate_def vpp_create_def call_def Let_def split: vpp_reply.splits prod.splits
        intro: grows_Cons)
  then show ?thesis unfolding Policy_Create_def
    by (intro makes_andthen makes_mono [OF makes_createRules]) auto
qed

lemma makes_WorkloadEndpoint_Create: "makes {ConfCall} (WorkloadEndpoint_Create vpp srv sws state network)"
  unfolding WorkloadEndpoint_Create_def [abs_def]
  by (rule makes_dep [where c = "\<lambda>w. with_conf (getWorkloadPolicies srv w state network) (\<lambda>conf.
       andthen (on_vpp (configure_all vpp conf 0 sws)) (on_obj (WEP_SwIfIndex_update (\<lambda>l. l @ sws))))"])
    (intro makes_intros)

lemma makes_hep_configure: "makes {ConfCall} (hep_configure vpp srv src state)"
  unfolding hep_configure_def
  by (intro makes_with_conf makes_andthen makes_skip
      makes_dep [where c = "\<lambda>e. on_vpp (configure_all vpp conf 1 (UplinkSwIfIndexes e @ TunnelSwIfIndexes e))" for conf]
      makes_dep [where c = "\<lambda>e. on_vpp (configure_all vpp conf 0 (TapSwIfIndexes e))" for conf] makes_configure)

lemma makes_HostEndpoint_Create: "makes {ConfCall} (HostEndpoint_Create vpp srv state)"
  unfolding HostEndpoint_Create_def [abs_def]
  by (rule makes_dep [where c = "\<lambda>e. hep_configure vpp srv e state"]) (rule makes_hep_configure)

section \<open>Loops over maps\<close>

lemma map_foreach_Done:
  assumes "map_foreach c (m, h) = (Done, (m', h'))" "J h"
    and step: "\<And>k v h v' h'. J h \<Longrightarrow> (k, v) \<in> set m \<Longrightarrow> c k (v, h) = (Done, (v', h')) \<Longrightarrow>
      J h' \<and> Q k v v' \<and> G v' h' \<and> (\<forall>w. G w h \<longrightarrow> G w h')"
  shows "J h' \<and> list_all2 (\<lambda>p p'. fst p' = fst p \<and> Q (fst p) (snd p) (snd p')) m m' \<and> (\<forall>v \<in> set (mvals m'). G v h') \<and>
    (\<forall>w. G w h \<longrightarrow> G w h')"
  using assms
proof (induction m arbitrary: h m')
  case Nil
  then show ?case by (simp add: map_foreach_def)
next
  case (Cons p m)
  obtain k v where p: "p = (k, v)" by (cases p)
  from Cons.prems(1) [unfolded map_foreach_def p] show ?case
  proof (cases rule: foreach_mut_Cons_cases)
    case stop
    then show ?thesis by simp
  next
    case (go p1 h1 m1)
    then obtain v1 where c: "c k (v, h) = (Done, (v1, h1))" "p1 = (k, v1)"
      by (auto split: prod.splits)
    have s: "J h1 \<and> Q k v v1 \<and> G v1 h1 \<and> (\<forall>w. G w h \<longrightarrow> G w h1)"
      using Cons.prems(3) [OF Cons.prems(2) _ c(1)] p by simp
    have "J h' \<and> list_all2 (\<lambda>p p'. fst p' = fst p \<and> Q (fst p) (snd p) (snd p')) m m1 \<and>
        (\<forall>v \<in> set (mvals m1). G v h') \<and> (\<forall>w. G w h1 \<longrightarrow> G w h')"
    proof (rule Cons.IH)
      show "map_foreach c (m, h1) = (Done, (m1, h'))" using go(2) by (simp add: map_foreach_def)
      show "J h1" using s by blast
    qed (rule Cons.prems(3), simp_all)
    with s go(3) c(2) p show ?thesis by simp
  qed
qed

lemma over_map_Done:
  assumes "over_map sel setm c (s, h) = (Done, (s', h'))"
  obtains m' where "map_foreach (c s) (sel (configuredState s), h) = (Done, (m', h'))"
    "s' = configuredState_update (setm (\<lambda>_. m')) s"
  using assms by (auto simp: over_map_def on_sub_def split: prod.splits)

section \<open>Creating sets and policies beside others\<close>

definition fresh_set_ids :: "vpp \<Rightarrow> bool" where
  "fresh_set_ids vpp \<longleftrightarrow> (\<forall>h ty i. vpp h (NpolIpsetCreate ty) = VppReply i \<longrightarrow> i \<notin> live_sets h)"

definition fresh_policy_ids :: "vpp \<Rightarrow> bool" where
  "fresh_policy_ids vpp \<longleftrightarrow> (\<forall>h items i. vpp h (NpolPolicyCreate items) = VppReply i \<longrightarrow> vpp_policy h i = None)"

text \<open>A set of the agent is created: it exists in VPP, with its members.\<close>

definition set_installed :: "IPSet \<Rightarrow> vhist \<Rightarrow> bool" where
  "set_installed i h \<longleftrightarrow> IPS_VppID i \<in> live_sets h \<and> in_sync i h"

definition wire_members :: "IPSet \<Rightarrow> NpolIpsetMember list" where
  "wire_members i =
     (case IPS_Type i of
        IpsetTypeIP \<Rightarrow> map enc_ip (mvals (Addresses i))
      | IpsetTypeIPPort \<Rightarrow> map enc_ipport (mvals (IPPorts i))
      | IpsetTypeNet \<Rightarrow> map enc_net (mvals (Networks i)))"

lemma set_wire_members: "set (wire_members i) = told_members i"
  by (simp add: wire_members_def told_members_def split: IpsetType.splits)

lemma push_members_exec:
  "push_members vpp isAdd i =
   vpp_exec vpp (NpolIpsetAddDelMembers (IPS_VppID i) isAdd (of_nat (length (wire_members i))) (wire_members i))"
  by (simp add: push_members_def wire_members_def ipset_maps ipk.push ippk.push netk.push split: IpsetType.splits)

lemma IPSet_Create_installed:
  assumes "fresh_set_ids vpp" "IPSet_Create vpp (i, h) = (Done, (i', h'))"
  shows "set_installed i' h' \<and> told_members i' = told_members i \<and> member_keys i' = member_keys i \<and> (ipset_inv i \<longrightarrow> ipset_inv i') \<and>
    (\<forall>w. set_installed w h \<longrightarrow> set_installed w h')"
proof -
  obtain j where j: "vpp h (NpolIpsetCreate (IPS_Type i)) = VppReply j" "i' = i\<lparr>IPS_VppID := j\<rparr>"
    "push_members vpp True i' ((NpolIpsetCreate (IPS_Type i), VppReply j) # h) = (Done, h')"
    using assms(2) by (auto simp: IPSet_Create_def IpsetCreate_def vpp_create_def call_def Let_def on_vpp_eq
        split: vpp_reply.splits)
  obtain v where h': "h' = (NpolIpsetAddDelMembers j True (of_nat (length (wire_members i'))) (wire_members i'), VppReply v) #
      (NpolIpsetCreate (IPS_Type i), VppReply j) # h"
    using j(2,3) by (auto simp: push_members_exec vpp_exec_def call_def Let_def split: vpp_reply.splits)
  have fresh: "j \<notin> live_sets h" using assms(1) j(1) by (auto simp: fresh_set_ids_def)
  have same: "told_members i' = told_members i" "member_keys i' = member_keys i" "ipset_inv i \<longrightarrow> ipset_inv i'"
    using j(2) by (auto simp: told_members_def member_keys_def ipset_inv_def split: IpsetType.splits)
  have "set_installed i' h'" using h' set_wire_members [of i'] j(2) by (simp add: set_installed_def in_sync_def)
  moreover have "set_installed w h'" if "set_installed w h" for w
    using that h' fresh by (auto simp: set_installed_def in_sync_def)
  ultimately show ?thesis using same by blast
qed

text \<open>The rule as created: as it was, with its set names replaced by the identifiers of the sets, and with the
  identifier VPP gave it.\<close>

definition rule_as_created :: "(string, IPSet) gomap \<Rightarrow> FRule \<Rightarrow> FRule \<Rightarrow> bool" where
  "rule_as_created ipsets r r' \<longleftrightarrow> r' = r\<lparr>FR_Rule := resolved ipsets r, FR_VppID := FR_VppID r'\<rparr> \<and>
     (\<forall>n \<in> set (set_names r). set_id ipsets n \<noteq> InvalidID)"

definition policy_as_created :: "(string, IPSet) gomap \<Rightarrow> FPolicy \<Rightarrow> FPolicy \<Rightarrow> bool" where
  "policy_as_created ipsets p p' \<longleftrightarrow> list_all2 (rule_as_created ipsets) (InboundRules p) (InboundRules p') \<and>
     list_all2 (rule_as_created ipsets) (OutboundRules p) (OutboundRules p')"

lemma resolve_status_Done: "resolve_status ipsets ns = Done \<longleftrightarrow> (\<forall>n \<in> set ns. set_id ipsets n \<noteq> InvalidID)"
proof -
  have "fst (resolve_sets ipsets acc ns) = Done \<longleftrightarrow> (\<forall>n \<in> set ns. set_id ipsets n \<noteq> InvalidID)" for acc
    by (induction ns arbitrary: acc) (auto simp: set_id_def split: option.splits)
  then show ?thesis by (simp add: resolve_status_def)
qed

lemma Rule_Create_as_created:
  assumes "Rule_Create vpp ipsets (r, h) = (Done, (r', h'))"
  shows "rule_as_created ipsets r r'"
proof -
  have "fst (resolve_all ipsets (r, h)) = Done"
    using assms unfolding Rule_Create_def by (cases rule: andthen_cases) auto
  then have ready: "\<forall>n \<in> set (set_names r). set_id ipsets n \<noteq> InvalidID"
    by (simp add: resolve_all_status resolve_status_Done)
  show ?thesis
    using assms ready
    by (auto simp: Rule_Create_def andthen_def resolve_all_ready [OF ready] RuleCreate_def vpp_create_def rule_as_created_def
        split: prod.splits option.splits vpp_reply.splits)
qed

lemma create_loop_as_created:
  "foreach_mut (create_and_record vpp ipsets) (rs, (ids, h)) = (Done, (rs', (ids', h'))) \<Longrightarrow>
   list_all2 (rule_as_created ipsets) rs rs'"
proof (induction rs arbitrary: ids h rs')
  case (Cons r rs)
  from Cons.prems show ?case
  proof (cases rule: foreach_mut_Cons_cases)
    case (go r1 s1 rs2)
    obtain ids1 h1 where s1: "s1 = (ids1, h1)" by (cases s1)
    show ?thesis
      using Rule_Create_as_created [OF create_and_record_cases(1) [OF go(1) [unfolded s1]]]
        Cons.IH [OF go(2) [unfolded s1]] go(3) by simp
  qed simp
qed simp

lemma createRules_as_created:
  "createRules vpp ipsets (p, h) = (Done, (p', h')) \<Longrightarrow> policy_as_created ipsets p p'"
  unfolding createRules_def policy_as_created_def
  by (erule andthen_cases)
    (auto simp: create_inbound_def create_outbound_def split: prod.splits dest!: create_loop_as_created)

lemma Policy_Create_beside:
  assumes "fresh_rule_ids vpp" "fresh_policy_ids vpp" "Policy_Create vpp ipsets (p, h) = (Done, (p', h'))"
  shows "policy_installed p' h' \<and> policy_as_created ipsets p p' \<and>
    (\<forall>q. policy_installed q h \<longrightarrow> policy_installed q h')"
proof -
  obtain s1 where s1: "createRules vpp ipsets (p, h) = (Done, s1)"
    "(case PolicyCreate vpp (FP_Policy (fst s1)) (snd s1) of (None, h') \<Rightarrow> (Fail EVpp, (fst s1, h'))
      | (Some i, h') \<Rightarrow> (Done, ((fst s1)\<lparr>FP_VppID := i\<rparr>, h'))) = (Done, (p', h'))"
    using assms(3) unfolding Policy_Create_def by (cases rule: andthen_cases) auto
  obtain p1 h1 where p1: "s1 = (p1, h1)" by (cases s1)
  obtain i where s: "createRules vpp ipsets (p, h) = (Done, (p1, h1))" "p' = p1\<lparr>FP_VppID := i\<rparr>"
    "vpp h1 (NpolPolicyCreate (ToNpolPolicy (FP_Policy p1))) = VppReply i"
    "h' = (NpolPolicyCreate (ToNpolPolicy (FP_Policy p1)), VppReply i) # h1"
    using s1 p1 by (auto simp: PolicyCreate_def vpp_create_def call_def Let_def split: vpp_reply.splits)
  note c = createRules_result [OF assms(1) s(1)]
  have none: "vpp_policy h1 i = None" using assms(2) s(3) by (auto simp: fresh_policy_ids_def)
  have "policy_installed p' h'"
    using c s(2,4) by (auto simp: policy_installed_def rules_created_def rules_of_def rule_installed_def)
  moreover have "policy_installed q h'" if "policy_installed q h" for q
    using that c none s(4) by (auto simp: policy_installed_def only_rules_added_def rule_installed_def)
  ultimately show ?thesis using createRules_as_created [OF s(1)] s(2) by (simp add: policy_as_created_def)
qed

section \<open>Reconciliation\<close>

definition all_installed :: "PolicyState \<Rightarrow> vhist \<Rightarrow> bool" where
  "all_installed st h \<longleftrightarrow> (\<forall>i \<in> set (mvals (IPSets st)). set_installed i h) \<and>
     (\<forall>p \<in> set (mvals (Profiles st)). policy_installed p h) \<and> (\<forall>p \<in> set (mvals (Policies st)). policy_installed p h)"

text \<open>Two states with the same sets, profiles and policies, up to what VPP assigns.\<close>

definition same_set :: "IPSet \<Rightarrow> IPSet \<Rightarrow> bool" where
  "same_set i i' \<longleftrightarrow> member_keys i' = member_keys i \<and> told_members i' = told_members i"

definition same_map_by :: "('v \<Rightarrow> 'v \<Rightarrow> bool) \<Rightarrow> ('k, 'v) gomap \<Rightarrow> ('k, 'v) gomap \<Rightarrow> bool" where
  "same_map_by R m m' \<longleftrightarrow> list_all2 (\<lambda>p p'. fst p' = fst p \<and> R (snd p) (snd p')) m m'"

definition same_content :: "PolicyState \<Rightarrow> PolicyState \<Rightarrow> bool" where
  "same_content st st' \<longleftrightarrow> same_map_by same_set (IPSets st) (IPSets st') \<and>
     same_map_by (policy_as_created (IPSets st')) (Profiles st) (Profiles st') \<and>
     same_map_by (policy_as_created (IPSets st')) (Policies st) (Policies st')"

text \<open>An endpoint with an interface was configured with policies and profiles that all exist.\<close>

definition wep_configured :: "Server \<Rightarrow> PolicyState \<Rightarrow> WorkloadEndpointID \<Rightarrow> WorkloadEndpoint \<Rightarrow> WorkloadEndpoint \<Rightarrow> bool" where
  "wep_configured s st i w w' \<longleftrightarrow>
     (case mget (endpointsInterfaces s) i of
        None \<Rightarrow> w' = w
      | Some intf \<Rightarrow> w' = w\<lparr>WEP_SwIfIndex := WEP_SwIfIndex w @ mvals intf\<rparr> \<and>
          InvalidID \<notin> conf_ids (user_conf st (WEP_Tiers w) (WEP_Profiles w) (WE_Network i)))"

lemma set_installed_grows: "grows K h h' \<Longrightarrow> SetCall \<notin> K \<Longrightarrow> set_installed i h \<Longrightarrow> set_installed i h'"
  by (simp add: set_installed_def in_sync_def grows_live_sets grows_members)

lemma policy_installed_grows:
  "grows K h h' \<Longrightarrow> RuleCall \<notin> K \<Longrightarrow> PolicyCall \<notin> K \<Longrightarrow> policy_installed p h \<Longrightarrow> policy_installed p h'"
  by (simp add: policy_installed_def rule_installed_def grows_rule grows_policy)

lemma all_installed_grows: "grows {ConfCall} h h' \<Longrightarrow> all_installed st h \<Longrightarrow> all_installed st h'"
  unfolding all_installed_def using set_installed_grows policy_installed_grows by auto

lemma create_sets:
  assumes "fresh_set_ids vpp" "map_foreach (\<lambda>_. IPSet_Create vpp) (m, h) = (Done, (m', h'))"
  shows "same_map_by same_set m m' \<and> (\<forall>i \<in> set (mvals m'). set_installed i h')"
  using map_foreach_Done [OF assms(2), where J = "\<lambda>_. True" and Q = "\<lambda>_. same_set" and G = set_installed]
    IPSet_Create_installed [OF assms(1)] unfolding same_map_by_def same_set_def by blast

lemma create_policies:
  assumes "fresh_rule_ids vpp" "fresh_policy_ids vpp" "map_foreach (\<lambda>_. Policy_Create vpp ipsets) (m, h) = (Done, (m', h'))"
    "\<forall>i \<in> S. set_installed i h" "\<forall>p \<in> P. policy_installed p h"
  shows "same_map_by (policy_as_created ipsets) m m' \<and> (\<forall>p \<in> set (mvals m'). policy_installed p h') \<and>
    (\<forall>i \<in> S. set_installed i h') \<and> (\<forall>p \<in> P. policy_installed p h')"
proof -
  have step: "((\<forall>i \<in> S. set_installed i h') \<and> (\<forall>p \<in> P. policy_installed p h')) \<and> policy_as_created ipsets p p' \<and> policy_installed p' h' \<and>
      (\<forall>w. policy_installed w h \<longrightarrow> policy_installed w h')"
    if "(\<forall>i \<in> S. set_installed i h) \<and> (\<forall>p \<in> P. policy_installed p h)"
      "Policy_Create vpp ipsets (p, h) = (Done, (p', h'))" for h p p' h'
    using Policy_Create_beside [OF assms(1,2) that(2)] that(1)
      set_installed_grows [OF makesD [OF makes_Policy_Create that(2)]]
    by auto
  show ?thesis
    using map_foreach_Done [OF assms(3), where J = "\<lambda>h. (\<forall>i \<in> S. set_installed i h) \<and> (\<forall>p \<in> P. policy_installed p h)"
        and Q = "\<lambda>_. policy_as_created ipsets" and G = policy_installed] step assms(4,5)
    unfolding same_map_by_def by blast
qed

lemma create_weps:
  assumes "map_foreach (\<lambda>i. case mget ifs i of None \<Rightarrow> skip
      | Some intf \<Rightarrow> WorkloadEndpoint_Create vpp srv (mvals intf) st (WE_Network i)) (m, h) = (Done, (m', h'))"
    "endpointsInterfaces s = ifs"
  shows "list_all2 (\<lambda>p p'. fst p' = fst p \<and> wep_configured s st (fst p) (snd p) (snd p')) m m' \<and>
    (all_installed st h \<longrightarrow> all_installed st h')"
proof -
  have step: "(all_installed st0 h \<longrightarrow> all_installed st0 h') \<and> wep_configured s st i w w'"
    if "(case mget ifs i of None \<Rightarrow> skip
      | Some intf \<Rightarrow> WorkloadEndpoint_Create vpp srv (mvals intf) st (WE_Network i)) (w, h) = (Done, (w', h'))" for i w w' h h' st0
  proof (cases "mget ifs i")
    case None
    with that show ?thesis by (simp add: skip_def wep_configured_def assms(2))
  next
    case (Some intf)
    with that have c: "WorkloadEndpoint_Create vpp srv (mvals intf) st (WE_Network i) (w, h) = (Done, (w', h'))" by simp
    obtain conf where "getWorkloadPolicies srv w st (WE_Network i) = Ret conf"
      "w' = w\<lparr>WEP_SwIfIndex := WEP_SwIfIndex w @ mvals intf\<rparr>"
      using WorkloadEndpoint_Create_result [OF c] by auto
    then show ?thesis
      using getWorkloadPolicies_Ret all_installed_grows [OF makesD [OF makes_WorkloadEndpoint_Create c]] Some
      by (auto simp: wep_configured_def assms(2) Let_def)
  qed
  show ?thesis
    using map_foreach_Done [OF assms(1), where J = "\<lambda>h'. all_installed st h \<longrightarrow> all_installed st h'"
        and Q = "wep_configured s st" and G = "\<lambda>_ _. True"] step by blast
qed

lemma create_heps:
  assumes "map_foreach (\<lambda>_. HostEndpoint_Create vpp srv st) (m, h) = (Done, (m', h'))"
  shows "all_installed st0 h \<longrightarrow> all_installed st0 h'"
  using map_foreach_Done [OF assms, where J = "\<lambda>h'. all_installed st0 h \<longrightarrow> all_installed st0 h'"
      and Q = "\<lambda>_ _ _. True" and G = "\<lambda>_ _. True"]
    all_installed_grows makesD [OF makes_HostEndpoint_Create] by blast

lemma user_conf_cong:
  "Policies st' = Policies st \<Longrightarrow> Profiles st' = Profiles st \<Longrightarrow>
   user_conf st' tiers profiles network = user_conf st tiers profiles network"
  by (simp add: user_conf_def tier_ids_def)

lemma wep_configured_cong:
  "Policies st' = Policies st \<Longrightarrow> Profiles st' = Profiles st \<Longrightarrow> endpointsInterfaces s' = endpointsInterfaces s \<Longrightarrow>
   wep_configured s' st' = wep_configured s st"
  using user_conf_cong [of st' st] by (auto simp: wep_configured_def fun_eq_iff split: option.splits)

text \<open>The stages of a successful creation, with the maps they leave.\<close>

lemma create_configured_stages:
  assumes run: "create_configured env (s, h) = (Done, (s', h'))"
  obtains m1 h1 m2 h2 m3 h3 m4 h4 m5 s3 s4 where
    "map_foreach (\<lambda>_. IPSet_Create (env_vpp env)) (IPSets (configuredState s), h) = (Done, (m1, h1))"
    "map_foreach (\<lambda>_. Policy_Create (env_vpp env) m1) (Profiles (configuredState s), h1) = (Done, (m2, h2))"
    "map_foreach (\<lambda>_. Policy_Create (env_vpp env) m1) (Policies (configuredState s), h2) = (Done, (m3, h3))"
    "s3 = s\<lparr>configuredState := (configuredState s)\<lparr>IPSets := m1, Profiles := m2, Policies := m3\<rparr>\<rparr>"
    "map_foreach (\<lambda>i. case mget (endpointsInterfaces s) i of None \<Rightarrow> skip
       | Some intf \<Rightarrow> WorkloadEndpoint_Create (env_vpp env) (policies s3) (mvals intf) (configuredState s3) (WE_Network i))
       (WorkloadEndpoints (configuredState s), h3) = (Done, (m4, h4))"
    "s4 = s3\<lparr>configuredState := (configuredState s3)\<lparr>WorkloadEndpoints := m4\<rparr>\<rparr>"
    "map_foreach (\<lambda>_. HostEndpoint_Create (env_vpp env) (policies s4) (configuredState s4)) (HostEndpoints (configuredState s4), h4) =
       (Done, (m5, h'))"
    "s' = s4\<lparr>configuredState := (configuredState s4)\<lparr>HostEndpoints := m5\<rparr>\<rparr>"
proof -
  let ?vpp = "env_vpp env"
  obtain s1 h1 s2 h2 s3 h3 s4 h4 where
    o1: "over_map IPSets IPSets_update (\<lambda>_ _. IPSet_Create ?vpp) (s, h) = (Done, (s1, h1))" and
    o2: "over_map Profiles Profiles_update (\<lambda>srv _. Policy_Create ?vpp (IPSets (configuredState srv))) (s1, h1) = (Done, (s2, h2))" and
    o3: "over_map Policies Policies_update (\<lambda>srv _. Policy_Create ?vpp (IPSets (configuredState srv))) (s2, h2) = (Done, (s3, h3))" and
    o4: "over_map WorkloadEndpoints WorkloadEndpoints_update (\<lambda>srv i. case mget (endpointsInterfaces srv) i of None \<Rightarrow> skip
       | Some intf \<Rightarrow> WorkloadEndpoint_Create ?vpp (policies srv) (mvals intf) (configuredState srv) (WE_Network i)) (s3, h3)
     = (Done, (s4, h4))" and
    o5: "over_map HostEndpoints HostEndpoints_update
       (\<lambda>srv _. HostEndpoint_Create ?vpp (policies srv) (configuredState srv)) (s4, h4) = (Done, (s', h'))"
    using run unfolding create_configured_def andthen_Done by (elim exE conjE) (auto simp: split_paired_all)
  obtain m1 where m1: "map_foreach (\<lambda>_. IPSet_Create ?vpp) (IPSets (configuredState s), h) = (Done, (m1, h1))"
      "s1 = configuredState_update (IPSets_update (\<lambda>_. m1)) s" using o1 by (rule over_map_Done)
  obtain m2 where m2: "map_foreach (\<lambda>_. Policy_Create ?vpp m1) (Profiles (configuredState s), h1) = (Done, (m2, h2))"
      "s2 = configuredState_update (Profiles_update (\<lambda>_. m2)) s1" using o2 by (rule over_map_Done) (simp add: m1(2))
  obtain m3 where m3: "map_foreach (\<lambda>_. Policy_Create ?vpp m1) (Policies (configuredState s), h2) = (Done, (m3, h3))"
      "s3 = configuredState_update (Policies_update (\<lambda>_. m3)) s2" using o3 by (rule over_map_Done) (simp add: m1(2) m2(2))
  have ifs: "endpointsInterfaces s3 = endpointsInterfaces s" "WorkloadEndpoints (configuredState s3) = WorkloadEndpoints (configuredState s)"
    by (simp_all add: m1(2) m2(2) m3(2))
  obtain m4 where m4: "map_foreach (\<lambda>i. case mget (endpointsInterfaces s) i of None \<Rightarrow> skip
       | Some intf \<Rightarrow> WorkloadEndpoint_Create ?vpp (policies s3) (mvals intf) (configuredState s3) (WE_Network i))
       (WorkloadEndpoints (configuredState s), h3) = (Done, (m4, h4))"
      "s4 = configuredState_update (WorkloadEndpoints_update (\<lambda>_. m4)) s3" using o4 by (rule over_map_Done) (simp add: ifs)
  obtain m5 where
    m5: "map_foreach (\<lambda>_. HostEndpoint_Create ?vpp (policies s4) (configuredState s4)) (HostEndpoints (configuredState s4), h4) =
       (Done, (m5, h'))"
      "s' = configuredState_update (HostEndpoints_update (\<lambda>_. m5)) s4" using o5 by (rule over_map_Done)
  show thesis
    by (rule that [OF m1(1) m2(1) m3(1) _ m4(1) _ m5(1)]) (simp_all add: m1(2) m2(2) m3(2) m4(2) m5(2))
qed

lemma create_configured_installs:
  assumes fresh: "fresh_set_ids (env_vpp env)" "fresh_rule_ids (env_vpp env)" "fresh_policy_ids (env_vpp env)"
    and run: "create_configured env (s, h) = (Done, (s', h'))"
  shows "all_installed (configuredState s') h' \<and> same_content (configuredState s) (configuredState s') \<and>
    list_all2 (\<lambda>p p'. fst p' = fst p \<and> wep_configured s (configuredState s') (fst p) (snd p) (snd p'))
      (WorkloadEndpoints (configuredState s)) (WorkloadEndpoints (configuredState s')) \<and>
    pendingState s' = pendingState s"
proof -
  obtain m1 h1 m2 h2 m3 h3 m4 h4 m5 s3 s4 where
    m1: "map_foreach (\<lambda>_. IPSet_Create (env_vpp env)) (IPSets (configuredState s), h) = (Done, (m1, h1))" and
    m2: "map_foreach (\<lambda>_. Policy_Create (env_vpp env) m1) (Profiles (configuredState s), h1) = (Done, (m2, h2))" and
    m3: "map_foreach (\<lambda>_. Policy_Create (env_vpp env) m1) (Policies (configuredState s), h2) = (Done, (m3, h3))" and
    s3: "s3 = s\<lparr>configuredState := (configuredState s)\<lparr>IPSets := m1, Profiles := m2, Policies := m3\<rparr>\<rparr>" and
    m4: "map_foreach (\<lambda>i. case mget (endpointsInterfaces s) i of None \<Rightarrow> skip
       | Some intf \<Rightarrow> WorkloadEndpoint_Create (env_vpp env) (policies s3) (mvals intf) (configuredState s3) (WE_Network i))
       (WorkloadEndpoints (configuredState s), h3) = (Done, (m4, h4))" and
    s4: "s4 = s3\<lparr>configuredState := (configuredState s3)\<lparr>WorkloadEndpoints := m4\<rparr>\<rparr>" and
    m5: "map_foreach (\<lambda>_. HostEndpoint_Create (env_vpp env) (policies s4) (configuredState s4)) (HostEndpoints (configuredState s4), h4) =
       (Done, (m5, h'))" and
    s': "s' = s4\<lparr>configuredState := (configuredState s4)\<lparr>HostEndpoints := m5\<rparr>\<rparr>"
    using run by (rule create_configured_stages)
  note sets = create_sets [OF fresh(1) m1]
  note profs = create_policies [OF fresh(2,3) m2, where S = "set (mvals m1)" and P = "{}"]
  note pols = create_policies [OF fresh(2,3) m3, where S = "set (mvals m1)" and P = "set (mvals m2)"]
  have inst: "all_installed (configuredState s3) h3"
    using sets profs pols s3 by (simp add: all_installed_def)
  note weps = create_weps [OF m4 refl]
  have "all_installed (configuredState s3) h'"
    using inst weps create_heps [OF m5, of "configuredState s3"] by blast
  moreover have same: "IPSets (configuredState s') = m1" "Profiles (configuredState s') = m2" "Policies (configuredState s') = m3"
    "WorkloadEndpoints (configuredState s') = m4" "IPSets (configuredState s3) = m1" "Profiles (configuredState s3) = m2"
    "Policies (configuredState s3) = m3"
    using s3 s4 s' by simp_all
  moreover have "wep_configured s (configuredState s') = wep_configured s (configuredState s3)"
    by (rule wep_configured_cong) (simp_all add: same)
  ultimately show ?thesis
    using sets profs pols weps s3 s4 s' by (simp add: all_installed_def same_content_def)
qed

lemma over_map_pending: "pendingState (fst (snd (over_map sel setm c s))) = pendingState (fst s)"
  by (simp add: over_map_def on_sub_def split: prod.splits)

lemma over_map_interfaces: "endpointsInterfaces (fst (snd (over_map sel setm c s))) = endpointsInterfaces (fst s)"
  by (simp add: over_map_def on_sub_def split: prod.splits)

lemma cleanup_keeps:
  "preserves (\<lambda>s. pendingState (fst s) = st \<and> endpointsInterfaces (fst s) = ifs) (cleanup_configured env)"
  unfolding cleanup_configured_def
  by (intro preserves_andthen) (simp_all add: preserves_def over_map_pending over_map_interfaces)

lemma applyPendingState_result:
  assumes fresh: "fresh_set_ids (env_vpp env)" "fresh_rule_ids (env_vpp env)" "fresh_policy_ids (env_vpp env)"
    and run: "applyPendingState env (s, h) = (Done, (s', h'))"
  shows "pendingState s' = NewPolicyState \<and> all_installed (configuredState s') h' \<and>
    same_content (pendingState s) (configuredState s') \<and>
    list_all2 (\<lambda>p p'. fst p' = fst p \<and> wep_configured s (configuredState s') (fst p) (snd p) (snd p'))
      (WorkloadEndpoints (pendingState s)) (WorkloadEndpoints (configuredState s'))"
proof -
  obtain s1 h1 where c: "cleanup_configured env (s, h) = (Done, (s1, h1))" "create_configured env (swap_states s1, h1) = (Done, (s', h'))"
    using run unfolding applyPendingState_def andthen_Done by (auto simp: on_server_def on_obj_eq)
  have keep: "pendingState s1 = pendingState s" "endpointsInterfaces s1 = endpointsInterfaces s"
    using cleanup_keeps [of "pendingState s" "endpointsInterfaces s" env] c(1) unfolding preserves_def
    by (metis fst_conv snd_conv)+
  have cf: "wep_configured (swap_states s1) = wep_configured s"
    by (rule ext, rule wep_configured_cong) (simp_all add: swap_states_def keep)
  show ?thesis
    using create_configured_installs [OF fresh c(2)] unfolding cf by (simp add: swap_states_def keep)
qed

lemma policy_id_known: "policy_id pols network pid \<noteq> InvalidID \<Longrightarrow> policy_id pols network pid \<in> FP_VppID ` set (mvals pols)"
  by (auto simp: policy_id_def split: option.splits dest: mget_in_vals)

lemma profile_id_known: "profile_id profs name \<noteq> InvalidID \<Longrightarrow> profile_id profs name \<in> FP_VppID ` set (mvals profs)"
  by (auto simp: profile_id_def split: option.splits dest: mget_in_vals)

lemma user_policies_exist:
  assumes "all_installed st h" "InvalidID \<notin> conf_ids (user_conf st tiers profiles network)"
    "i \<in> conf_ids (user_conf st tiers profiles network)"
  shows "vpp_policy h i \<noteq> None"
proof -
  have "i \<noteq> InvalidID" using assms(2,3) by blast
  then have "i \<in> FP_VppID ` set (mvals (Policies st)) \<union> FP_VppID ` set (mvals (Profiles st))"
    using assms(3) policy_id_known [of "Policies st"] profile_id_known [of "Profiles st"]
    unfolding conf_ids_def user_conf_def tier_ids_def by auto
  then show ?thesis using assms(1) by (auto simp: all_installed_def policy_installed_def)
qed

lemma list_all2_right: "list_all2 R xs ys \<Longrightarrow> y \<in> set ys \<Longrightarrow> \<exists>x \<in> set xs. R x y"
  by (induction rule: list_all2_induct) auto

text \<open>An endpoint of the new state whose interfaces are known refers to policies that exist in VPP.\<close>

definition wep_policies_exist :: "Server \<Rightarrow> PolicyState \<Rightarrow> vhist \<Rightarrow> bool" where
  "wep_policies_exist s st h \<longleftrightarrow> (\<forall>(i, w) \<in> set (WorkloadEndpoints st). mhas (endpointsInterfaces s) i \<longrightarrow>
     (\<forall>j \<in> conf_ids (user_conf st (WEP_Tiers w) (WEP_Profiles w) (WE_Network i)). vpp_policy h j \<noteq> None))"

lemma weps_policies_exist:
  assumes "list_all2 (\<lambda>p p'. fst p' = fst p \<and> wep_configured s st (fst p) (snd p) (snd p')) m (WorkloadEndpoints st)"
    "all_installed st h"
  shows "wep_policies_exist s st h"
proof -
  have "vpp_policy h j \<noteq> None" if "(i, w') \<in> set (WorkloadEndpoints st)" "mhas (endpointsInterfaces s) i"
    "j \<in> conf_ids (user_conf st (WEP_Tiers w') (WEP_Profiles w') (WE_Network i))" for i w' j
  proof -
    from list_all2_right [OF assms(1) that(1)] obtain w where "wep_configured s st i w w'" by auto
    then have "WEP_Tiers w' = WEP_Tiers w" "WEP_Profiles w' = WEP_Profiles w"
      "InvalidID \<notin> conf_ids (user_conf st (WEP_Tiers w) (WEP_Profiles w) (WE_Network i))"
      using that(2) by (auto simp: wep_configured_def mhas_def split: option.splits)
    then show ?thesis using user_policies_exist [OF assms(2)] that(3) by simp
  qed
  then show ?thesis unfolding wep_policies_exist_def by blast
qed


text \<open>A VPP that numbers objects by the length of the history and refuses a number that is taken, and a
  server that is about to reconcile one set, one policy that names it, and one endpoint.\<close>

definition vpp_serial :: vpp where
  "vpp_serial h c =
     (let i = of_nat (length h) in
      case c of
        NpolIpsetCreate _ \<Rightarrow> (if i \<in> live_sets h then VppFailed else VppReply i)
      | NpolRuleCreate _ \<Rightarrow> (if vpp_rule h i = None then VppReply i else VppFailed)
      | NpolPolicyCreate _ \<Rightarrow> (if vpp_policy h i = None then VppReply i else VppFailed)
      | _ \<Rightarrow> VppReply i)"

lemma vpp_serial_fresh: "fresh_set_ids vpp_serial" "fresh_rule_ids vpp_serial" "fresh_policy_ids vpp_serial"
  by (auto simp: fresh_set_ids_def fresh_rule_ids_def fresh_policy_ids_def vpp_serial_def Let_def split: if_splits)

definition config_ex :: FelixConfig where
  "config_ex = \<lparr>RawValues = [], DefaultEndpointToHostAction = ''DROP'', FailsafeInboundHostPorts = [],
     FailsafeOutboundHostPorts = []\<rparr>"

definition env_ex :: felix_env where
  "env_ex = \<lparr>env_vpp = vpp_serial, protocolNames = pn_ex, NodeName = ''node'', newConfig = config_ex,
     configUpdateFrom = (\<lambda>raw. (True, config_ex\<lparr>RawValues := raw\<rparr>)), configFileFields = [],
     ASNumberFromString = (\<lambda>_. None), networkStatusNames = (\<lambda>_. []),
     SearchInterfacesWithTagPrefix = (\<lambda>_. Some []), AddrList = (\<lambda>_ _. Some [])\<rparr>"

definition wid_ex :: WorkloadEndpointID where
  "wid_ex = \<lparr>OrchestratorID = ''k8s'', WorkloadID = ''w'', EndpointID = ''eth0'', WE_Network = []\<rparr>"

definition pending_ex :: PolicyState where
  "pending_ex = NewPolicyState\<lparr>IPSets := [(''s'', NewIPSet\<lparr>Addresses := [(''10.0.0.1'', v4InV6Prefix @ [10, 0, 0, 1])]\<rparr>)],
     Policies := [(fromProtoPolicyID pid_ex [], new_FPolicy\<lparr>InboundRules := [rule_ex ActionAllow]\<rparr>)],
     Profiles := [(''p'', new_FPolicy)], WorkloadEndpoints := [(wid_ex, wep_ex)]\<rparr>"

definition server_ex :: Server where
  "server_ex = \<lparr>sync_state = StateSyncing, endpointsInterfaces = [(wid_ex, [(''eth0'', 7)])],
     configuredState = NewPolicyState, pendingState = pending_ex, policies = srv_ex, allPodsIpset = Some NewIPSet,
     ip4 = None, ip6 = None, interfacesMap = [], networkDefinitions = [], tunnelSwIfIndexes = [],
     felixConfigReceived = True, felixConfig = config_ex, ippoolmap = [], nodeStatesByName = [],
     nodeByWGPublicKey = [], gotOurNodeBGP = False, events = []\<rparr>"

lemmas server_examples = server_ex_def pending_ex_def wid_ex_def env_ex_def config_ex_def endpoint_examples
  policy_examples

lemmas reconcile_run = applyPendingState_def cleanup_configured_def create_configured_def swap_states_def over_map_def
  map_foreach_def on_sub_def on_server_def WorkloadEndpoint_Create_def HostEndpoint_Create_def IPSet_Create_def
  push_members_exec IpsetCreate_def vpp_serial_def wire_members_def


end
