(* ===== verification/FelixInvariant.thy ===== *)
theory FelixInvariant
  imports FelixReconcile
begin

text \<open>
  What the handlers of \<open>felix/felix_server.go\<close> keep. The locales \<open>server_keeps\<close> and
  \<open>server_keeps_heps\<close> state what a predicate on servers must be closed under so that every message
  handler keeps it; they are interpreted on the server's invariant and on three views of the server: its
  synchronisation state, its configured state while messages go to the pending one, and its host
  endpoints.
\<close>

section \<open>Invariant\<close>

definition state_inv :: "PolicyState \<Rightarrow> bool" where
  "state_inv st \<longleftrightarrow> (\<forall>i \<in> set (mvals (IPSets st)). ipset_inv i) \<and>
     (\<forall>e \<in> set (mvals (HostEndpoints st)). distinct (TunnelSwIfIndexes e))"

text \<open>The server's own policies and the set of all pods exist once it has started.\<close>

definition own_inv :: "Server \<Rightarrow> bool" where
  "own_inv s \<longleftrightarrow> failSafePolicy (policies s) \<noteq> None \<and> workloadsToHostPolicy (policies s) \<noteq> None \<and>
     AllowFromHostPolicy (policies s) \<noteq> None \<and> allowToHostPolicy (policies s) \<noteq> None \<and>
     (\<exists>i. allPodsIpset s = Some i \<and> ipset_inv i)"

definition server_inv :: "Server \<Rightarrow> bool" where
  "server_inv s \<longleftrightarrow> state_inv (configuredState s) \<and> state_inv (pendingState s) \<and> wf_map (tunnelSwIfIndexes s) \<and> own_inv s"

lemma set_mvals_mput: "set (mvals (mput k v m)) \<subseteq> insert v (set (mvals m))"
  by (induction m) (auto simp: split_paired_all split: if_splits)

lemma set_mvals_mdel: "set (mvals (mdel k m)) \<subseteq> set (mvals m)"
  by (induction m) (auto simp: split_paired_all split: if_splits)

lemma on_sub_sel:
  "fst (on_sub c obj put s) = fst (c (obj, snd s))"
  "fst (snd (on_sub c obj put s)) = put (fst (snd (c (obj, snd s)))) (fst s)"
  by (simp_all add: on_sub_def split: prod.splits)

lemma state_inv_mput [intro]:
  "state_inv st \<Longrightarrow> ipset_inv i \<Longrightarrow> state_inv (IPSets_update (mput k i) st)"
  "state_inv st \<Longrightarrow> distinct (TunnelSwIfIndexes e) \<Longrightarrow> state_inv (HostEndpoints_update (mput k' e) st)"
  using set_mvals_mput by (fastforce simp: state_inv_def)+

lemma state_inv_mdel [intro]:
  "state_inv st \<Longrightarrow> state_inv (IPSets_update (mdel k) st)"
  "state_inv st \<Longrightarrow> state_inv (HostEndpoints_update (mdel k') st)"
  using set_mvals_mdel by (fastforce simp: state_inv_def)+

lemma state_inv_others [simp]:
  "state_inv (Policies_update f st) = state_inv st" "state_inv (Profiles_update g st) = state_inv st"
  "state_inv (WorkloadEndpoints_update w st) = state_inv st" "state_inv NewPolicyState"
  by (simp_all add: state_inv_def NewPolicyState_def mvals_def)

lemma server_inv_upd:
  "server_inv s \<Longrightarrow> (\<And>st. state_inv st \<Longrightarrow> state_inv (f st)) \<Longrightarrow> server_inv (upd_state pending f s)"
  by (simp add: server_inv_def own_inv_def upd_state_def)

lemma server_inv_current: "server_inv s \<Longrightarrow> state_inv (currentState pending s)"
  by (simp add: server_inv_def currentState_def)

lemma server_inv_set: "server_inv s \<Longrightarrow> mget (IPSets (currentState pending s)) k = Some i \<Longrightarrow> ipset_inv i"
  using server_inv_current [of s pending] mget_in_vals by (fastforce simp: state_inv_def)

lemma server_inv_hep:
  "server_inv s \<Longrightarrow> mget (HostEndpoints (currentState pending s)) k = Some e \<Longrightarrow> distinct (TunnelSwIfIndexes e)"
  using server_inv_current [of s pending] mget_in_vals by (fastforce simp: state_inv_def)

text \<open>Objects.\<close>

lemma members_keep_inv [go_intros]:
  "preserves (\<lambda>s. ipset_inv (fst s)) (AddMembers vpp ss apply)"
  "preserves (\<lambda>s. ipset_inv (fst s)) (RemoveMembers vpp ss apply)"
  unfolding preserves_def using AddMembers_sync RemoveMembers_sync by (metis prod.collapse)+

lemma ReplaceMembers_keeps_inv: "preserves (\<lambda>s. ipset_inv (fst s)) (ReplaceMembers vpp nxt apply)"
proof (rule preservesI)
  fix s :: "IPSet \<times> vhist" assume inv: "ipset_inv (fst s)"
  have p: "preserves (\<lambda>s. ipset_inv (fst s)) (andthen (RemoveMembers vpp rem apply) (AddMembers vpp add apply))" for rem add
    by (intro go_intros)
  show "ipset_inv (fst (snd (ReplaceMembers vpp nxt apply s)))"
  proof (cases "IPS_Type (fst s) = IPS_Type nxt")
    case True
    then show ?thesis using p inv unfolding preserves_def ReplaceMembers_eq [OF True] by blast
  next
    case False
    then show ?thesis using inv by (simp add: ReplaceMembers_def fail_def)
  qed
qed

lemma fromIPSetUpdate_inv: "fromIPSetUpdate msg = Inr i \<Longrightarrow> ipset_inv i"
  by (auto simp: fromIPSetUpdate_def ipset_inv_def NewIPSet_def parseIPArray_def parseIPPortArray_def parseNetArray_def
      dest!: parsed_by_parseArray split: IpsetType.splits sum.splits)

lemma IPSet_Create_keeps_inv: "ipset_inv i \<Longrightarrow> ipset_inv (fst (snd (IPSet_Create vpp (i, h))))"
  by (auto simp: IPSet_Create_def ipset_inv_def on_vpp_def Let_def split: prod.splits option.splits)

lemma IPSet_Delete_keeps_inv: "ipset_inv i \<Longrightarrow> ipset_inv (fst (snd (IPSet_Delete vpp (i, h))))"
  by (auto simp: IPSet_Delete_def ipset_inv_def andthen_def on_vpp_def go_defs split: prod.splits status.splits)

lemma hep_configure_tunnels: "TunnelSwIfIndexes (fst (snd (hep_configure vpp srv src state s))) = TunnelSwIfIndexes (fst s)"
proof -
  have "preserves (\<lambda>s'. TunnelSwIfIndexes (fst s') = TunnelSwIfIndexes (fst s)) (hep_configure vpp srv src state)"
    unfolding hep_configure_def with_conf_def
    by (auto simp: on_vpp_def on_obj_def preserves_def andthen_def go_defs split: outcome.splits prod.splits status.splits)
  then show ?thesis unfolding preserves_def by blast
qed

lemma hep_methods_distinct:
  "distinct (TunnelSwIfIndexes e) \<Longrightarrow> distinct (TunnelSwIfIndexes (fst (snd (HostEndpoint_Create vpp srv state (e, h)))))"
  "distinct (TunnelSwIfIndexes e) \<Longrightarrow> distinct (TunnelSwIfIndexes (fst (snd (HostEndpoint_Update vpp srv new state (e, h)))))"
  "distinct (TunnelSwIfIndexes e) \<Longrightarrow> distinct (TunnelSwIfIndexes (fst (snd (HostEndpoint_Delete vpp srv (e, h)))))"
  subgoal by (simp add: HostEndpoint_Create_def hep_configure_tunnels)
  subgoal using hep_configure_tunnels [of vpp srv new state "(e, h)"]
    by (auto simp: HostEndpoint_Update_def andthen_def on_obj_def split: prod.splits status.splits)
  subgoal by (auto simp: HostEndpoint_Delete_def andthen_def on_vpp_def on_obj_def split: prod.splits status.splits)
  done

section \<open>What handlers keep\<close>

lemma preserves_whenC [go_intros]: "(b \<Longrightarrow> preserves I c) \<Longrightarrow> preserves I (whenC b c)"
  by (simp add: whenC_def preserves_skip)

text \<open>
  A predicate on servers that the handlers of messages keep: it is closed under what they store. \<open>PS\<close>
  is what it knows of the sets; \<open>changes\<close> tells which of the two states, pending or configured, the
  messages may change.
\<close>

locale server_keeps =
  fixes J :: "Server \<Rightarrow> bool" and PS :: "IPSet \<Rightarrow> bool" and changes :: "bool \<Rightarrow> bool"
  assumes set_new: "fromIPSetUpdate msg = Inr i \<Longrightarrow> PS i"
    and set_create: "preserves (\<lambda>x. PS (fst x)) (IPSet_Create vpp)"
    and set_delete: "preserves (\<lambda>x. PS (fst x)) (IPSet_Delete vpp)"
    and set_add: "preserves (\<lambda>x. PS (fst x)) (AddMembers vpp ss ap)"
    and set_remove: "preserves (\<lambda>x. PS (fst x)) (RemoveMembers vpp ss ap)"
    and set_known: "changes pending \<Longrightarrow> J s \<Longrightarrow> mget (IPSets (currentState pending s)) k = Some i \<Longrightarrow> PS i"
    and set_put: "changes pending \<Longrightarrow> J s \<Longrightarrow> PS i \<Longrightarrow> J (upd_state pending (IPSets_update (mput k i)) s)"
    and set_del: "changes pending \<Longrightarrow> J s \<Longrightarrow> J (upd_state pending (IPSets_update (mdel k)) s)"
    and policies_upd: "changes pending \<Longrightarrow> J s \<Longrightarrow> J (upd_state pending (Policies_update f) s)"
    and profiles_upd: "changes pending \<Longrightarrow> J s \<Longrightarrow> J (upd_state pending (Profiles_update g) s)"
    and weps_upd: "changes pending \<Longrightarrow> J s \<Longrightarrow> J (upd_state pending (WorkloadEndpoints_update w) s)"
    and pools_upd: "J s \<Longrightarrow> J (ippoolmap_update m s)"
    and nodes_upd: "J s \<Longrightarrow> J (nodeStatesByName_update n s)"
    and own_upd: "J s \<Longrightarrow> J (s\<lparr>policies := (policies s)\<lparr>allowToHostPolicy := Some p\<rparr>\<rparr>)"
      "J s \<Longrightarrow> J (s\<lparr>policies := (policies s)\<lparr>AllowFromHostPolicy := Some p\<rparr>\<rparr>)"
      "J s \<Longrightarrow> J (s\<lparr>policies := (policies s)\<lparr>failSafePolicy := Some p\<rparr>\<rparr>)"
      "J s \<Longrightarrow> J (s\<lparr>policies := (policies s)\<lparr>workloadsToHostPolicy := Some p\<rparr>\<rparr>)"
    and node_upd: "J s \<Longrightarrow> J (s\<lparr>ip4 := a, ip6 := b\<rparr>)" "J s \<Longrightarrow> J (s\<lparr>gotOurNodeBGP := c\<rparr>)"
    and send: "J s \<Longrightarrow> J (SendEvent e s)"
begin

abbreviation keeps :: "handler \<Rightarrow> bool" where
  "keeps c \<equiv> preserves (\<lambda>x. J (fst x)) c"

lemma keepsI: "(\<And>s h. J s \<Longrightarrow> J (fst (snd (c (s, h))))) \<Longrightarrow> keeps c"
  by (simp add: preserves_def)

lemma keepsD: "keeps c \<Longrightarrow> J s \<Longrightarrow> J (fst (snd (c (s, h))))"
  by (simp add: preserves_def)

lemma keeps_on_server: "(\<And>s. J s \<Longrightarrow> J (f s)) \<Longrightarrow> keeps (on_server f)"
  by (simp add: preserves_def on_server_def on_obj_def)

lemma keeps_on_vpp: "keeps (on_vpp c)"
  by (simp add: preserves_def on_vpp_def split: prod.splits)

lemma keeps_on_sub: "(\<And>h s. J s \<Longrightarrow> J (put (fst (snd (c (obj, h)))) s)) \<Longrightarrow> keeps (on_sub c obj put)"
  by (simp add: preserves_def on_sub_sel)

lemma keeps_set_method:
  "changes pending \<Longrightarrow> preserves (\<lambda>x. PS (fst x)) c \<Longrightarrow> PS i \<Longrightarrow> keeps (on_sub c i (\<lambda>i'. upd_state pending (IPSets_update (mput k i'))))"
  by (rule keeps_on_sub) (auto simp: preserves_def intro: set_put)

lemma keeps_policy_methods:
  "changes pending \<Longrightarrow> keeps (on_sub c p (\<lambda>p'. upd_state pending (Policies_update (mput k p'))))"
  "changes pending \<Longrightarrow> keeps (on_sub c p (\<lambda>p'. upd_state pending (Profiles_update (mput k' p'))))"
  "changes pending \<Longrightarrow> keeps (on_sub c' w (\<lambda>w'. upd_state pending (WorkloadEndpoints_update (mput k'' w'))))"
  by (rule keeps_on_sub, simp add: policies_upd profiles_upd weps_upd)+

lemmas keep_intros = go_intros keeps_on_server keeps_on_vpp keeps_policy_methods
  set_del policies_upd profiles_upd weps_upd pools_upd nodes_upd send node_upd

lemma set_replace: "preserves (\<lambda>x. PS (fst x)) (ReplaceMembers vpp nxt ap)"
proof (rule preservesI)
  fix s :: "IPSet \<times> vhist" assume inv: "PS (fst s)"
  have p: "preserves (\<lambda>x. PS (fst x)) (andthen (RemoveMembers vpp rem ap) (AddMembers vpp add ap))" for rem add
    by (intro go_intros set_add set_remove)
  show "PS (fst (snd (ReplaceMembers vpp nxt ap s)))"
  proof (cases "IPS_Type (fst s) = IPS_Type nxt")
    case True
    then show ?thesis using p inv unfolding preserves_def ReplaceMembers_eq [OF True] by blast
  next
    case False
    then show ?thesis using inv by (simp add: ReplaceMembers_def fail_def)
  qed
qed

lemma handleIpsetUpdate_keeps:
  assumes ok: "changes pending"
  shows "keeps (handleIpsetUpdate env msg pending)"
proof (rule keepsI)
  fix s h assume inv: "J s"
  show "J (fst (snd (handleIpsetUpdate env msg pending (s, h))))"
  proof (cases "fromIPSetUpdate msg")
    case (Inr ips)
    have ips: "PS ips" using Inr by (rule set_new)
    show ?thesis
    proof (cases "mget (IPSets (currentState pending s)) (ISU_Id msg)")
      case None
      obtain st i' h' where c: "IPSet_Create (env_vpp env) (ips, h) = (st, (i', h'))" by (metis surj_pair)
      then have "PS i'" using set_create [of "env_vpp env"] ips by (auto simp: preserves_def) (metis fst_conv snd_conv)
      then show ?thesis using Inr None c inv ips ok
        by (cases st) (auto simp: handleIpsetUpdate_def on_server_def on_obj_def intro: set_put)
    next
      case (Some existing)
      have "keeps (on_sub (ReplaceMembers (env_vpp env) ips (\<not> pending)) existing
          (\<lambda>i'. upd_state pending (IPSets_update (mput (ISU_Id msg) i'))))"
        by (rule keeps_set_method [OF ok set_replace set_known [OF ok inv Some]])
      then show ?thesis using Inr Some inv unfolding handleIpsetUpdate_def by (simp add: keepsD)
    qed
  qed (use inv in \<open>simp add: handleIpsetUpdate_def fail_def\<close>)
qed

lemma handleIpsetDeltaUpdate_keeps:
  assumes ok: "changes pending"
  shows "keeps (handleIpsetDeltaUpdate env i added removed pending)"
proof (rule keepsI)
  fix s h assume inv: "J s"
  with ok show "J (fst (snd (handleIpsetDeltaUpdate env i added removed pending (s, h))))"
    unfolding handleIpsetDeltaUpdate_def fst_conv
    by (auto intro!: keepsD [OF _ inv] keeps_set_method keep_intros set_add set_remove intro: set_known [OF ok inv] split: option.split)
qed

lemma handleIpsetRemove_keeps:
  assumes ok: "changes pending"
  shows "keeps (handleIpsetRemove env i pending)"
proof (rule keepsI)
  fix s h assume inv: "J s"
  with ok show "J (fst (snd (handleIpsetRemove env i pending (s, h))))"
    unfolding handleIpsetRemove_def fst_conv
    by (auto intro!: keepsD [OF _ inv] keeps_set_method set_delete keep_intros intro: set_known [OF ok inv] split: option.split)
qed

lemma policy_update_in_keeps:
  assumes ok: "changes pending"
  shows "keeps (policy_update_in env msg pending network)"
proof (rule keepsI)
  fix s h assume inv: "J s"
  with ok show "J (fst (snd (policy_update_in env msg pending network (s, h))))"
    unfolding policy_update_in_def Let_def fst_conv
    by (auto intro!: keepsD [OF _ inv] keep_intros split: sum.split option.split)
qed

lemma handleActivePolicyUpdate_keeps:
  assumes ok: "changes pending"
  shows "keeps (handleActivePolicyUpdate env msg pending)"
proof -
  have "keeps (\<lambda>x. foreach (policy_update_in env msg pending) (mkeys (networkDefinitions (fst x))) x)"
    by (rule keepsI, simp only: fst_conv, rule keepsD) (intro go_intros policy_update_in_keeps ok)
  then show ?thesis unfolding handleActivePolicyUpdate_def by (intro go_intros policy_update_in_keeps ok)
qed

lemma policy_remove_in_keeps:
  assumes ok: "changes pending"
  shows "keeps (policy_remove_in env pid pending networks)"
proof (induction networks)
  case (Cons network networks)
  show ?case
  proof (rule keepsI)
    fix s h assume inv: "J s"
    with ok show "J (fst (snd (policy_remove_in env pid pending (network # networks) (s, h))))"
      unfolding policy_remove_in.simps Let_def fst_conv
      by (auto intro!: keepsD [OF _ inv] keep_intros Cons.IH split: option.split)
  qed
qed (simp add: preserves_def skip_def)

lemma handleActivePolicyRemove_keeps:
  "changes pending \<Longrightarrow> keeps (handleActivePolicyRemove env pid pending)"
  by (rule keepsI) (simp only: handleActivePolicyRemove_def keepsD [OF policy_remove_in_keeps])

lemma handleActiveProfileUpdate_keeps:
  assumes ok: "changes pending"
  shows "keeps (handleActiveProfileUpdate env i profile pending)"
proof (rule keepsI)
  fix s h assume inv: "J s"
  with ok show "J (fst (snd (handleActiveProfileUpdate env i profile pending (s, h))))"
    unfolding handleActiveProfileUpdate_def Let_def fst_conv
    by (auto intro!: keepsD [OF _ inv] keep_intros split: sum.split option.split)
qed

lemma handleActiveProfileRemove_keeps:
  assumes ok: "changes pending"
  shows "keeps (handleActiveProfileRemove env i pending)"
proof (rule keepsI)
  fix s h assume inv: "J s"
  with ok show "J (fst (snd (handleActiveProfileRemove env i pending (s, h))))"
    unfolding handleActiveProfileRemove_def Let_def fst_conv
    by (auto intro!: keepsD [OF _ inv] keep_intros split: option.split)
qed

lemma workload_update_one_keeps:
  assumes ok: "changes pending"
  shows "keeps (workload_update_one env msg pending i)"
proof (rule keepsI)
  fix s h assume inv: "J s"
  with ok show "J (fst (snd (workload_update_one env msg pending i (s, h))))"
    unfolding workload_update_one_def Let_def fst_conv
    by (auto intro!: keepsD [OF _ inv] keep_intros split: option.split)
qed

lemma handleWorkloadEndpointUpdate_keeps: "changes pending \<Longrightarrow> keeps (handleWorkloadEndpointUpdate env msg pending)"
  by (rule keepsI, simp only: handleWorkloadEndpointUpdate_def fst_conv, rule keepsD)
    (intro go_intros workload_update_one_keeps)

lemma handleWorkloadEndpointRemove_keeps:
  assumes ok: "changes pending"
  shows "keeps (handleWorkloadEndpointRemove env pid pending)"
proof (rule keepsI)
  fix s h assume inv: "J s"
  with ok show "J (fst (snd (handleWorkloadEndpointRemove env pid pending (s, h))))"
    unfolding handleWorkloadEndpointRemove_def Let_def fst_conv
    by (auto intro!: keepsD [OF _ inv] keep_intros split: option.split)
qed

text \<open>Pools and nodes are not part of the two states.\<close>

lemma pool_swap_keeps:
  "keeps (\<lambda>s. case addDelSnatPrefixForIPPool vpp old False (snd s) of
      (st1, h1) \<Rightarrow> (case addDelSnatPrefixForIPPool vpp new True h1 of
        (st2, h2) \<Rightarrow> if st1 = Done \<and> st2 = Done
          then (Done, (SendEvent e (fst s), h2)) else (Fail ESnatPrefix, (fst s, h2))))"
  by (rule keepsI) (simp add: send split: prod.split)

lemma handleIpamPoolUpdate_keeps:
  "keeps (handleIpamPoolUpdate env i new pending)"
proof (rule keepsI)
  fix s h assume inv: "J s"
  then show "J (fst (snd (handleIpamPoolUpdate env i new pending (s, h))))"
    unfolding handleIpamPoolUpdate_def Let_def fst_conv
    by (auto intro!: keepsD [OF _ inv] keep_intros pool_swap_keeps split: option.split)
qed

lemma handleIpamPoolRemove_keeps:
  "keeps (handleIpamPoolRemove env i pending)"
proof (rule keepsI)
  fix s h assume inv: "J s"
  then show "J (fst (snd (handleIpamPoolRemove env i pending (s, h))))"
    unfolding handleIpamPoolRemove_def Let_def fst_conv
    by (auto intro!: keepsD [OF _ inv] keep_intros split: option.split)
qed

text \<open>The server's own policies are replaced, never dropped.\<close>

lemma own_policies_keep:
  "keeps (createAllowToHostPolicy env)" "keeps (createAllowFromHostPolicy env)" "keeps (createFailSafePolicies env)"
  "keeps (update_workloadsToHost env)"
  by (rule keepsI, auto simp: createAllowToHostPolicy_def createAllowFromHostPolicy_def createFailSafePolicies_def
      update_workloadsToHost_def on_sub_sel panic_def split: prod.split option.split status.split intro: own_upd)+

lemma own_node_update_keeps: "keeps (own_node_update env spec)"
  unfolding own_node_update_def by (intro keep_intros own_policies_keep) (auto intro: node_upd send)

lemma handleHostMetadataV4V6Update_keeps:
  "keeps (handleHostMetadataV4V6Update env m pending)"
proof (rule keepsI)
  fix s h assume inv: "J s"
  then show "J (fst (snd (handleHostMetadataV4V6Update env m pending (s, h))))"
    unfolding handleHostMetadataV4V6Update_def Let_def fst_conv
    by (auto intro!: keepsD [OF _ inv] keep_intros own_node_update_keeps split: option.split sum.split)
qed

lemma handleHostMetadataV4V6Remove_keeps:
  "keeps (handleHostMetadataV4V6Remove env n pending)"
proof (rule keepsI)
  fix s h assume inv: "J s"
  then show "J (fst (snd (handleHostMetadataV4V6Remove env n pending (s, h))))"
    unfolding handleHostMetadataV4V6Remove_def Let_def fst_conv
    by (auto intro!: keepsD [OF _ inv] keep_intros split: option.split)
qed

lemma other_messages_keep: "keeps (handleWireguardEndpointUpdate n k pending)" "keeps (handleGlobalBGPConfigUpdate pending)"
  unfolding handleWireguardEndpointUpdate_def handleGlobalBGPConfigUpdate_def by (intro keep_intros; assumption)+

lemmas handlers_keep = handleIpsetUpdate_keeps handleIpsetDeltaUpdate_keeps handleIpsetRemove_keeps
  handleActivePolicyUpdate_keeps handleActivePolicyRemove_keeps handleActiveProfileUpdate_keeps
  handleActiveProfileRemove_keeps handleWorkloadEndpointUpdate_keeps handleWorkloadEndpointRemove_keeps
  handleIpamPoolUpdate_keeps handleIpamPoolRemove_keeps handleHostMetadataV4V6Update_keeps
  handleHostMetadataV4V6Remove_keeps other_messages_keep

end

text \<open>The same with host endpoints, of which \<open>PE\<close> is known.\<close>

locale server_keeps_heps = server_keeps +
  fixes PE :: "HostEndpoint \<Rightarrow> bool"
  assumes hep_new: "J s \<Longrightarrow> PE (e\<lparr>TunnelSwIfIndexes := getAllTunnelSwIfIndexes s\<rparr>)"
    and hep_conf: "PE e \<Longrightarrow> PE (e\<lparr>currentForwardConf := c\<rparr>)"
    and hep_create: "preserves (\<lambda>x. PE (fst x)) (HostEndpoint_Create vpp srv st)"
    and hep_update: "preserves (\<lambda>x. PE (fst x)) (HostEndpoint_Update vpp srv new st)"
    and hep_delete: "preserves (\<lambda>x. PE (fst x)) (HostEndpoint_Delete vpp srv)"
    and hep_known: "changes pending \<Longrightarrow> J s \<Longrightarrow> mget (HostEndpoints (currentState pending s)) i = Some e \<Longrightarrow> PE e"
    and hep_put: "changes pending \<Longrightarrow> J s \<Longrightarrow> PE e \<Longrightarrow> J (upd_state pending (HostEndpoints_update (mput i e)) s)"
    and hep_del: "changes pending \<Longrightarrow> J s \<Longrightarrow> J (upd_state pending (HostEndpoints_update (mdel i)) s)"
begin

lemma keeps_hep_method:
  "changes pending \<Longrightarrow> preserves (\<lambda>x. PE (fst x)) c \<Longrightarrow> PE e \<Longrightarrow>
   keeps (on_sub c e (\<lambda>e'. upd_state pending (HostEndpoints_update (mput k e'))))"
  by (rule keeps_on_sub) (auto simp: preserves_def intro: hep_put)

lemma handleHostEndpointUpdate_keeps:
  assumes ok: "changes pending"
  shows "keeps (handleHostEndpointUpdate env i endpoint pending)"
proof (rule keepsI)
  fix s h assume inv: "J s"
  with ok show "J (fst (snd (handleHostEndpointUpdate env i endpoint pending (s, h))))"
    unfolding handleHostEndpointUpdate_def Let_def fst_conv
    by (auto intro!: keepsD [OF _ inv] keep_intros keeps_hep_method hep_create hep_update hep_put hep_conf hep_new [OF inv] intro: hep_known [OF _ inv] split: option.split)
qed

lemma handleHostEndpointRemove_keeps:
  assumes ok: "changes pending"
  shows "keeps (handleHostEndpointRemove env i pending)"
proof (rule keepsI)
  fix s h assume inv: "J s"
  with ok show "J (fst (snd (handleHostEndpointRemove env i pending (s, h))))"
    unfolding handleHostEndpointRemove_def Let_def fst_conv
    by (auto intro!: keepsD [OF _ inv] keep_intros keeps_hep_method hep_delete hep_del intro: hep_known [OF _ inv] split: option.split)
qed

lemma handle_in_state_keeps:
  assumes ok: "changes pending"
  shows "keeps (handle_in_state env msg pending)"
proof (rule keepsI)
  fix s h assume inv: "J s"
  note all_keep = handlers_keep handleHostEndpointUpdate_keeps handleHostEndpointRemove_keeps
  show "J (fst (snd (handle_in_state env msg pending (s, h))))"
    using ok inv by (cases msg) (auto simp only: handle_in_state.simps skip_def fst_conv snd_conv
        intro!: all_keep [THEN keepsD])
qed

end

section \<open>The views and the invariant\<close>

lemma server_inv_puts [intro]:
  "server_inv s \<Longrightarrow> ipset_inv i \<Longrightarrow> server_inv (upd_state pending (IPSets_update (mput k i)) s)"
  "server_inv s \<Longrightarrow> server_inv (upd_state pending (IPSets_update (mdel k)) s)"
  "server_inv s \<Longrightarrow> distinct (TunnelSwIfIndexes e) \<Longrightarrow> server_inv (upd_state pending (HostEndpoints_update (mput k' e)) s)"
  "server_inv s \<Longrightarrow> server_inv (upd_state pending (HostEndpoints_update (mdel k')) s)"
  by (rule server_inv_upd; blast)+

lemma server_inv_simps [simp]:
  "server_inv (SendEvent e s) = server_inv s"
  "server_inv (upd_state pending (Policies_update f) s) = server_inv s"
  "server_inv (upd_state pending (Profiles_update g) s) = server_inv s"
  "server_inv (upd_state pending (WorkloadEndpoints_update w) s) = server_inv s"
  "server_inv (endpointsInterfaces_update a s) = server_inv s" "server_inv (ip4_update b s) = server_inv s"
  "server_inv (ip6_update c s) = server_inv s" "server_inv (networkDefinitions_update d s) = server_inv s"
  "server_inv (ippoolmap_update i s) = server_inv s" "server_inv (nodeStatesByName_update j s) = server_inv s"
  "server_inv (gotOurNodeBGP_update k s) = server_inv s" "server_inv (sync_state_update l s) = server_inv s"
  "server_inv (felixConfig_update m s) = server_inv s" "server_inv (felixConfigReceived_update n s) = server_inv s"
  by (simp_all add: SendEvent_def server_inv_def own_inv_def upd_state_def)

lemma server_inv_own:
  assumes "server_inv s"
  shows "server_inv (s\<lparr>policies := (policies s)\<lparr>allowToHostPolicy := Some p\<rparr>\<rparr>)"
    "server_inv (s\<lparr>policies := (policies s)\<lparr>AllowFromHostPolicy := Some p\<rparr>\<rparr>)"
    "server_inv (s\<lparr>policies := (policies s)\<lparr>failSafePolicy := Some p\<rparr>\<rparr>)"
    "server_inv (s\<lparr>policies := (policies s)\<lparr>workloadsToHostPolicy := Some p\<rparr>\<rparr>)"
    "ipset_inv i \<Longrightarrow> server_inv (s\<lparr>allPodsIpset := Some i\<rparr>)"
  using assms by (auto simp: server_inv_def own_inv_def)

lemma IPSet_methods_keep:
  "preserves (\<lambda>s. ipset_inv (fst s)) (IPSet_Create vpp)" "preserves (\<lambda>s. ipset_inv (fst s)) (IPSet_Delete vpp)"
  by (simp_all add: preserves_def IPSet_Create_keeps_inv IPSet_Delete_keeps_inv)

lemma tunnels_distinct: "server_inv s \<Longrightarrow> distinct (getAllTunnelSwIfIndexes s)"
  by (simp add: server_inv_def getAllTunnelSwIfIndexes_def wf_map_def)

interpretation sinv: server_keeps_heps server_inv ipset_inv "\<lambda>_. True" "\<lambda>e. distinct (TunnelSwIfIndexes e)"
  by unfold_locales
    (auto simp: server_inv_own tunnels_distinct preserves_def hep_methods_distinct intro: fromIPSetUpdate_inv IPSet_Create_keeps_inv
      IPSet_Delete_keeps_inv members_keep_inv [unfolded preserves_def, rule_format] server_inv_set server_inv_hep)

text \<open>The synchronisation state is changed by no message but the two that drive it; while the server is
  syncing, the configured state is not changed; and host endpoints only by messages about them.\<close>

lemma preserves_True: "preserves (\<lambda>_. True) c"
  by (simp add: preserves_def)

interpretation vsync: server_keeps_heps "\<lambda>s. sync_state s = v" "\<lambda>_. True" "\<lambda>_. True" "\<lambda>_. True" for v
  by unfold_locales (auto simp: upd_state_def SendEvent_def preserves_True)

interpretation vconf: server_keeps_heps "\<lambda>s. configuredState s = v" "\<lambda>_. True" "\<lambda>p. p" "\<lambda>_. True" for v
  by unfold_locales (auto simp: upd_state_def SendEvent_def preserves_True)

interpretation vheps: server_keeps "\<lambda>s. HostEndpoints (configuredState s) = v" "\<lambda>_. True" "\<lambda>_. True" for v
  by unfold_locales (auto simp: upd_state_def SendEvent_def preserves_True)

abbreviation keeps_inv :: "handler \<Rightarrow> bool" where
  "keeps_inv c \<equiv> preserves (\<lambda>x. server_inv (fst x)) c"

declare sinv.keeps_on_server [go_intros] sinv.keeps_on_vpp [go_intros]

lemma map_foreach_keeps:
  assumes "\<And>k v h. P v \<Longrightarrow> P (fst (snd (c k (v, h))))" "\<forall>v \<in> set (mvals m). P v"
  shows "\<forall>v \<in> set (mvals (fst (snd (map_foreach c (m, h))))). P v"
  using assms(2) unfolding map_foreach_def
proof (induction m arbitrary: h)
  case (Cons p m)
  obtain k v where p: "p = (k, v)" by (cases p)
  obtain st v' h' where c: "c k (v, h) = (st, (v', h'))" by (metis surj_pair)
  have "P v'" using assms(1) [of v k h] Cons.prems c p by simp
  then show ?case using Cons.IH [of h'] Cons.prems c p by (cases st) (auto split: prod.splits)
qed simp

lemma keeps_over_map_sets:
  assumes "\<And>s k. preserves (\<lambda>x. ipset_inv (fst x)) (c s k)"
  shows "keeps_inv (over_map IPSets IPSets_update c)"
proof (rule sinv.keepsI)
  fix s h assume inv: "server_inv s"
  then have "\<forall>i \<in> set (mvals (IPSets (configuredState s))). ipset_inv i" by (simp add: server_inv_def state_inv_def)
  then have "\<forall>i \<in> set (mvals (fst (snd (map_foreach (c s) (IPSets (configuredState s), h))))). ipset_inv i"
    using assms by (intro map_foreach_keeps) (auto simp: preserves_def)
  then show "server_inv (fst (snd (over_map IPSets IPSets_update c (s, h))))"
    using inv by (simp add: over_map_def on_sub_sel server_inv_def state_inv_def own_inv_def)
qed

lemma keeps_over_map_heps:
  assumes "\<And>s k e h. distinct (TunnelSwIfIndexes e) \<Longrightarrow> distinct (TunnelSwIfIndexes (fst (snd (c s k (e, h)))))"
  shows "keeps_inv (over_map HostEndpoints HostEndpoints_update c)"
proof (rule sinv.keepsI)
  fix s h assume inv: "server_inv s"
  then have "\<forall>e \<in> set (mvals (HostEndpoints (configuredState s))). distinct (TunnelSwIfIndexes e)"
    by (simp add: server_inv_def state_inv_def)
  then have "\<forall>e \<in> set (mvals (fst (snd (map_foreach (c s) (HostEndpoints (configuredState s), h))))). distinct (TunnelSwIfIndexes e)"
    using assms by (intro map_foreach_keeps) auto
  then show "server_inv (fst (snd (over_map HostEndpoints HostEndpoints_update c (s, h))))"
    using inv by (simp add: over_map_def on_sub_sel server_inv_def state_inv_def own_inv_def)
qed

lemma keeps_over_map_others [go_intros]:
  "keeps_inv (over_map Policies Policies_update c)" "keeps_inv (over_map Profiles Profiles_update d)"
  "keeps_inv (over_map WorkloadEndpoints WorkloadEndpoints_update w)"
  by (rule sinv.keepsI, simp add: over_map_def on_sub_sel server_inv_def state_inv_def own_inv_def)+

lemma attempt_snd [simp]: "snd (attempt c s) = snd (c s)"
  by (simp add: attempt_def split: prod.splits status.splits)

lemma swap_states_inv: "server_inv s \<Longrightarrow> server_inv (swap_states s)"
  by (simp add: swap_states_def server_inv_def own_inv_def)

lemma applyPendingState_inv [go_intros]: "keeps_inv (applyPendingState env)"
  unfolding applyPendingState_def cleanup_configured_def create_configured_def
  by (intro go_intros keeps_over_map_sets keeps_over_map_heps IPSet_methods_keep preserves_attempt)
    (auto simp: swap_states_inv whenC_def skip_def hep_methods_distinct)

lemma handleInSync_inv [go_intros]: "keeps_inv (handleInSync env)"
proof (rule sinv.keepsI)
  fix s h assume inv: "server_inv s"
  then show "server_inv (fst (snd (handleInSync env (s, h))))"
    unfolding handleInSync_def fst_conv by (auto intro!: sinv.keepsD [OF _ inv] go_intros)
qed

lemma keeps_read: "(\<And>s. keeps_inv (c s)) \<Longrightarrow> keeps_inv (\<lambda>x. c (fst x) x)"
  by (simp add: preserves_def)

lemma apply_config_changes_inv [go_intros]: "keeps_inv (apply_config_changes env old)"
  unfolding apply_config_changes_def
  by (intro go_intros sinv.own_policies_keep keeps_read [where c = "\<lambda>s. whenC (DefaultEndpointToHostAction (felixConfig s) \<noteq> d) u" for d u]
      keeps_read [where c = "\<lambda>s. whenC (\<not> protoPortListEqual (FailsafeInboundHostPorts (felixConfig s)) a \<or>
        \<not> protoPortListEqual (FailsafeOutboundHostPorts (felixConfig s)) b) u" for a b u]) simp

lemma handleConfigUpdate_inv [go_intros]: "keeps_inv (handleConfigUpdate env raw)"
proof (rule sinv.keepsI)
  fix s h assume inv: "server_inv s"
  then show "server_inv (fst (snd (handleConfigUpdate env raw (s, h))))"
    unfolding handleConfigUpdate_def fst_conv Let_def
    by (auto intro!: sinv.keepsD [OF _ inv] go_intros split: prod.split)
qed

lemma handleFelixUpdate_inv: "keeps_inv (handleFelixUpdate env msg)"
proof (rule sinv.keepsI)
  fix s h assume inv: "server_inv s"
  then show "server_inv (fst (snd (handleFelixUpdate env msg (s, h))))"
    unfolding handleFelixUpdate_def fst_conv
    by (cases msg; cases "sync_state s"; simp only: felix_msg.case SyncState.case;
        intro sinv.keepsD [OF _ inv] go_intros sinv.handle_in_state_keeps TrueI)
qed

end
