(* ===== verification/FelixServe.thy ===== *)
theory FelixServe
  imports FelixInvariant
begin

text \<open>
  The life of the server, \<open>NewFelixServer\<close> and \<open>ServeFelix\<close> of \<open>felix/felix_server.go\<close>: how it starts,
  and its loop over connections, events and messages as a step relation. An invariant of the reachable
  states shows that no event makes the agent panic; messages received while syncing are shown to be
  local to the pending state; and changes the server loses are proved as such.
\<close>

section \<open>Start\<close>

text \<open>The loop of \<open>mapTagToInterfaceDetails\<close> over the uplinks: each needs a tap with the same suffix.\<close>

fun tag_details :: "felix_env \<Rightarrow> (string, u32) gomap \<Rightarrow> (string, u32) gomap \<Rightarrow> (string, interfaceDetails) gomap \<Rightarrow>
    go_error + (string, interfaceDetails) gomap" where
  "tag_details env taps [] m = Inr m"
| "tag_details env taps ((intf, uplink) # rest) m =
     (case mget taps (''host-'' @ drop 5 intf) of
        None \<Rightarrow> Inl EUplinkWithoutTap
      | Some tap \<Rightarrow>
          (case AddrList env uplink False of None \<Rightarrow> Inl EVpp | Some ip4adds \<Rightarrow>
           case AddrList env uplink True of None \<Rightarrow> Inl EVpp | Some ip6adds \<Rightarrow>
             tag_details env taps rest (mput (drop 5 intf)
               \<lparr>tapIndex = tap, uplinkIndex = uplink,
                addresses = map (\<lambda>n. ip_String (IPNet_IP n)) (ip4adds @ ip6adds)\<rparr> m)))"

definition mapTagToInterfaceDetails :: "felix_env \<Rightarrow> go_error + (string, interfaceDetails) gomap" where
  "mapTagToInterfaceDetails env =
     (case SearchInterfacesWithTagPrefix env ''main-'' of None \<Rightarrow> Inl EVpp | Some uplinks \<Rightarrow>
      case SearchInterfacesWithTagPrefix env ''host-'' of None \<Rightarrow> Inl EVpp | Some taps \<Rightarrow>
        tag_details env taps uplinks [])"

definition NewFelixServer :: "felix_env \<Rightarrow> go_error + Server" where
  "NewFelixServer env =
     (case mapTagToInterfaceDetails env of
        Inl e \<Rightarrow> Inl e
      | Inr m \<Rightarrow> Inr \<lparr>sync_state = StateDisconnected, endpointsInterfaces = [],
          configuredState = NewPolicyState, pendingState = NewPolicyState,
          policies = \<lparr>failSafePolicy = None, workloadsToHostPolicy = None, AllowFromHostPolicy = None,
            allowToHostPolicy = None, defaultTap0IngressConf = [], defaultTap0EgressConf = []\<rparr>,
          allPodsIpset = None, ip4 = None, ip6 = None, interfacesMap = m, networkDefinitions = [],
          tunnelSwIfIndexes = [], felixConfigReceived = False, felixConfig = newConfig env, ippoolmap = [],
          nodeStatesByName = [], nodeByWGPublicKey = [], gotOurNodeBGP = False, events = []\<rparr>)"

text \<open>What \<open>ServeFelix\<close> does before its loop; any error ends it.\<close>

definition start_felix :: "felix_env \<Rightarrow> handler" where
  "start_felix env =
     andthen (createAllPodsIpset env)
     (andthen (createEndpointToHostPolicy env)
     (andthen (createAllowFromHostPolicy env)
     (andthen (createAllowToHostPolicy env)
     (andthen (createFailSafePolicies env)
              (on_server (\<lambda>s. s\<lparr>sync_state := StateDisconnected\<rparr>))))))"

section \<open>The loop\<close>

datatype serve_phase = Accepting | Serving | Stopped "go_error option" | Crashed

type_synonym serve_state = "serve_phase \<times> Server \<times> vhist"

definition disconnect :: "Server \<times> vhist \<Rightarrow> serve_state" where
  "disconnect x = (Accepting, (fst x)\<lparr>sync_state := StateDisconnected\<rparr>, snd x)"

text \<open>
  One iteration: accepting a connection, or serving one event or one message. An error of an event is
  logged; an error of a message ends the connection, the restart error and the end of the tomb end the
  server.
\<close>

inductive serve_step :: "felix_env \<Rightarrow> serve_state \<Rightarrow> serve_state \<Rightarrow> bool" for env where
  accept: "serve_step env (Accepting, s, h) (Serving, s\<lparr>sync_state := StateConnected\<rparr>, h)"
| accept_error: "serve_step env (Accepting, x) (Stopped (Some EAccept), x)"
| dying: "serve_step env (Serving, x) (Stopped None, x)"
| event: "handleFelixServerEvents env e x = (st, x') \<Longrightarrow> st \<noteq> Panicked \<Longrightarrow> serve_step env (Serving, x) (Serving, x')"
| event_panic: "handleFelixServerEvents env e x = (Panicked, x') \<Longrightarrow> serve_step env (Serving, x) (Crashed, x')"
| closed: "serve_step env (Serving, x) (disconnect x)"
| message: "handleFelixUpdate env m x = (Done, x') \<Longrightarrow> serve_step env (Serving, x) (Serving, x')"
| message_restart: "handleFelixUpdate env m x = (Fail ENodeWatcherRestart, x') \<Longrightarrow>
    serve_step env (Serving, x) (Stopped (Some ENodeWatcherRestart), x')"
| message_error: "handleFelixUpdate env m x = (Fail e, x') \<Longrightarrow> e \<noteq> ENodeWatcherRestart \<Longrightarrow>
    serve_step env (Serving, x) (disconnect x')"
| message_panic: "handleFelixUpdate env m x = (Panicked, x') \<Longrightarrow> serve_step env (Serving, x) (Crashed, x')"

inductive_cases serve_stepE: "serve_step env c c'"

text \<open>The states a server gets into after a successful start.\<close>

inductive served :: "felix_env \<Rightarrow> serve_state \<Rightarrow> bool" for env where
  started: "NewFelixServer env = Inr s0 \<Longrightarrow> start_felix env (s0, h0) = (Done, x) \<Longrightarrow> served env (Accepting, x)"
| step: "served env c \<Longrightarrow> serve_step env c c' \<Longrightarrow> served env c'"

section \<open>Events keep the invariant and do not panic\<close>

lemma handleTunnelChange_distinct:
  "distinct (TunnelSwIfIndexes e) \<Longrightarrow> distinct (TunnelSwIfIndexes (fst (snd (handleTunnelChange vpp x isAdd pending (e, h)))))"
  by (auto simp: handleTunnelChange_def tunnel_del_loop_remove1 go_defs Let_def split: prod.splits option.splits)

lemma all_pods_change_inv [go_intros]:
  assumes "\<And>ss ap. preserves (\<lambda>x. ipset_inv (fst x)) (op ss ap)"
  shows "keeps_inv (all_pods_change op ips)"
proof (rule sinv.keepsI)
  fix s h assume inv: "server_inv s"
  then obtain i where i: "allPodsIpset s = Some i" "ipset_inv i" by (auto simp: server_inv_def own_inv_def)
  then have "ipset_inv (fst (snd (op ss ap (i, h))))" for ss ap
    using assms [of ss ap] by (simp add: preserves_def)
  then show "server_inv (fst (snd (all_pods_change op ips (s, h))))"
    using inv i by (simp add: all_pods_change_def on_sub_sel server_inv_own)
qed

lemma workloadAdded_inv [go_intros]: "keeps_inv (workloadAdded env i sw ifName ips)"
proof (rule sinv.keepsI)
  fix s h assume inv: "server_inv s"
  have create: "keeps_inv (\<lambda>x. if sync_state (fst x) = StateInSync then
       (case mget (WorkloadEndpoints (configuredState (fst x))) i of None \<Rightarrow> skip x
        | Some wep \<Rightarrow> attempt (on_sub (WorkloadEndpoint_Create (env_vpp env) (policies (fst x)) [sw]
            (configuredState (fst x)) (WE_Network i)) wep (\<lambda>w'. upd_state False (WorkloadEndpoints_update (mput i w')))) x)
      else skip x)"
    by (rule sinv.keepsI) (auto simp: skip_def on_sub_sel split: option.split)
  show "server_inv (fst (snd (workloadAdded env i sw ifName ips (s, h))))"
    unfolding workloadAdded_def fst_conv Let_def
    by (auto intro!: sinv.keepsD [OF _ inv] go_intros create members_keep_inv)
qed

lemma WorkloadRemoved_inv [go_intros]: "keeps_inv (WorkloadRemoved env i ips)"
proof (rule sinv.keepsI)
  fix s h assume inv: "server_inv s"
  then show "server_inv (fst (snd (WorkloadRemoved env i ips (s, h))))"
    unfolding WorkloadRemoved_def fst_conv
    by (auto intro!: sinv.keepsD [OF _ inv] go_intros sinv.keeps_policy_methods members_keep_inv split: option.split)
qed

text \<open>The part of a tunnel event behind the bookkeeping.\<close>

definition tunnel_endpoints :: "felix_env \<Rightarrow> u32 \<Rightarrow> bool \<Rightarrow> bool \<Rightarrow> handler" where
  "tunnel_endpoints env sw isAdd pending x =
     on_sub (map_foreach (\<lambda>_. handleTunnelChange (env_vpp env) sw isAdd pending))
       (HostEndpoints (currentState pending (fst x))) (\<lambda>m. upd_state pending (HostEndpoints_update (\<lambda>_. m))) x"

lemma tunnel_change_eq:
  "tunnel_change env sw isAdd =
   andthen (on_server (tunnelSwIfIndexes_update (if isAdd then mput sw True else mdel sw)))
     (\<lambda>x. if sync_state (fst x) = StateDisconnected then fail ENotSyncing x
          else tunnel_endpoints env sw isAdd (sync_state (fst x) \<noteq> StateInSync) x)"
  unfolding tunnel_change_def tunnel_endpoints_def
  by (rule arg_cong [where f = "andthen _"], rule ext) (auto simp: Let_def split: SyncState.split)

lemma tunnel_endpoints_inv: "keeps_inv (tunnel_endpoints env sw isAdd pending)"
proof (rule sinv.keepsI)
  fix s h assume inv: "server_inv s"
  have "\<forall>e \<in> set (mvals (HostEndpoints (currentState pending s))). distinct (TunnelSwIfIndexes e)"
    using server_inv_current [OF inv] by (simp add: state_inv_def)
  then have "\<forall>e \<in> set (mvals (fst (snd (map_foreach (\<lambda>_. handleTunnelChange (env_vpp env) sw isAdd pending)
      (HostEndpoints (currentState pending s), h))))). distinct (TunnelSwIfIndexes e)"
    by (intro map_foreach_keeps) (rule handleTunnelChange_distinct)
  then show "server_inv (fst (snd (tunnel_endpoints env sw isAdd pending (s, h))))"
    using inv by (auto simp: tunnel_endpoints_def on_sub_sel server_inv_def state_inv_def own_inv_def upd_state_def)
qed

lemma tunnel_change_inv [go_intros]: "keeps_inv (tunnel_change env sw isAdd)"
proof -
  have "keeps_inv (\<lambda>x. if sync_state (fst x) = StateDisconnected then fail ENotSyncing x
      else tunnel_endpoints env sw isAdd (sync_state (fst x) \<noteq> StateInSync) x)"
    using sinv.keepsD [OF tunnel_endpoints_inv] by (intro sinv.keepsI) (simp add: fail_def)
  moreover have "keeps_inv (on_server (tunnelSwIfIndexes_update (if isAdd then mput sw True else mdel sw)))"
    by (intro go_intros) (auto simp: server_inv_def own_inv_def)
  ultimately show ?thesis unfolding tunnel_change_eq by (rule preserves_andthen [rotated])
qed

lemma handleFelixServerEvents_inv: "keeps_inv (handleFelixServerEvents env e)"
proof (rule sinv.keepsI)
  fix s h assume inv: "server_inv s"
  then show "server_inv (fst (snd (handleFelixServerEvents env e (s, h))))"
    by (cases "(env, e, (s, h))" rule: handleFelixServerEvents.cases;
        simp only: handleFelixServerEvents.simps prod.inject; elim conjE; hypsubst)
      (auto intro!: sinv.keepsD [OF _ inv] go_intros)
qed

text \<open>Commands that do not panic.\<close>

definition calm :: "('s, 'e) cmd \<Rightarrow> 's \<Rightarrow> bool" where
  "calm c s \<longleftrightarrow> fst (c s) \<noteq> Panicked"

lemma calm_andthen: "calm c s \<Longrightarrow> (\<And>s'. c s = (Done, s') \<Longrightarrow> calm d s') \<Longrightarrow> calm (andthen c d) s"
  by (auto simp: calm_def andthen_def split: prod.splits status.splits)

lemma calm_attempt: "calm c s \<Longrightarrow> calm (attempt c) s"
  by (auto simp: calm_def attempt_def split: prod.splits status.splits)

lemma calm_simps [simp]: "calm skip s" "calm (fail e) s" "calm (on_server f) x" "calm (on_obj g) y"
  by (simp_all add: calm_def go_defs)

lemma calm_on_sub: "calm (on_sub c obj put) (s, h) = calm c (obj, h)"
  by (simp add: calm_def on_sub_sel)

lemma calm_exec: "fst (vpp_exec vpp c h) \<noteq> Panicked"
  by (simp add: vpp_exec_def split: prod.splits vpp_reply.splits)

lemma calm_member_branch:
  "(\<And>new h. fst (push new h) \<noteq> Panicked) \<Longrightarrow> calm (member_branch parsed ap push store) s"
  by (auto simp: calm_def member_branch_def whenC_def andthen_def on_vpp_def on_obj_def fail_def skip_def
      split: sum.split prod.splits status.splits) (metis fst_conv)

lemma calm_members: "calm (AddMembers vpp ss ap) s" "calm (RemoveMembers vpp ss ap) s"
  by (simp_all add: calm_def AddMembers_def RemoveMembers_def Let_def addDelIpsetIPMembers_def addDelIpsetIPPortMembers_def
      addDelIpsetNetMembers_def addDelIpsetMembers_def calm_exec calm_member_branch [unfolded calm_def] split: IpsetType.split)

lemma configure_all_calm: "fst (configure_all vpp conf rxtx sws h) \<noteq> Panicked"
  unfolding configure_all_def
  by (induction sws arbitrary: h) (auto simp: ConfigurePolicies_def calm_exec split: prod.splits status.splits, metis calm_exec fst_conv)

lemma getWorkloadPolicies_calm: "AllowFromHostPolicy srv \<noteq> None \<Longrightarrow> getWorkloadPolicies srv w state network \<noteq> Crash"
  using userDefinedPolicies_cases [of state "WEP_Tiers w" "WEP_Profiles w" network]
  by (auto simp: getWorkloadPolicies_def wep_getUserDefinedPolicies_def bind_outcome_def deref_id_def Let_def
      split: outcome.splits if_splits)

lemma WorkloadEndpoint_Create_calm:
  "AllowFromHostPolicy srv \<noteq> None \<Longrightarrow> calm (WorkloadEndpoint_Create vpp srv sws state network) x"
  using getWorkloadPolicies_calm [of srv "fst x" state network] configure_all_calm
  by (auto simp: calm_def WorkloadEndpoint_Create_def with_conf_def andthen_def on_vpp_def on_obj_def fail_def
      split: outcome.splits prod.splits status.splits) (metis fst_conv)

lemma all_pods_change_calm: "own_inv (fst x) \<Longrightarrow> (\<And>ss ap y. calm (op ss ap) y) \<Longrightarrow> calm (all_pods_change op ips) x"
proof -
  assume own: "own_inv (fst x)" and op: "\<And>ss ap y. calm (op ss ap) y"
  obtain s h where x: "x = (s, h)" by (cases x)
  obtain i where i: "allPodsIpset s = Some i" using own x by (auto simp: own_inv_def)
  have "calm (attempt (on_sub (op ss True) i put)) (s, h)" for ss put
    using op by (intro calm_attempt) (simp add: calm_on_sub)
  then show "calm (all_pods_change op ips) x" by (simp add: x i calm_def all_pods_change_def)
qed

lemma workloadAdded_calm:
  assumes "own_inv s"
  shows "calm (workloadAdded env i sw ifName ips) (s, h)"
proof -
  define c1 where "c1 = on_server (endpointsInterfaces_update (mput i
     (case mget (endpointsInterfaces s) i of None \<Rightarrow> [(ifName, sw)] | Some m \<Rightarrow> mput ifName sw m)))"
  define c2 where "c2 = (\<lambda>x. if sync_state (fst x) = StateInSync then
       (case mget (WorkloadEndpoints (configuredState (fst x))) i of None \<Rightarrow> skip x
        | Some wep \<Rightarrow> attempt (on_sub (WorkloadEndpoint_Create (env_vpp env) (policies (fst x)) [sw]
            (configuredState (fst x)) (WE_Network i)) wep (\<lambda>w'. upd_state False (WorkloadEndpoints_update (mput i w')))) x)
      else skip x)"
  have own1: "own_inv (fst x)" if "c1 (s, h) = (Done, x)" for x
    using that assms by (auto simp: c1_def on_server_def on_obj_def own_inv_def)
  have own2: "own_inv (fst x')" if "own_inv (fst x)" "c2 x = (Done, x')" for x x'
    using that by (cases x) (auto simp: c2_def skip_def attempt_def on_sub_def own_inv_def upd_state_def
        split: if_splits option.splits prod.splits status.splits)
  have "calm c2 x" if "own_inv (fst x)" for x
  proof (cases x)
    case (Pair s1 h1)
    have "calm (WorkloadEndpoint_Create (env_vpp env) (policies s1) [sw] (configuredState s1) (WE_Network i)) y" for y
      using that Pair by (intro WorkloadEndpoint_Create_calm) (simp add: own_inv_def)
    then have "calm (attempt (on_sub (WorkloadEndpoint_Create (env_vpp env) (policies s1) [sw] (configuredState s1) (WE_Network i))
        wep put)) (s1, h1)" for wep put
      by (intro calm_attempt) (simp add: calm_on_sub)
    then show ?thesis using Pair by (simp add: c2_def calm_def skip_def split: option.split)
  qed
  then have "calm (andthen c1 (andthen c2 (all_pods_change (AddMembers (env_vpp env)) ips))) (s, h)"
    using own1 own2 calm_members
    by (intro calm_andthen all_pods_change_calm) (auto simp: c1_def)
  then show ?thesis unfolding workloadAdded_def c1_def c2_def by (simp add: calm_def skip_def Let_def)
qed

lemma WorkloadRemoved_calm:
  assumes "own_inv s"
  shows "calm (WorkloadRemoved env i ips) (s, h)"
proof -
  define c1 where "c1 = (if sync_state s = StateInSync then
     (case mget (WorkloadEndpoints (configuredState s)) i of None \<Rightarrow> skip
      | Some wep \<Rightarrow> attempt (on_sub WorkloadEndpoint_Delete wep (\<lambda>w'. upd_state False (WorkloadEndpoints_update (mput i w')))))
     else skip)"
  have "calm c1 (s, h)"
    by (auto simp: c1_def calm_def attempt_def skip_def on_sub_def WorkloadEndpoint_Delete_def fail_def on_obj_def
        split: option.split prod.splits status.splits)
  moreover have "own_inv (fst x)" if "c1 (s, h) = (Done, x)" for x
    using that assms by (auto simp: c1_def skip_def attempt_def on_sub_def own_inv_def upd_state_def
        split: if_splits option.splits prod.splits status.splits)
  ultimately have "calm (andthen c1 (andthen (on_server (endpointsInterfaces_update (mdel i)))
      (all_pods_change (RemoveMembers (env_vpp env)) ips))) (s, h)"
    using calm_members by (intro calm_andthen all_pods_change_calm) (auto simp: on_server_def on_obj_def own_inv_def)
  moreover have "WorkloadRemoved env i ips (s, h) = (if mhas (endpointsInterfaces s) i
      then andthen c1 (andthen (on_server (endpointsInterfaces_update (mdel i)))
        (all_pods_change (RemoveMembers (env_vpp env)) ips)) (s, h) else (Done, (s, h)))"
    by (simp add: WorkloadRemoved_def c1_def skip_def)
  ultimately show ?thesis by (simp add: calm_def)
qed

section \<open>Host endpoints remember a forward configuration while in sync\<close>

definition heps_conf :: "PolicyState \<Rightarrow> bool" where
  "heps_conf st \<longleftrightarrow> (\<forall>e \<in> set (mvals (HostEndpoints st)). currentForwardConf e \<noteq> None)"

lemma handleTunnelChange_calm:
  "distinct (TunnelSwIfIndexes e) \<Longrightarrow> pending \<or> currentForwardConf e \<noteq> None \<Longrightarrow>
   fst (handleTunnelChange vpp x isAdd pending (e, h)) \<noteq> Panicked \<and>
   currentForwardConf (fst (snd (handleTunnelChange vpp x isAdd pending (e, h)))) = currentForwardConf e"
  using calm_exec
  by (auto simp: handleTunnelChange_def tunnel_del_loop_remove1 andthen_def on_obj_def on_vpp_def skip_def whenC_def Let_def
      ConfigurePolicies_def split: prod.splits option.splits status.splits) (metis fst_conv)

lemma map_foreach_calm:
  assumes "\<And>k v h. v \<in> set (mvals m) \<Longrightarrow> fst (c k (v, h)) \<noteq> Panicked"
  shows "fst (map_foreach c (m, h)) \<noteq> Panicked"
  using assms unfolding map_foreach_def
proof (induction m arbitrary: h)
  case (Cons p m)
  obtain k v where p: "p = (k, v)" by (cases p)
  obtain st v' h' where c: "c k (v, h) = (st, (v', h'))" by (metis surj_pair)
  have "st \<noteq> Panicked" using Cons.prems [of v k h] c p by simp
  moreover have "fst (foreach_mut (\<lambda>((k, v), h). case c k (v, h) of (st, (v', h')) \<Rightarrow> (st, ((k, v'), h'))) (m, h')) \<noteq> Panicked"
    using Cons.IH Cons.prems by simp
  ultimately show ?case using c p by (cases st) (auto split: prod.splits)
qed simp

lemma tunnel_endpoints_calm:
  assumes "server_inv s" "\<not> pending \<Longrightarrow> heps_conf (configuredState s)"
  shows "calm (tunnel_endpoints env sw isAdd pending) (s, h)"
    "\<not> pending \<Longrightarrow> heps_conf (configuredState (fst (snd (tunnel_endpoints env sw isAdd pending (s, h)))))"
proof -
  have e: "distinct (TunnelSwIfIndexes e) \<and> (pending \<or> currentForwardConf e \<noteq> None)"
    if "e \<in> set (mvals (HostEndpoints (currentState pending s)))" for e
    using that server_inv_current [OF assms(1), of pending] assms(2)
    by (cases pending) (auto simp: state_inv_def heps_conf_def currentState_def)
  show "calm (tunnel_endpoints env sw isAdd pending) (s, h)"
    unfolding calm_def tunnel_endpoints_def on_sub_sel fst_conv snd_conv
    by (rule map_foreach_calm) (metis e handleTunnelChange_calm)
  show "heps_conf (configuredState (fst (snd (tunnel_endpoints env sw isAdd pending (s, h)))))" if np: "\<not> pending"
  proof -
    let ?P = "\<lambda>e. distinct (TunnelSwIfIndexes e) \<and> currentForwardConf e \<noteq> None"
    have "\<forall>e \<in> set (mvals (HostEndpoints (currentState pending s))). ?P e" using e np by blast
    then have "\<forall>e \<in> set (mvals (fst (snd (map_foreach (\<lambda>_. handleTunnelChange (env_vpp env) sw isAdd pending)
        (HostEndpoints (currentState pending s), h))))). ?P e"
      by (rule map_foreach_keeps [rotated]) (metis handleTunnelChange_calm handleTunnelChange_distinct)
    then show ?thesis using np by (simp add: tunnel_endpoints_def on_sub_sel heps_conf_def upd_state_def)
  qed
qed

lemma tunnel_change_calm:
  assumes "server_inv s" "sync_state s = StateInSync \<Longrightarrow> heps_conf (configuredState s)"
  shows "calm (tunnel_change env sw isAdd) (s, h)"
    "sync_state s = StateInSync \<Longrightarrow> heps_conf (configuredState (fst (snd (tunnel_change env sw isAdd (s, h)))))"
proof -
  define s1 where "s1 = tunnelSwIfIndexes_update (if isAdd then mput sw True else mdel sw) s"
  have s1: "server_inv s1" "sync_state s1 = sync_state s" "configuredState s1 = configuredState s"
    using assms(1) by (auto simp: s1_def server_inv_def own_inv_def)
  have eq: "tunnel_change env sw isAdd (s, h) = (if sync_state s = StateDisconnected then fail ENotSyncing (s1, h)
      else tunnel_endpoints env sw isAdd (sync_state s \<noteq> StateInSync) (s1, h))"
    by (simp add: tunnel_change_eq andthen_def on_server_def on_obj_def s1_def)
  show "calm (tunnel_change env sw isAdd) (s, h)"
    using tunnel_endpoints_calm(1) [OF s1(1), of "sync_state s \<noteq> StateInSync" env sw isAdd h] assms(2) s1
    by (simp add: calm_def eq fail_def)
  show "heps_conf (configuredState (fst (snd (tunnel_change env sw isAdd (s, h)))))" if "sync_state s = StateInSync"
    using tunnel_endpoints_calm(2) [OF s1(1), of "sync_state s \<noteq> StateInSync" env sw isAdd h] assms(2) s1 that
    by (simp add: eq)
qed

lemma handleFelixServerEvents_calm:
  assumes "server_inv s" "sync_state s = StateInSync \<Longrightarrow> heps_conf (configuredState s)"
  shows "calm (handleFelixServerEvents env e) (s, h)"
proof -
  have own: "own_inv s" using assms(1) by (simp add: server_inv_def)
  show ?thesis
    using workloadAdded_calm [OF own] WorkloadRemoved_calm [OF own] tunnel_change_calm(1) [OF assms]
    by (cases "(env, e, (s, h))" rule: handleFelixServerEvents.cases) (auto simp: calm_def on_server_def on_obj_def skip_def)
qed

section \<open>The protocol\<close>

text \<open>Reconciliation does not change the synchronisation state.\<close>

lemma over_map_sync: "sync_state (fst (snd (over_map sel setm c x))) = sync_state (fst x)"
  by (simp add: over_map_def on_sub_sel)

lemma applyPendingState_sync: "sync_state (fst (snd (applyPendingState env x))) = sync_state (fst x)"
proof -
  have "preserves (\<lambda>y. sync_state (fst y) = sync_state (fst x)) (applyPendingState env)"
    unfolding applyPendingState_def cleanup_configured_def create_configured_def
    by (intro preserves_andthen) (simp_all add: preserves_def over_map_sync on_server_def on_obj_def swap_states_def)
  then show ?thesis unfolding preserves_def by blast
qed

lemma handleInSync_sync:
  "sync_state (fst (snd (handleInSync env (s, h)))) = (if sync_state s = StateSyncing then StateInSync else sync_state s)"
  using applyPendingState_sync [of env "(s\<lparr>sync_state := StateInSync\<rparr>, h)"]
  by (simp add: handleInSync_def andthen_def on_server_def on_obj_def fail_def)

lemma apply_config_changes_sync: "sync_state (fst (snd (apply_config_changes env old x))) = sync_state (fst x)"
proof -
  have guarded: "preserves (\<lambda>y. sync_state (fst y) = v) (\<lambda>x. whenC (b x) c x)"
    if "preserves (\<lambda>y. sync_state (fst y) = v) c" for v b and c :: handler
    using that by (simp add: preserves_def whenC_def skip_def)
  have "preserves (\<lambda>y. sync_state (fst y) = sync_state (fst x)) (apply_config_changes env old)"
    unfolding apply_config_changes_def
    by (intro preserves_andthen guarded vsync.own_policies_keep vsync.keeps_on_server) (simp add: SendEvent_def)
  then show ?thesis unfolding preserves_def by blast
qed

lemma handleConfigUpdate_sync:
  "sync_state (fst (snd (handleConfigUpdate env raw (s, h)))) = (if sync_state s = StateConnected then StateSyncing else sync_state s)"
  using apply_config_changes_sync [of env]
  by (auto simp: handleConfigUpdate_def Let_def andthen_def on_server_def on_obj_def fail_def whenC_def skip_def SendEvent_def
      split: prod.splits)

text \<open>The two messages that drive the protocol.\<close>

definition driving :: "felix_msg \<Rightarrow> bool" where
  "driving msg \<longleftrightarrow> msg = M_InSync \<or> (\<exists>raw. msg = M_ConfigUpdate raw)"

lemma handleFelixUpdate_other:
  "\<not> driving msg \<Longrightarrow> handleFelixUpdate env msg (s, h) =
     (case sync_state s of StateSyncing \<Rightarrow> handle_in_state env msg True (s, h)
      | StateInSync \<Rightarrow> handle_in_state env msg False (s, h) | _ \<Rightarrow> (Fail ENotSyncing, (s, h)))"
  by (cases msg) (auto simp: driving_def handleFelixUpdate_def fail_def split: SyncState.split)

lemma handle_in_state_sync: "sync_state (fst (snd (handle_in_state env msg pending (s, h)))) = sync_state s"
  using vsync.keepsD [OF vsync.handle_in_state_keeps [OF TrueI]] by blast

text \<open>The protocol as an automaton: the state a message leads to, or none when it is refused.\<close>

fun next_sync :: "felix_msg \<Rightarrow> SyncState \<Rightarrow> SyncState option" where
  "next_sync (M_ConfigUpdate _) StateConnected = Some StateSyncing"
| "next_sync (M_ConfigUpdate _) _ = None"
| "next_sync M_InSync StateSyncing = Some StateInSync"
| "next_sync M_InSync _ = None"
| "next_sync _ StateSyncing = Some StateSyncing"
| "next_sync _ StateInSync = Some StateInSync"
| "next_sync _ _ = None"

lemma next_sync_other:
  "\<not> driving msg \<Longrightarrow> next_sync msg st = (if st = StateSyncing \<or> st = StateInSync then Some st else None)"
  by (cases msg; cases st) (auto simp: driving_def)

text \<open>C6: The server follows the protocol with Felix. A configuration message is accepted only right after the
  connection and moves the server to syncing; the in-sync message only while syncing, and moves it to in
  sync, also when the reconciliation fails; any other message is accepted only in these two states and
  changes neither. A message that comes at the wrong time is refused with an error and has no effect at
  all, neither on the server nor in VPP.\<close>

theorem handleFelixUpdate_protocol:
  "case next_sync msg (sync_state s) of
     Some st' \<Rightarrow> sync_state (fst (snd (handleFelixUpdate env msg (s, h)))) = st'
   | None \<Rightarrow> handleFelixUpdate env msg (s, h) =
       (Fail (case msg of M_ConfigUpdate _ \<Rightarrow> ENotConnected | _ \<Rightarrow> ENotSyncing), (s, h))"
proof (cases "driving msg")
  case True
  then consider raw where "msg = M_ConfigUpdate raw" | "msg = M_InSync" by (auto simp: driving_def)
  then show ?thesis
  proof cases
    case 1
    then show ?thesis using handleConfigUpdate_sync [of env raw s h]
      by (cases "sync_state s") (auto simp: handleFelixUpdate_def, auto simp: handleConfigUpdate_def fail_def)
  next
    case 2
    then show ?thesis using handleInSync_sync [of env s h]
      by (cases "sync_state s") (auto simp: handleFelixUpdate_def, auto simp: handleInSync_def fail_def)
  qed
next
  case False
  then have "(case msg of M_ConfigUpdate _ \<Rightarrow> ENotConnected | _ \<Rightarrow> ENotSyncing) = ENotSyncing"
    by (cases msg) (auto simp: driving_def)
  then show ?thesis
    using handle_in_state_sync [of env msg]
    by (cases "sync_state s") (auto simp: handleFelixUpdate_other [OF False] next_sync_other [OF False])
qed

text \<open>The messages about policy: sets, policies, profiles and endpoints.\<close>

fun policy_msg :: "felix_msg \<Rightarrow> bool" where
  "policy_msg (M_IPSetUpdate _) = True"
| "policy_msg (M_IPSetDeltaUpdate _ _ _) = True"
| "policy_msg (M_IPSetRemove _) = True"
| "policy_msg (M_ActivePolicyUpdate _) = True"
| "policy_msg (M_ActivePolicyRemove _) = True"
| "policy_msg (M_ActiveProfileUpdate _ _) = True"
| "policy_msg (M_ActiveProfileRemove _) = True"
| "policy_msg (M_HostEndpointUpdate _ _) = True"
| "policy_msg (M_HostEndpointRemove _) = True"
| "policy_msg (M_WorkloadEndpointUpdate _) = True"
| "policy_msg (M_WorkloadEndpointRemove _) = True"
| "policy_msg _ = False"

section \<open>Syncing is isolated\<close>

lemma makes_on_sub: "makes K c \<Longrightarrow> makes K (on_sub c obj put)"
  by (auto simp: makes_def on_sub_def split: prod.splits) (metis snd_conv)

lemma makes_on_server: "makes K (on_server f)"
  by (simp add: on_server_def makes_skip)

lemma makes_members: "makes {} (AddMembers vpp ss False)" "makes {} (RemoveMembers vpp ss False)"
proof -
  have a: "makes {} (member_branch parsed False push store)" for parsed :: "go_error + (string, ip) gomap" and push store
    by (auto simp: makes_def member_branch_def andthen_def whenC_def go_defs split: sum.split)
  have b: "makes {} (member_branch parsed False push store)" for parsed :: "go_error + (string, IPPort) gomap" and push store
    by (auto simp: makes_def member_branch_def andthen_def whenC_def go_defs split: sum.split)
  have c: "makes {} (member_branch parsed False push store)" for parsed :: "go_error + (string, ipnet) gomap" and push store
    by (auto simp: makes_def member_branch_def andthen_def whenC_def go_defs split: sum.split)
  show "makes {} (AddMembers vpp ss False)" "makes {} (RemoveMembers vpp ss False)"
    using a b c by (auto simp: makes_def AddMembers_def RemoveMembers_def Let_def split: IpsetType.split)
qed

lemma makes_ReplaceMembers: "makes {} (ReplaceMembers vpp nxt False)"
proof -
  have "makes {} (andthen (RemoveMembers vpp r False) (AddMembers vpp a False))" for r a
    by (intro makes_andthen makes_members)
  then show ?thesis
    by (auto simp: makes_def ReplaceMembers_def fail_def split: prod.split)
qed

lemma makesI: "(\<And>s h. grows K h (snd (snd (c (s, h))))) \<Longrightarrow> makes K c"
  by (simp add: makes_def)

lemma makesE: "makes K c \<Longrightarrow> grows K h (snd (snd (c (s, h))))"
  by (simp add: makes_def)

lemma makes_policy_update_in: "makes {} (policy_update_in env m True network)"
  by (rule makesI) (auto simp: policy_update_in_def Let_def fail_def intro!: makesE makes_on_server split: sum.split option.split)

lemma makes_foreach: "(\<And>x. makes K (f x)) \<Longrightarrow> makes K (foreach f xs)"
proof (induction xs)
  case (Cons x xs)
  then show ?case
    using makes_andthen [of K "f x" "foreach f xs"] by (auto simp: makes_def andthen_def split: prod.splits status.splits)
qed (simp add: makes_def)

lemma makes_policy_remove_in: "makes {} (policy_remove_in env pid True networks)"
proof (induction networks)
  case (Cons network networks)
  then show ?case
    by (intro makesI) (auto simp: Let_def skip_def intro!: makesE makes_andthen makes_whenC makes_on_server split: option.split)
qed (simp add: makes_def skip_def)

lemma makes_workload_update_one: "makes {} (workload_update_one env m True i)"
  by (rule makesI) (auto simp: workload_update_one_def Let_def intro!: makesE makes_on_server split: option.split)

lemma syncing_makes_no_call:
  assumes "policy_msg msg"
  shows "makes {} (handle_in_state env msg True)"
proof (rule makesI)
  fix s h
  have pols: "makes {} (handleActivePolicyUpdate env m True)" "makes {} (handleWorkloadEndpointUpdate env w True)" for m w
    by (rule makesI, auto simp: handleActivePolicyUpdate_def handleWorkloadEndpointUpdate_def
        intro!: makesE makes_andthen makes_foreach makes_policy_update_in makes_workload_update_one
          makes_dep [where c = "\<lambda>s. foreach (policy_update_in env m True) (mkeys (networkDefinitions s))"])+
  show "grows {} h (snd (snd (handle_in_state env msg True (s, h))))"
    using assms
    by (cases msg) (auto simp: handleIpsetUpdate_def handleIpsetDeltaUpdate_def handleIpsetRemove_def handleActivePolicyRemove_def
        handleActiveProfileUpdate_def handleActiveProfileRemove_def handleHostEndpointUpdate_def handleHostEndpointRemove_def
        handleWorkloadEndpointRemove_def fail_def skip_def Let_def
        intro!: makesE pols makes_on_server makes_on_sub makes_andthen makes_whenC makes_members makes_ReplaceMembers
          makes_policy_remove_in
        split: sum.split option.split)
qed

text \<open>C5: Until Felix reports that it is in sync, its policy messages are only recorded: while syncing, no message
  about sets, policies, profiles or endpoints makes a VPP call, changes the state configured in VPP or
  ends the syncing, whether it succeeds or fails.\<close>

theorem syncing_isolated:
  assumes "policy_msg msg" "sync_state s = StateSyncing" "handleFelixUpdate env msg (s, h) = (st, (s', h'))"
  shows "h' = h \<and> configuredState s' = configuredState s \<and> sync_state s' = StateSyncing"
proof -
  have "\<not> driving msg" using assms(1) by (auto simp: driving_def)
  then have r: "handle_in_state env msg True (s, h) = (st, (s', h'))"
    using assms(2,3) by (simp add: handleFelixUpdate_other)
  have "grows {} h h'" using makesE [OF syncing_makes_no_call [OF assms(1)], of h env s] r by simp
  then have "h' = h" unfolding grows_def by (metis append_Nil empty_iff list.set_intros(1) neq_Nil_conv)
  moreover have "configuredState s' = configuredState s"
    using vconf.keepsD [OF vconf.handle_in_state_keeps [OF TrueI], of s "configuredState s" env msg h] r by simp
  ultimately show ?thesis using handle_in_state_sync [of env msg True s h] r assms(2) by simp
qed

theorem syncing_isolated_witness:
  "snd (snd (handleFelixUpdate env_ex (M_ActiveProfileRemove ''p'') (server_ex, []))) = [] \<and>
   configuredState (fst (snd (handleFelixUpdate env_ex (M_ActiveProfileRemove ''p'') (server_ex, [])))) = NewPolicyState"
proof -
  obtain st s' h' where r: "handleFelixUpdate env_ex (M_ActiveProfileRemove ''p'') (server_ex, []) = (st, (s', h'))"
    by (metis surj_pair)
  then show ?thesis using syncing_isolated [OF _ _ r] by (simp add: server_ex_def)
qed

section \<open>Reachable states\<close>

lemma hep_configure_conf:
  assumes "hep_configure vpp srv src state x = (Done, x')"
  shows "currentForwardConf (fst x') \<noteq> None"
  using assms unfolding hep_configure_def with_conf_def
  by (auto simp: fail_def panic_def andthen_Done on_vpp_eq on_obj_eq split: outcome.splits)

lemma hep_methods_conf:
  "HostEndpoint_Create vpp srv state x = (Done, x') \<Longrightarrow> currentForwardConf (fst x') \<noteq> None"
  "HostEndpoint_Update vpp srv new state x = (Done, x') \<Longrightarrow> currentForwardConf (fst x') \<noteq> None"
  using hep_configure_conf
  by (fastforce simp: HostEndpoint_Create_def HostEndpoint_Update_def andthen_Done on_obj_eq)+

lemma heps_conf_mput: "heps_conf st \<Longrightarrow> currentForwardConf e \<noteq> None \<Longrightarrow> heps_conf (HostEndpoints_update (mput i e) st)"
  using set_mvals_mput [of i e "HostEndpoints st"] by (auto simp: heps_conf_def)

lemma heps_conf_mdel: "heps_conf st \<Longrightarrow> heps_conf (HostEndpoints_update (mdel i) st)"
  using set_mvals_mdel [of i "HostEndpoints st"] by (auto simp: heps_conf_def)

lemma handleHostEndpointUpdate_conf:
  assumes "heps_conf (configuredState s)" "handleHostEndpointUpdate env i endpoint False (s, h) = (Done, (s', h'))"
  shows "heps_conf (configuredState s')"
  using assms
  by (auto simp: handleHostEndpointUpdate_def Let_def currentState_def upd_state_def on_sub_def skip_def
      split: if_splits option.splits prod.splits intro!: heps_conf_mput dest!: hep_methods_conf)

lemma mdel_mput [simp]: "mdel k (mput k v m) = mdel k m"
  by (induction m) (auto simp: split_paired_all)

lemma handleHostEndpointRemove_conf:
  assumes "heps_conf (configuredState s)" "handleHostEndpointRemove env i False (s, h) = (Done, (s', h'))"
  shows "heps_conf (configuredState s')"
proof (cases "mget (HostEndpoints (configuredState s)) i")
  case (Some e)
  have del: "HostEndpoints (configuredState s') = mdel i (HostEndpoints (configuredState s))"
    using assms(2) Some
    by (auto simp: handleHostEndpointRemove_def currentState_def andthen_Done whenC_def skip_def on_sub_def on_server_def on_obj_def
        upd_state_def split: if_splits prod.splits)
  show ?thesis using assms(1) set_mvals_mdel [of i "HostEndpoints (configuredState s)"] by (auto simp: heps_conf_def del)
qed (use assms in \<open>simp add: handleHostEndpointRemove_def currentState_def skip_def\<close>)

lemma handle_in_state_conf:
  assumes "heps_conf (configuredState s)" "handle_in_state env msg False (s, h) = (Done, (s', h'))"
  shows "heps_conf (configuredState s')"
proof -
  consider (upd) i e where "msg = M_HostEndpointUpdate i e" | (rem) i where "msg = M_HostEndpointRemove i"
    | (other) "\<nexists>i e. msg = M_HostEndpointUpdate i e \<or> msg = M_HostEndpointRemove i" by blast
  then show ?thesis
  proof cases
    case upd
    show ?thesis using handleHostEndpointUpdate_conf [OF assms(1)] assms(2) unfolding upd handle_in_state.simps .
  next
    case rem
    show ?thesis using handleHostEndpointRemove_conf [OF assms(1)] assms(2) unfolding rem handle_in_state.simps .
  next
    case other
  have "HostEndpoints (configuredState (fst (snd (handle_in_state env msg False (s, h))))) = HostEndpoints (configuredState s)"
    using other by (cases msg) (auto simp: skip_def intro!: vheps.handlers_keep [THEN vheps.keepsD])
    then show ?thesis using assms by (simp add: heps_conf_def)
  qed
qed

lemma map_foreach_result:
  assumes "map_foreach c (m, h) = (Done, (m', h'))" "\<And>k v h v' h'. c k (v, h) = (Done, (v', h')) \<Longrightarrow> Q v'"
  shows "\<forall>v \<in> set (mvals m'). Q v"
  using map_foreach_Done [OF assms(1), where J = "\<lambda>_. True" and Q = "\<lambda>_ _ _. True" and G = "\<lambda>v _. Q v"] assms(2) by blast

lemma applyPendingState_conf:
  assumes "applyPendingState env x = (Done, (s', h'))"
  shows "heps_conf (configuredState s')"
proof -
  obtain s1 h1 where "create_configured env (s1, h1) = (Done, (s', h'))"
    using assms unfolding applyPendingState_def andthen_Done by (auto simp: split_paired_all)
  then obtain m5 s4 h4 where m5: "map_foreach (\<lambda>_. HostEndpoint_Create (env_vpp env) (policies s4) (configuredState s4))
      (HostEndpoints (configuredState s4), h4) = (Done, (m5, h'))"
    "s' = s4\<lparr>configuredState := (configuredState s4)\<lparr>HostEndpoints := m5\<rparr>\<rparr>"
    by (rule create_configured_stages) blast
  have "\<forall>e \<in> set (mvals m5). currentForwardConf e \<noteq> None"
    by (rule map_foreach_result [OF m5(1)]) (metis fst_conv hep_methods_conf(1))
  then show ?thesis by (simp add: m5(2) heps_conf_def)
qed

text \<open>The invariant of the loop.\<close>

definition serve_inv :: "serve_state \<Rightarrow> bool" where
  "serve_inv c \<longleftrightarrow> (case c of (ph, s, h) \<Rightarrow>
     (ph = Accepting \<longrightarrow> server_inv s \<and> sync_state s = StateDisconnected) \<and>
     (ph = Serving \<longrightarrow> server_inv s \<and> sync_state s \<noteq> StateDisconnected \<and>
        (sync_state s = StateInSync \<longrightarrow> heps_conf (configuredState s))))"

lemma start_felix_inv:
  assumes "NewFelixServer env = Inr s0" "start_felix env (s0, h0) = (Done, (s, h))"
  shows "server_inv s \<and> sync_state s = StateDisconnected"
proof -
  obtain s1 h1 s2 h2 s3 h3 s4 h4 s5 where
    c: "createAllPodsIpset env (s0, h0) = (Done, (s1, h1))" "createEndpointToHostPolicy env (s1, h1) = (Done, (s2, h2))"
      "createAllowFromHostPolicy env (s2, h2) = (Done, (s3, h3))" "createAllowToHostPolicy env (s3, h3) = (Done, (s4, h4))"
      "createFailSafePolicies env (s4, h4) = (Done, (s5, h))" "s = s5\<lparr>sync_state := StateDisconnected\<rparr>"
    using assms(2) unfolding start_felix_def andthen_Done
    by (elim exE conjE) (auto simp: split_paired_all on_server_def on_obj_def)
  have s0: "configuredState s0 = NewPolicyState" "pendingState s0 = NewPolicyState" "tunnelSwIfIndexes s0 = []"
    using assms(1) by (auto simp: NewFelixServer_def split: sum.splits)
  obtain i where s1: "s1 = s0\<lparr>allPodsIpset := Some i\<rparr>" "ipset_inv i"
    using c(1) IPSet_Create_keeps_inv [of NewIPSet "env_vpp env" h0]
    by (auto simp: createAllPodsIpset_def ipset_inv_def NewIPSet_def split: prod.splits status.splits)
  obtain p2 a b where s2: "s2 = s1\<lparr>policies := (policies s1)\<lparr>workloadsToHostPolicy := Some p2, defaultTap0IngressConf := a,
      defaultTap0EgressConf := b\<rparr>\<rparr>"
    using c(2) by (auto simp: createEndpointToHostPolicy_def Let_def split: prod.splits status.splits)
  obtain p3 where s3: "s3 = s2\<lparr>policies := (policies s2)\<lparr>AllowFromHostPolicy := Some p3\<rparr>\<rparr>"
    using c(3) by (auto simp: createAllowFromHostPolicy_def split: prod.splits)
  obtain p4 where s4: "s4 = s3\<lparr>policies := (policies s3)\<lparr>allowToHostPolicy := Some p4\<rparr>\<rparr>"
    using c(4) by (auto simp: createAllowToHostPolicy_def split: prod.splits)
  obtain p5 where s5: "s5 = s4\<lparr>policies := (policies s4)\<lparr>failSafePolicy := Some p5\<rparr>\<rparr>"
    using c(5) by (auto simp: createFailSafePolicies_def split: prod.splits status.splits option.splits)
  show ?thesis using s0 s1(2) unfolding c(6) s5 s4 s3 s2 s1(1) by (simp add: server_inv_def own_inv_def)
qed

text \<open>Pod events change neither the synchronisation state nor a host endpoint.\<close>

definition view :: "Server \<Rightarrow> SyncState \<times> (HostEndpointID, HostEndpoint) gomap" where
  "view s = (sync_state s, HostEndpoints (configuredState s))"

lemma view_simps [simp]:
  "view (endpointsInterfaces_update f s) = view s" "view (s\<lparr>allPodsIpset := a\<rparr>) = view s"
  "view (upd_state p (WorkloadEndpoints_update g) s) = view s" "view (networkDefinitions_update n s) = view s"
  by (simp_all add: view_def upd_state_def)

lemma pods_view: "preserves (\<lambda>x. view (fst x) = v) (all_pods_change op ips)"
  by (auto simp: preserves_def all_pods_change_def panic_def on_sub_sel split: option.split)

lemma workloadAdded_view: "view (fst (snd (workloadAdded env i sw ifName ips (s, h)))) = view s"
proof -
  have "preserves (\<lambda>x. view (fst x) = v) (\<lambda>x. if sync_state (fst x) = StateInSync then
       (case mget (WorkloadEndpoints (configuredState (fst x))) i of None \<Rightarrow> skip x
        | Some wep \<Rightarrow> attempt (on_sub (WorkloadEndpoint_Create (env_vpp env) (policies (fst x)) [sw]
            (configuredState (fst x)) (WE_Network i)) wep (\<lambda>w'. upd_state False (WorkloadEndpoints_update (mput i w')))) x)
      else skip x)" for v
    by (auto simp: preserves_def skip_def on_sub_sel split: option.split)
  moreover have "preserves (\<lambda>x. view (fst x) = v) (on_server (endpointsInterfaces_update f))" for v f
    by (simp add: preserves_def on_server_def on_obj_def)
  ultimately have "preserves (\<lambda>x. view (fst x) = v) (andthen (on_server (endpointsInterfaces_update f)) (andthen (\<lambda>x. if sync_state (fst x) = StateInSync then
       (case mget (WorkloadEndpoints (configuredState (fst x))) i of None \<Rightarrow> skip x
        | Some wep \<Rightarrow> attempt (on_sub (WorkloadEndpoint_Create (env_vpp env) (policies (fst x)) [sw]
            (configuredState (fst x)) (WE_Network i)) wep (\<lambda>w'. upd_state False (WorkloadEndpoints_update (mput i w')))) x)
      else skip x) (all_pods_change (AddMembers (env_vpp env)) ips)))" for v f
    by (intro preserves_andthen pods_view) auto
  then show ?thesis unfolding workloadAdded_def Let_def preserves_def by (auto simp: skip_def)
qed

lemma WorkloadRemoved_view: "view (fst (snd (WorkloadRemoved env i ips (s, h)))) = view s"
proof -
  let ?del = "\<lambda>s. if sync_state s = StateInSync then
     (case mget (WorkloadEndpoints (configuredState s)) i of None \<Rightarrow> skip
      | Some wep \<Rightarrow> attempt (on_sub WorkloadEndpoint_Delete wep (\<lambda>w'. upd_state False (WorkloadEndpoints_update (mput i w')))))
     else skip"
  have "preserves (\<lambda>x. view (fst x) = v) (?del s)" "preserves (\<lambda>x. view (fst x) = v) (on_server (endpointsInterfaces_update (mdel i)))" for v
    by (auto simp: preserves_def skip_def on_sub_sel on_server_def on_obj_def split: option.split)
  then have "preserves (\<lambda>x. view (fst x) = v) (andthen (?del s) (andthen (on_server (endpointsInterfaces_update (mdel i)))
      (all_pods_change (RemoveMembers (env_vpp env)) ips)))" for v
    by (intro preserves_andthen pods_view)
  then have "view (fst (snd (andthen (?del s) (andthen (on_server (endpointsInterfaces_update (mdel i)))
      (all_pods_change (RemoveMembers (env_vpp env)) ips)) (s, h)))) = view s"
    unfolding preserves_def by (metis fst_conv)
  then show ?thesis unfolding WorkloadRemoved_def fst_conv by (cases "mhas (endpointsInterfaces s) i") (simp_all only: skip_def simp_thms if_True if_False fst_conv snd_conv)
qed

lemma tunnel_change_sync: "sync_state (fst (snd (tunnel_change env sw isAdd (s, h)))) = sync_state s"
  by (simp add: tunnel_change_eq tunnel_endpoints_def andthen_def on_server_def on_obj_def fail_def on_sub_sel upd_state_def)

lemma event_keeps:
  assumes "server_inv s" "sync_state s = StateInSync \<Longrightarrow> heps_conf (configuredState s)"
    "handleFelixServerEvents env e (s, h) = (st, (s', h'))"
  shows "sync_state s' = sync_state s \<and> (sync_state s = StateInSync \<longrightarrow> heps_conf (configuredState s'))"
proof -
  have s': "s' = fst (snd (handleFelixServerEvents env e (s, h)))" using assms(3) by simp
  consider (tunnel) sw isAdd where "handleFelixServerEvents env e (s, h) = tunnel_change env sw isAdd (s, h)" | (pod) "view s' = view s"
    unfolding s'
    by (cases "(env, e, (s, h))" rule: handleFelixServerEvents.cases)
      (auto simp: workloadAdded_view WorkloadRemoved_view on_server_def on_obj_def skip_def)
  then show ?thesis
  proof cases
    case tunnel
    then show ?thesis using s' tunnel_change_sync [of env sw isAdd s h] tunnel_change_calm(2) [OF assms(1,2)] by simp
  next
    case pod
    then show ?thesis using assms(2) by (auto simp: view_def heps_conf_def)
  qed
qed

lemma felix_message_keeps:
  assumes "sync_state s = StateInSync \<Longrightarrow> heps_conf (configuredState s)" "sync_state s \<noteq> StateDisconnected"
    "handleFelixUpdate env m (s, h) = (Done, (s', h'))"
  shows "sync_state s' \<noteq> StateDisconnected \<and> (sync_state s' = StateInSync \<longrightarrow> heps_conf (configuredState s'))"
proof -
  consider (config) raw where "m = M_ConfigUpdate raw" | (insync) "m = M_InSync" | (other) "\<not> driving m"
    by (auto simp: driving_def)
  then show ?thesis
  proof cases
    case config
    then have r: "handleConfigUpdate env raw (s, h) = (Done, (s', h'))" using assms(3) by (simp add: handleFelixUpdate_def)
    then have "sync_state s = StateConnected" by (auto simp: handleConfigUpdate_def fail_def split: if_splits)
    then show ?thesis using handleConfigUpdate_sync [of env raw s h] r by simp
  next
    case insync
    then have r: "handleInSync env (s, h) = (Done, (s', h'))" using assms(3) by (simp add: handleFelixUpdate_def)
    then have ss: "sync_state s = StateSyncing" by (auto simp: handleInSync_def fail_def split: if_splits)
    then have "applyPendingState env (s\<lparr>sync_state := StateInSync\<rparr>, h) = (Done, (s', h'))"
      using r by (simp add: handleInSync_def andthen_Done on_server_def on_obj_def)
    then show ?thesis using applyPendingState_conf handleInSync_sync [of env s h] r ss by simp
  next
    case other
    then show ?thesis
      using assms handleFelixUpdate_other [OF other, of env s h] handle_in_state_sync [of env m] handle_in_state_conf
      by (cases "sync_state s") (auto, (metis SyncState.distinct fst_conv snd_conv)+)
  qed
qed

lemma serve_step_inv: "serve_step env c c' \<Longrightarrow> serve_inv c \<Longrightarrow> serve_inv c'"
proof (induction rule: serve_step.induct)
  case (event e x st x')
  obtain s h s' h' where x: "x = (s, h)" "x' = (s', h')" by (cases x, cases x')
  have s: "server_inv s" "sync_state s = StateInSync \<Longrightarrow> heps_conf (configuredState s)" "sync_state s \<noteq> StateDisconnected"
    using event.prems x by (auto simp: serve_inv_def)
  have "server_inv s'" using sinv.keepsD [OF handleFelixServerEvents_inv s(1), of env e h] event.hyps(1) x by simp
  then show ?case using event_keeps [OF s(1,2)] event.hyps(1) s(3) x by (auto simp: serve_inv_def)
next
  case (message m x x')
  obtain s h s' h' where x: "x = (s, h)" "x' = (s', h')" by (cases x, cases x')
  have s: "server_inv s" "sync_state s = StateInSync \<Longrightarrow> heps_conf (configuredState s)" "sync_state s \<noteq> StateDisconnected"
    using message.prems x by (auto simp: serve_inv_def)
  have "server_inv s'" using sinv.keepsD [OF handleFelixUpdate_inv s(1), of env m h] message.hyps x by simp
  moreover have "sync_state s' \<noteq> StateDisconnected \<and> (sync_state s' = StateInSync \<longrightarrow> heps_conf (configuredState s'))"
    using felix_message_keeps [OF s(2,3)] message.hyps x by blast
  ultimately show ?case by (simp add: serve_inv_def x)
next
  case (message_error m x e x')
  then show ?case using sinv.keepsD [OF handleFelixUpdate_inv, of "fst x" env m "snd x"]
    by (auto simp: serve_inv_def disconnect_def split_paired_all)
qed (auto simp: serve_inv_def disconnect_def)

lemma served_inv: "served env c \<Longrightarrow> serve_inv c"
proof (induction rule: served.induct)
  case (started s0 h0 x)
  then show ?case using start_felix_inv by (cases x) (auto simp: serve_inv_def)
next
  case (step c c')
  then show ?case using serve_step_inv by blast
qed

text \<open>C4: In every state the server reaches between start and end, the policies it made for itself exist, every
  set, also that of all pods, holds exactly what its members parse to, under distinct names, no host
  endpoint lists a tunnel twice, and while it is in sync every host endpoint has the forward
  configuration that tunnels added later are given.\<close>

theorem served_bookkeeping:
  assumes "served env (ph, s, h)" "ph = Accepting \<or> ph = Serving"
  shows "own_inv s \<and> state_inv (configuredState s) \<and> state_inv (pendingState s) \<and> wf_map (tunnelSwIfIndexes s) \<and>
    (sync_state s = StateDisconnected \<longleftrightarrow> ph = Accepting) \<and>
    (sync_state s = StateInSync \<longrightarrow> heps_conf (configuredState s))"
  using served_inv [OF assms(1)] assms(2) by (auto simp: serve_inv_def server_inv_def)

text \<open>The server of the example environment after its start.\<close>

definition started_ex :: "Server \<times> vhist" where
  "started_ex = (case NewFelixServer env_ex of Inr s0 \<Rightarrow> snd (start_felix env_ex (s0, [])))"

lemmas start_run = NewFelixServer_def mapTagToInterfaceDetails_def start_felix_def createAllPodsIpset_def
  createEndpointToHostPolicy_def createAllowFromHostPolicy_def createAllowToHostPolicy_def createFailSafePolicies_def
  create_or_update_def allowFromHost_policy_def allowToHost_policy_def failsafe_policy_def workloadsToHost_rule_def
  all_pods_sets_def host_nets_def rule_lit_def wepAddrIpset_def

lemma started_ex_Done: "\<exists>s0. NewFelixServer env_ex = Inr s0 \<and> start_felix env_ex (s0, []) = (Done, started_ex)"
proof -
  obtain s0 where s0: "NewFelixServer env_ex = Inr s0"
    by (simp add: NewFelixServer_def mapTagToInterfaceDetails_def env_ex_def)
  have "fst (start_felix env_ex (s0, [])) = Done"
    using s0 by (auto simp: start_run reconcile_run policy_run server_examples Let_def)
  then show ?thesis using s0 by (simp add: started_ex_def) (metis prod.collapse)
qed

lemma started_ex_served: "served env_ex (Accepting, started_ex)"
    "served env_ex (Serving, (fst started_ex)\<lparr>sync_state := StateConnected\<rparr>, snd started_ex)"
proof -
  show a: "served env_ex (Accepting, started_ex)"
    using started_ex_Done served.started by blast
  have "serve_step env_ex (Accepting, started_ex) (Serving, (fst started_ex)\<lparr>sync_state := StateConnected\<rparr>, snd started_ex)"
    using serve_step.accept [of env_ex "fst started_ex" "snd started_ex"] by simp
  with a show "served env_ex (Serving, (fst started_ex)\<lparr>sync_state := StateConnected\<rparr>, snd started_ex)"
    by (rule served.step)
qed

theorem served_bookkeeping_witness: "own_inv (fst started_ex)"
  using served_bookkeeping [of env_ex Accepting "fst started_ex" "snd started_ex"] started_ex_served(1) by simp

text \<open>C2: No event of the other components, a pod, a tunnel or a network coming or going, makes the agent panic,
  whatever messages and events came before: in no reachable state is the set of all pods, a policy of the
  server or the forward configuration of a host endpoint missing when an event needs it.\<close>

theorem served_events_calm:
  assumes "served env (Serving, x)"
  shows "fst (handleFelixServerEvents env e x) \<noteq> Panicked"
  using served_inv [OF assms] handleFelixServerEvents_calm [of "fst x" env e "snd x"]
  by (cases x) (auto simp: serve_inv_def calm_def)

theorem served_events_calm_witness:
  "fst (handleFelixServerEvents env_ex (TunnelAdded 3)
     ((fst started_ex)\<lparr>sync_state := StateConnected\<rparr>, snd started_ex)) \<noteq> Panicked"
  by (rule served_events_calm [OF started_ex_served(2)])

section \<open>Pools\<close>

text \<open>The pool's block contains the prefix: same family, the address inside, and at least as long.\<close>

definition pool_holds :: "ipnet \<Rightarrow> IPAMPool \<Rightarrow> bool" where
  "pool_holds prefix p = (case ParseCIDR (Pool_Cidr p) of
     None \<Rightarrow> False
   | Some (_, block) \<Rightarrow> snd (Mask_Size (IPNet_Mask block)) = snd (Mask_Size (IPNet_Mask prefix)) \<and>
       Contains block (IPNet_IP prefix) \<and> fst (Mask_Size (IPNet_Mask block)) \<le> fst (Mask_Size (IPNet_Mask prefix)))"

lemma ipamPoolContains_holds:
  "ParseCIDR (Pool_Cidr p) \<noteq> None \<Longrightarrow> ipamPoolContains p prefix = Ret (pool_holds prefix p)"
  by (auto simp: ipamPoolContains_def pool_holds_def split: prod.splits)

lemma first_pool_find:
  "\<forall>p \<in> set pools. ParseCIDR (Pool_Cidr p) \<noteq> None \<Longrightarrow> first_pool pools prefix = Ret (find (pool_holds prefix) pools)"
  by (induction pools) (auto simp: ipamPoolContains_holds)

lemma first_pool_crash:
  assumes "\<forall>p \<in> set pre. ParseCIDR (Pool_Cidr p) \<noteq> None \<and> \<not> pool_holds prefix p" "ParseCIDR (Pool_Cidr q) = None"
  shows "first_pool (pre @ q # post) prefix = Crash"
  using assms by (induction pre) (auto simp: ipamPoolContains_holds, simp add: ipamPoolContains_def)


definition pool_ex :: IPAMPool where
  "pool_ex = \<lparr>Pool_Cidr = ''10.0.0.0/8'', Pool_Masquerade = False, Pool_IpipMode = [], Pool_VxlanMode = []\<rparr>"

definition prefix_ex :: ipnet where
  "prefix_ex = \<lparr>IPNet_IP = [10, 1, 2, 3], IPNet_Mask = [255, 255, 255, 255]\<rparr>"

lemma pool_ex_block: "ParseCIDR (Pool_Cidr pool_ex) =
    Some (v4InV6Prefix @ [10, 0, 0, 0], \<lparr>IPNet_IP = [10, 0, 0, 0], IPNet_Mask = [255, 0, 0, 0]\<rparr>)"
  by (simp add: pool_ex_def net_eval Let_def upt_rec)


text \<open>A pool update that changes nothing but whether the pool masquerades is lost: the handler succeeds
  without storing the pool, telling VPP or sending an event, so the answer of \<open>NeedsSNAT\<close> stays the old
  one.\<close>

theorem masquerade_change_lost:
  assumes "mget (ippoolmap s) i = Some old" "new = old\<lparr>Pool_Masquerade := \<not> Pool_Masquerade old\<rparr>"
  shows "handleIpamPoolUpdate env i new pending (s, h) = (Done, (s, h))"
  using assms by (simp add: handleIpamPoolUpdate_def ipamPoolEquals_def skip_def)

theorem masquerade_change_lost_witness:
  "ippoolmap (fst (snd (handleIpamPoolUpdate env_ex ''pool'' (pool_ex\<lparr>Pool_Masquerade := True\<rparr>) False
     (server_ex\<lparr>ippoolmap := [(''pool'', pool_ex)]\<rparr>, [])))) = [(''pool'', pool_ex)]"
  by (subst masquerade_change_lost [where old = pool_ex]) (simp_all add: pool_ex_def)

section \<open>Nodes\<close>

text \<open>A node that leaves and comes back with the addresses it had is announced as gone and never again as
  present: the removal keeps the node in the table, so that the update looks like no change.\<close>

theorem node_readd_lost:
  assumes "mget (nodeStatesByName s) n = Some spec" "LN_Name spec = n" "n \<noteq> NodeName env"
    "NewLocalNodeSpec env m = Inr spec"
  shows "case andthen (handleHostMetadataV4V6Remove env n pending) (handleHostMetadataV4V6Update env m pending) (s, h) of
    (st, (s', h')) \<Rightarrow> st = Done \<and> h' = h \<and> events s' = events s @ [PeerNodeStateChanged (Some spec) None]"
  using assms
  by (simp add: handleHostMetadataV4V6Remove_def handleHostMetadataV4V6Update_def andthen_def on_server_def on_obj_def whenC_def
      skip_def SendEvent_def GetIPNetChangeType_def GetStringChangeType_def ChangeSame_def Let_def)

definition node_ex :: LocalNodeSpec where
  "node_ex = \<lparr>LN_ASNumber = None, LN_Labels = [], LN_Name = ''peer'', IPv4Address = None, IPv6Address = None\<rparr>"

definition node_msg_ex :: HostMetadataV4V6Update where
  "node_msg_ex = \<lparr>HM_Hostname = ''peer'', HM_Ipv4Addr = [], HM_Ipv6Addr = [], HM_Asnumber = [], HM_Labels = []\<rparr>"

theorem node_readd_lost_witness:
  "events (fst (snd (andthen (handleHostMetadataV4V6Remove env_ex ''peer'' False)
     (handleHostMetadataV4V6Update env_ex node_msg_ex False) (server_ex\<lparr>nodeStatesByName := [(''peer'', node_ex)]\<rparr>, [])))) =
   [PeerNodeStateChanged (Some node_ex) None]"
  using node_readd_lost [where s = "server_ex\<lparr>nodeStatesByName := [(''peer'', node_ex)]\<rparr>" and n = "''peer''" and spec = node_ex
      and env = env_ex and m = node_msg_ex and pending = False and h = "[]"]
  by (auto simp: node_ex_def node_msg_ex_def NewLocalNodeSpec_def parse_node_addr_def env_ex_def server_ex_def split: prod.splits)

section \<open>Policies of several networks\<close>

text \<open>Removing a policy that the default network no longer has does nothing, also when other networks still
  have it: their policies stay in the state and in VPP.\<close>

theorem policy_remove_partial:
  assumes "mget (Policies (currentState pending s)) (fromProtoPolicyID pid []) = None"
    "mget (Policies (currentState pending s)) (fromProtoPolicyID pid net) = Some p"
  shows "handleActivePolicyRemove env pid pending (s, h) = (Done, (s, h)) \<and>
    mget (Policies (currentState pending (fst (snd (handleActivePolicyRemove env pid pending (s, h)))))) (fromProtoPolicyID pid net) = Some p"
  using assms by (simp add: handleActivePolicyRemove_def skip_def Let_def)

theorem policy_remove_partial_witness:
  "mget (Policies (configuredState (fst (snd (handleActivePolicyRemove env_ex pid_ex False
     (server_ex\<lparr>configuredState := NewPolicyState\<lparr>Policies := [(fromProtoPolicyID pid_ex ''blue'', policy_ex)]\<rparr>,
        networkDefinitions := [(''blue'', \<lparr>ND_Name = ''blue'', ND_NetAttachDefs = ''n''\<rparr>)]\<rparr>, []))))))
     (fromProtoPolicyID pid_ex ''blue'') = Some policy_ex"
  using policy_remove_partial [where pending = False and pid = pid_ex and net = "''blue''" and p = policy_ex and env = env_ex and h = "[]"
      and s = "server_ex\<lparr>configuredState := NewPolicyState\<lparr>Policies := [(fromProtoPolicyID pid_ex ''blue'', policy_ex)]\<rparr>,
        networkDefinitions := [(''blue'', \<lparr>ND_Name = ''blue'', ND_NetAttachDefs = ''n''\<rparr>)]\<rparr>"]
  by (simp add: currentState_def fromProtoPolicyID_def)

end
