(* ===== verification/EgressManager.thy ===== *)
theory EgressManager
  imports NetAddr "HOL-Library.Sublist"
begin

text \<open>
  \<open>calico-vpp-agent/srv6egress\<close>, the headend side: the egress policies (\<open>srv6egress/apis/v1/types.go\<close>),
  the steering entries a policy asks for on this node (\<open>steering.go\<close>, \<open>types.go\<close>), and the manager that
  keeps them installed while its SR policy is live and blackholes the traffic while it is not
  (\<open>manager.go\<close>). The locks serialise the operations, which are functions on the manager's state and
  the history of the calls made to the dataplane through \<open>VPPInterface\<close>; the reply says whether the
  call succeeded. Parameters: the dataplane, and the resolver of selectors to local pod addresses.
\<close>

section \<open>Egress policies\<close>

text \<open>The label selectors are matched by Kubernetes.\<close>

typedecl LabelSelector

record Selector =
  NamespaceSelector :: "LabelSelector option"
  PodSelector :: "LabelSelector option"

record CandidatePathStatus =
  CPS_Upstream :: string
  CPS_SegmentList :: "string list"
  CPS_Preference :: u32

record SRPolicyStatus =
  SRP_BSID :: string
  SRP_Color :: u32
  SegmentList :: "string list"
  CandidatePaths :: "CandidatePathStatus list"
  EndpointAddr :: string

record Condition =
  Cond_Type :: string
  Cond_Status :: string

record EgressPolicy =
  EP_UID :: string
  EP_Name :: string
  EP_Selector :: Selector
  DestinationCIDRs :: "string list"
  EP_Color :: u32
  OnUnavailable :: string
  ActiveEndpoint :: string
  EP_Upstream :: string
  ReturnPrefixes :: "string list"
  EP_SRPolicy :: "SRPolicyStatus option"
  Conditions :: "Condition list"

definition isReady :: "EgressPolicy \<Rightarrow> bool" where
  "isReady ep = list_ex (\<lambda>c. Cond_Type c = ''Ready'' \<and> Cond_Status c = ''True'') (Conditions ep)"

definition policyBSID :: "EgressPolicy \<Rightarrow> ip option" where
  "policyBSID ep =
     (case EP_SRPolicy ep of
        None \<Rightarrow> None
      | Some sp \<Rightarrow> if SRP_BSID sp = [] then None else ParseIP (SRP_BSID sp))"

definition onUnavailableDrop :: "EgressPolicy \<Rightarrow> bool" where
  "onUnavailableDrop ep \<longleftrightarrow> OnUnavailable ep \<noteq> ''Fallback''"

section \<open>Steering entries\<close>

text \<open>A nil address is the empty list.\<close>

record SteeringRequest =
  SQ_PolicyUID :: string
  PodIP :: ip
  DestPrefix :: "ipnet option"
  SQ_Color :: u32
  BSID :: ip

definition sq_key :: "SteeringRequest \<Rightarrow> string" where
  "sq_key s = ip_String (PodIP s) @ ''|'' @ (case DestPrefix s of None \<Rightarrow> [] | Some n \<Rightarrow> ipnet_String n) @ ''|'' @
     ip_String (BSID s)"

definition isV6 :: "ip \<Rightarrow> bool" where
  "isV6 a \<longleftrightarrow> a \<noteq> [] \<and> To4 a = None"

definition parseV6 :: "string \<Rightarrow> ip option" where
  "parseV6 s = (case ParseIP s of None \<Rightarrow> None | Some a \<Rightarrow> if isV6 a then Some a else None)"

definition parseV6DestCIDRs :: "string list \<Rightarrow> ipnet list" where
  "parseV6DestCIDRs cidrs = List.map_filter (\<lambda>c.
     case ParseCIDR c of
       None \<Rightarrow> None
     | Some (_, n) \<Rightarrow> if To4 (IPNet_IP n) \<noteq> None then None else Some n) cidrs"

type_synonym resolver = "Selector \<Rightarrow> ip list option"

definition podDestPairs :: "resolver \<Rightarrow> EgressPolicy \<Rightarrow> SteeringRequest list" where
  "podDestPairs pods ep =
     (let dests = parseV6DestCIDRs (DestinationCIDRs ep) in
      if dests = [] then []
      else case pods (EP_Selector ep) of
             None \<Rightarrow> []
           | Some podIPs \<Rightarrow>
               concat (map (\<lambda>a. map (\<lambda>dst. \<lparr>SQ_PolicyUID = EP_UID ep, PodIP = a, DestPrefix = Some dst, SQ_Color = 0, BSID = []\<rparr>) dests)
                 (filter isV6 podIPs)))"

definition desired :: "resolver \<Rightarrow> EgressPolicy \<Rightarrow> SteeringRequest list" where
  "desired pods ep =
     (case policyBSID ep of
        None \<Rightarrow> []
      | Some bsid \<Rightarrow> map (\<lambda>r. r\<lparr>SQ_Color := EP_Color ep, BSID := bsid\<rparr>) (podDestPairs pods ep))"

definition blackholeTargets :: "resolver \<Rightarrow> EgressPolicy \<Rightarrow> SteeringRequest list" where
  "blackholeTargets pods ep = podDestPairs pods ep"

section \<open>The manager\<close>

datatype seam_call =
    InstallSteering SteeringRequest
  | RemoveSteering SteeringRequest
  | InstallBlackhole SteeringRequest
  | RemoveBlackhole SteeringRequest

type_synonym seam = "(seam_call, bool) service"
type_synonym shist = "(seam_call, bool) hist"
type_synonym requests = "(string, SteeringRequest) gomap"

record policyState =
  ps_policy :: "EgressPolicy option"
  installs :: requests
  blackholes :: requests

record Manager =
  mgr_policies :: "(string, policyState) gomap"
  liveBSIDs :: "(string, unit) gomap"

definition NewManager :: Manager where
  "NewManager = \<lparr>mgr_policies = [], liveBSIDs = []\<rparr>"

definition bsidLive :: "Manager \<Rightarrow> ip option \<Rightarrow> bool" where
  "bsidLive m bsid = (case bsid of None \<Rightarrow> False | Some a \<Rightarrow> mhas (liveBSIDs m) (ip_String a))"

text \<open>The loops over a map of requests: remove and forget each, whatever the reply; remove those that are
  no longer wanted and forget those whose removal succeeded; install those that are missing and record
  those whose installation succeeded.\<close>

fun forget_all :: "seam \<Rightarrow> (SteeringRequest \<Rightarrow> seam_call) \<Rightarrow> (string \<times> SteeringRequest) list \<Rightarrow> requests \<times> shist \<Rightarrow> requests \<times> shist" where
  "forget_all seam rm [] s = s"
| "forget_all seam rm ((k, req) # rest) (m, h) = forget_all seam rm rest (mdel k m, snd (call seam (rm req) h))"

fun remove_stale :: "seam \<Rightarrow> (SteeringRequest \<Rightarrow> seam_call) \<Rightarrow> string set \<Rightarrow> (string \<times> SteeringRequest) list \<Rightarrow>
    requests \<times> shist \<Rightarrow> requests \<times> shist" where
  "remove_stale seam rm keep [] s = s"
| "remove_stale seam rm keep ((k, req) # rest) (m, h) =
     (if k \<in> keep then remove_stale seam rm keep rest (m, h)
      else case call seam (rm req) h of (ok, h') \<Rightarrow>
             remove_stale seam rm keep rest (if ok then mdel k m else m, h'))"

fun add_missing :: "seam \<Rightarrow> (SteeringRequest \<Rightarrow> seam_call) \<Rightarrow> SteeringRequest list \<Rightarrow> requests \<times> shist \<Rightarrow> requests \<times> shist" where
  "add_missing seam ins [] s = s"
| "add_missing seam ins (req # rest) (m, h) =
     (if mhas m (sq_key req) then add_missing seam ins rest (m, h)
      else case call seam (ins req) h of (ok, h') \<Rightarrow>
             add_missing seam ins rest (if ok then mput (sq_key req) req m else m, h'))"

definition converge :: "seam \<Rightarrow> (SteeringRequest \<Rightarrow> seam_call) \<Rightarrow> (SteeringRequest \<Rightarrow> seam_call) \<Rightarrow> SteeringRequest list \<Rightarrow>
    requests \<times> shist \<Rightarrow> requests \<times> shist" where
  "converge seam ins rm want s = add_missing seam ins want (remove_stale seam rm (sq_key ` set want) (fst s) s)"

definition clearBlackholesLocked :: "seam \<Rightarrow> policyState \<times> shist \<Rightarrow> policyState \<times> shist" where
  "clearBlackholesLocked seam s =
     (case forget_all seam RemoveBlackhole (blackholes (fst s)) (blackholes (fst s), snd s) of
        (m, h') \<Rightarrow> ((fst s)\<lparr>blackholes := m\<rparr>, h'))"

definition applyUnavailableLocked :: "seam \<Rightarrow> resolver \<Rightarrow> EgressPolicy \<Rightarrow> policyState \<times> shist \<Rightarrow> policyState \<times> shist" where
  "applyUnavailableLocked seam pods ep s =
     (if onUnavailableDrop ep
      then case converge seam InstallBlackhole RemoveBlackhole (blackholeTargets pods ep) (blackholes (fst s), snd s) of
             (m, h') \<Rightarrow> ((fst s)\<lparr>blackholes := m\<rparr>, h')
      else clearBlackholesLocked seam s)"

definition available :: "Manager \<Rightarrow> EgressPolicy \<Rightarrow> bool" where
  "available m ep \<longleftrightarrow> isReady ep \<and> policyBSID ep \<noteq> None \<and> bsidLive m (policyBSID ep)"

definition mgr_reconcileLocked :: "seam \<Rightarrow> resolver \<Rightarrow> Manager \<Rightarrow> policyState \<times> shist \<Rightarrow> policyState \<times> shist" where
  "mgr_reconcileLocked seam pods m s =
     (case ps_policy (fst s) of
        None \<Rightarrow> s
      | Some ep \<Rightarrow>
          if \<not> available m ep then
            (case forget_all seam RemoveSteering (installs (fst s)) (installs (fst s), snd s) of
               (ms, h') \<Rightarrow> applyUnavailableLocked seam pods ep ((fst s)\<lparr>installs := ms\<rparr>, h'))
          else
            (case clearBlackholesLocked seam s of
               (st1, h1) \<Rightarrow>
                 (case converge seam InstallSteering RemoveSteering (desired pods ep) (installs st1, h1) of
                    (ms, h') \<Rightarrow> (st1\<lparr>installs := ms\<rparr>, h'))))"

text \<open>\<open>for uid, st := range m.policies\<close> with the entry changed in place.\<close>

fun over_policies :: "(policyState \<times> shist \<Rightarrow> policyState \<times> shist) \<Rightarrow> (string, policyState) gomap \<times> shist \<Rightarrow>
    (string, policyState) gomap \<times> shist" where
  "over_policies f ([], h) = ([], h)"
| "over_policies f ((uid, st) # rest, h) =
     (case f (st, h) of (st', h') \<Rightarrow> (case over_policies f (rest, h') of (rest', h'') \<Rightarrow> ((uid, st') # rest', h'')))"

definition mgr_reconcileAllLocked :: "seam \<Rightarrow> resolver \<Rightarrow> Manager \<times> shist \<Rightarrow> Manager \<times> shist" where
  "mgr_reconcileAllLocked seam pods s =
     (case over_policies (mgr_reconcileLocked seam pods (fst s)) (mgr_policies (fst s), snd s) of
        (ps, h') \<Rightarrow> ((fst s)\<lparr>mgr_policies := ps\<rparr>, h'))"

definition mgr_OnPolicyUpdate :: "seam \<Rightarrow> resolver \<Rightarrow> EgressPolicy \<Rightarrow> Manager \<times> shist \<Rightarrow> Manager \<times> shist" where
  "mgr_OnPolicyUpdate seam pods ep s =
     (let uid = EP_UID ep in
      if uid = [] then s
      else let prev = (case mget (mgr_policies (fst s)) uid of
                         Some st \<Rightarrow> st
                       | None \<Rightarrow> \<lparr>ps_policy = None, installs = [], blackholes = []\<rparr>)
           in case mgr_reconcileLocked seam pods (fst s) (prev\<lparr>ps_policy := Some ep\<rparr>, snd s) of
                (st', h') \<Rightarrow> ((fst s)\<lparr>mgr_policies := mput uid st' (mgr_policies (fst s))\<rparr>, h'))"

text \<open>The removal of everything a policy installed; errors are logged.\<close>

definition tear_down :: "seam \<Rightarrow> policyState \<Rightarrow> shist \<Rightarrow> shist" where
  "tear_down seam st h =
     fold (\<lambda>req h. snd (call seam (RemoveBlackhole req) h)) (mvals (blackholes st))
       (fold (\<lambda>req h. snd (call seam (RemoveSteering req) h)) (mvals (installs st)) h)"

definition mgr_OnPolicyDelete :: "seam \<Rightarrow> string \<Rightarrow> Manager \<times> shist \<Rightarrow> Manager \<times> shist" where
  "mgr_OnPolicyDelete seam uid s =
     (case mget (mgr_policies (fst s)) uid of
        None \<Rightarrow> s
      | Some st \<Rightarrow> ((fst s)\<lparr>mgr_policies := mdel uid (mgr_policies (fst s))\<rparr>, tear_down seam st (snd s)))"

definition mgr_ReconcileAll :: "seam \<Rightarrow> resolver \<Rightarrow> Manager \<times> shist \<Rightarrow> Manager \<times> shist" where
  "mgr_ReconcileAll seam pods s = mgr_reconcileAllLocked seam pods s"

definition OnSRPolicyAdded :: "seam \<Rightarrow> resolver \<Rightarrow> ip option \<Rightarrow> Manager \<times> shist \<Rightarrow> Manager \<times> shist" where
  "OnSRPolicyAdded seam pods bsid s =
     (case bsid of
        None \<Rightarrow> s
      | Some a \<Rightarrow> mgr_reconcileAllLocked seam pods ((fst s)\<lparr>liveBSIDs := mput (ip_String a) () (liveBSIDs (fst s))\<rparr>, snd s))"

definition OnSRPolicyDeleted :: "seam \<Rightarrow> resolver \<Rightarrow> ip option \<Rightarrow> Manager \<times> shist \<Rightarrow> Manager \<times> shist" where
  "OnSRPolicyDeleted seam pods bsid s =
     (case bsid of
        None \<Rightarrow> s
      | Some a \<Rightarrow> mgr_reconcileAllLocked seam pods ((fst s)\<lparr>liveBSIDs := mdel (ip_String a) (liveBSIDs (fst s))\<rparr>, snd s))"

fun prune_loop :: "seam \<Rightarrow> string set \<Rightarrow> (string \<times> policyState) list \<Rightarrow> Manager \<times> shist \<Rightarrow> Manager \<times> shist" where
  "prune_loop seam live [] s = s"
| "prune_loop seam live ((uid, st) # rest) (m, h) =
     (if uid \<in> live then prune_loop seam live rest (m, h)
      else prune_loop seam live rest (m\<lparr>mgr_policies := mdel uid (mgr_policies m)\<rparr>, tear_down seam st h))"

definition mgr_PruneExcept :: "seam \<Rightarrow> string set \<Rightarrow> Manager \<times> shist \<Rightarrow> Manager \<times> shist" where
  "mgr_PruneExcept seam live s = prune_loop seam live (mgr_policies (fst s)) s"

definition mgr_Reset :: "seam \<Rightarrow> Manager \<times> shist \<Rightarrow> Manager \<times> shist" where
  "mgr_Reset seam s = ((fst s)\<lparr>mgr_policies := []\<rparr>, fold (tear_down seam) (mvals (mgr_policies (fst s))) (snd s))"

section \<open>What the dataplane holds\<close>

text \<open>Read off the replies: the entries of each kind that a policy installed and did not remove. A call
  that fails leaves them as they were.\<close>

datatype seam_kind = Steer | Hole

fun seam_effect :: "seam_call \<Rightarrow> seam_kind \<times> bool \<times> SteeringRequest" where
  "seam_effect (InstallSteering r) = (Steer, True, r)"
| "seam_effect (RemoveSteering r) = (Steer, False, r)"
| "seam_effect (InstallBlackhole r) = (Hole, True, r)"
| "seam_effect (RemoveBlackhole r) = (Hole, False, r)"

fun held :: "seam_kind \<Rightarrow> shist \<Rightarrow> string \<Rightarrow> string set" where
  "held kd [] uid = {}"
| "held kd ((c, ok) # h) uid =
     (case seam_effect c of (kd', add, r) \<Rightarrow>
        if ok \<and> kd' = kd \<and> SQ_PolicyUID r = uid
        then if add then insert (sq_key r) (held kd h uid) else held kd h uid - {sq_key r}
        else held kd h uid)"

definition removals_ok :: "shist \<Rightarrow> bool" where
  "removals_ok h = list_all (\<lambda>(c, ok). ok \<or> fst (snd (seam_effect c))) h"

definition ok_since :: "('c, bool) hist \<Rightarrow> ('c, bool) hist \<Rightarrow> bool" where
  "ok_since h h' \<longleftrightarrow> (\<exists>new. h' = new @ h \<and> list_all snd new)"

lemma ok_since_suffix: "ok_since h h' \<Longrightarrow> suffix h h'"
  by (auto simp: ok_since_def suffix_def)

lemma ok_since_refl [simp]: "ok_since h h"
  by (simp add: ok_since_def)

lemma ok_since_split:
  assumes "suffix h0 h1" "suffix h1 h2" "ok_since h0 h2"
  shows "ok_since h0 h1" "ok_since h1 h2"
  using assms by (auto simp: ok_since_def suffix_def)

lemma ok_since_Cons: "suffix h1 h2 \<Longrightarrow> h1 = (c, ok) # h \<Longrightarrow> ok_since h h2 \<Longrightarrow> ok"
  by (auto simp: ok_since_def suffix_def)

lemma removals_ok_suffix: "suffix h h' \<Longrightarrow> removals_ok h' \<Longrightarrow> removals_ok h"
  by (auto simp: removals_ok_def suffix_def)

lemma removals_ok_since: "removals_ok h \<Longrightarrow> ok_since h h' \<Longrightarrow> removals_ok h'"
  by (fastforce simp: removals_ok_def ok_since_def list_all_iff)

text \<open>A step that concerns the entries of some kind of one policy only.\<close>

definition only_of :: "seam_kind \<Rightarrow> string \<Rightarrow> shist \<Rightarrow> shist \<Rightarrow> bool" where
  "only_of kd uid h h' \<longleftrightarrow>
     suffix h h' \<and> (\<forall>kd' uid'. kd' \<noteq> kd \<or> uid' \<noteq> uid \<longrightarrow> held kd' h' uid' = held kd' h uid')"

lemma only_of_refl [simp]: "only_of kd uid h h"
  by (simp add: only_of_def)

lemma only_of_trans: "only_of kd uid h0 h1 \<Longrightarrow> only_of kd uid h1 h2 \<Longrightarrow> only_of kd uid h0 h2"
  by (auto simp: only_of_def intro: suffix_order.trans)

lemma only_of_call:
  "seam_effect c = (kd, b, r) \<Longrightarrow> SQ_PolicyUID r = uid \<Longrightarrow> only_of kd uid h (snd (call seam c h))"
  by (auto simp: only_of_def call_def Let_def suffix_def)

text \<open>The requests of one policy, under their keys; and how they relate to the dataplane: what is
  recorded is installed, and, unless a removal failed, nothing else is.\<close>

definition owned :: "string \<Rightarrow> requests \<Rightarrow> bool" where
  "owned uid m \<longleftrightarrow> wf_map m \<and> (\<forall>k r. mget m k = Some r \<longrightarrow> k = sq_key r \<and> SQ_PolicyUID r = uid)"

definition tracked :: "seam_kind \<Rightarrow> string \<Rightarrow> requests \<Rightarrow> shist \<Rightarrow> bool" where
  "tracked kd uid m h \<longleftrightarrow>
     set (mkeys m) \<subseteq> held kd h uid \<and> (removals_ok h \<longrightarrow> held kd h uid = set (mkeys m))"

lemma owned_Nil [simp]: "owned uid []"
  by (simp add: owned_def)

lemma owned_mdel: "owned uid m \<Longrightarrow> owned uid (mdel k m)"
  by (simp add: owned_def)

lemma owned_mput: "owned uid m \<Longrightarrow> SQ_PolicyUID r = uid \<Longrightarrow> owned uid (mput (sq_key r) r m)"
  by (simp add: owned_def)

lemma tracked_other: "tracked kd uid m h \<Longrightarrow> only_of kd' uid' h h' \<Longrightarrow> kd' \<noteq> kd \<or> uid' \<noteq> uid \<Longrightarrow> tracked kd uid m h'"
  using removals_ok_suffix by (fastforce simp: tracked_def only_of_def)

locale request_kind =
  fixes ins rm :: "SteeringRequest \<Rightarrow> seam_call" and kd :: seam_kind
  assumes effect_ins: "seam_effect (ins r) = (kd, True, r)"
    and effect_rm: "seam_effect (rm r) = (kd, False, r)"
begin

lemma tracked_removed:
  assumes "tracked kd uid m h" "SQ_PolicyUID r = uid" "call seam (rm r) h = (ok, h')"
  shows "tracked kd uid (if ok then mdel (sq_key r) m else m) h'"
  using assms by (auto simp: tracked_def call_def Let_def effect_rm removals_ok_def)

lemma tracked_forgotten:
  assumes "tracked kd uid m h" "SQ_PolicyUID r = uid"
  shows "tracked kd uid (mdel (sq_key r) m) (snd (call seam (rm r) h))"
  using assms by (auto simp: tracked_def call_def Let_def effect_rm removals_ok_def)

lemma tracked_added:
  assumes "tracked kd uid m h" "SQ_PolicyUID r = uid" "call seam (ins r) h = (ok, h')"
  shows "tracked kd uid (if ok then mput (sq_key r) r m else m) h'"
  using assms by (auto simp: tracked_def call_def Let_def effect_ins removals_ok_def)

lemma forget_all_keeps:
  assumes "forget_all seam rm es (m, h) = (m', h')" "owned uid m" "tracked kd uid m h"
    "\<forall>(k, r) \<in> set es. k = sq_key r \<and> SQ_PolicyUID r = uid"
  shows "owned uid m' \<and> tracked kd uid m' h' \<and> only_of kd uid h h' \<and> set (mkeys m') = set (mkeys m) - fst ` set es"
  using assms
proof (induction es arbitrary: m h)
  case (Cons e es)
  obtain k r where e: "e = (k, r)" by fastforce
  have k: "k = sq_key r" "SQ_PolicyUID r = uid" using Cons.prems(4) e by auto
  let ?h = "snd (call seam (rm r) h)"
  have o: "only_of kd uid h ?h" by (rule only_of_call [OF effect_rm k(2)])
  have "owned uid m' \<and> tracked kd uid m' h' \<and> only_of kd uid ?h h' \<and>
      set (mkeys m') = set (mkeys (mdel k m)) - fst ` set es"
    using Cons.prems e k tracked_forgotten [OF Cons.prems(3) k(2)]
    by (intro Cons.IH) (auto simp: owned_mdel)
  then show ?case using only_of_trans [OF o] e by auto
qed simp

lemma remove_stale_keeps:
  assumes "remove_stale seam rm keep es (m, h) = (m', h')" "owned uid m" "tracked kd uid m h"
    "\<forall>(k, r) \<in> set es. k = sq_key r \<and> SQ_PolicyUID r = uid"
  shows "owned uid m' \<and> tracked kd uid m' h' \<and> only_of kd uid h h' \<and>
    (ok_since h h' \<longrightarrow> set (mkeys m') = set (mkeys m) - (fst ` set es - keep))"
  using assms
proof (induction es arbitrary: m h)
  case (Cons e es)
  obtain k r where e: "e = (k, r)" by fastforce
  have k: "k = sq_key r" "SQ_PolicyUID r = uid" using Cons.prems(4) e by auto
  show ?case
  proof (cases "k \<in> keep")
    case True
    then show ?thesis using Cons.IH [of m h] Cons.prems e by auto
  next
    case False
    obtain ok h1 where c: "call seam (rm r) h = (ok, h1)" by fastforce
    let ?m = "if ok then mdel k m else m"
    have o: "only_of kd uid h h1" using only_of_call [OF effect_rm k(2), of h seam] c by simp
    have ih: "owned uid m' \<and> tracked kd uid m' h' \<and> only_of kd uid h1 h' \<and>
        (ok_since h1 h' \<longrightarrow> set (mkeys m') = set (mkeys ?m) - (fst ` set es - keep))"
      using Cons.prems e False c tracked_removed [OF Cons.prems(3) k(2) c] k
      by (intro Cons.IH) (auto simp: owned_mdel)
    have "ok \<and> ok_since h1 h'" if "ok_since h h'"
      using that ih o ok_since_Cons [of h1 h' "rm r" ok h] ok_since_split [of h h1 h'] c
      by (auto simp: only_of_def call_def Let_def)
    then show ?thesis using ih only_of_trans [OF o] e False by auto
  qed
qed simp

lemma add_missing_keeps:
  assumes "add_missing seam ins want (m, h) = (m', h')" "owned uid m" "tracked kd uid m h"
    "\<forall>r \<in> set want. SQ_PolicyUID r = uid"
  shows "owned uid m' \<and> tracked kd uid m' h' \<and> only_of kd uid h h' \<and>
    (ok_since h h' \<longrightarrow> set (mkeys m') = set (mkeys m) \<union> sq_key ` set want)"
  using assms
proof (induction want arbitrary: m h)
  case (Cons r want)
  have r: "SQ_PolicyUID r = uid" using Cons.prems by simp
  show ?case
  proof (cases "mhas m (sq_key r)")
    case True
    then show ?thesis using Cons.IH [of m h] Cons.prems by (auto simp: mhas_iff)
  next
    case False
    obtain ok h1 where c: "call seam (ins r) h = (ok, h1)" by fastforce
    let ?m = "if ok then mput (sq_key r) r m else m"
    have o: "only_of kd uid h h1" using only_of_call [OF effect_ins r, of h seam] c by simp
    have ih: "owned uid m' \<and> tracked kd uid m' h' \<and> only_of kd uid h1 h' \<and>
        (ok_since h1 h' \<longrightarrow> set (mkeys m') = set (mkeys ?m) \<union> sq_key ` set want)"
      using Cons.prems False c tracked_added [OF Cons.prems(3) r c] r
      by (intro Cons.IH) (auto simp: owned_mput)
    have "ok \<and> ok_since h1 h'" if "ok_since h h'"
      using that ih o ok_since_Cons [of h1 h' "ins r" ok h] ok_since_split [of h h1 h'] c
      by (auto simp: only_of_def call_def Let_def)
    then show ?thesis using ih only_of_trans [OF o] by auto
  qed
qed simp

lemma owned_entries: "owned uid m \<Longrightarrow> \<forall>(k, r) \<in> set m. k = sq_key r \<and> SQ_PolicyUID r = uid"
  by (auto simp: owned_def wf_map_in_iff)

lemma forget_all_empties:
  assumes "forget_all seam rm m (m, h) = (m', h')" "owned uid m" "tracked kd uid m h"
  shows "m' = [] \<and> tracked kd uid [] h' \<and> only_of kd uid h h'"
proof -
  have "set (mkeys m') = {}"
    using forget_all_keeps [OF assms owned_entries [OF assms(2)]] by (auto simp: mkeys_def)
  then show ?thesis
    using forget_all_keeps [OF assms owned_entries [OF assms(2)]] by (simp add: mkeys_def)
qed

lemma converge_keeps:
  assumes "converge seam ins rm want (m, h) = (m', h')" "owned uid m" "tracked kd uid m h"
    "\<forall>r \<in> set want. SQ_PolicyUID r = uid"
  shows "owned uid m' \<and> tracked kd uid m' h' \<and> only_of kd uid h h' \<and>
    (ok_since h h' \<longrightarrow> set (mkeys m') = sq_key ` set want)"
proof -
  obtain m1 h1 where s: "remove_stale seam rm (sq_key ` set want) m (m, h) = (m1, h1)" by fastforce
  note k1 = remove_stale_keeps [OF s assms(2,3) owned_entries [OF assms(2)]]
  have a: "add_missing seam ins want (m1, h1) = (m', h')" using assms(1) s by (simp add: converge_def)
  have k2: "owned uid m' \<and> tracked kd uid m' h' \<and> only_of kd uid h1 h' \<and>
      (ok_since h1 h' \<longrightarrow> set (mkeys m') = set (mkeys m1) \<union> sq_key ` set want)"
    using add_missing_keeps [OF a _ _ assms(4)] k1 by simp
  have x: "suffix h h1" "suffix h1 h'" using k1 k2 by (simp_all add: only_of_def)
  have "set (mkeys m') = sq_key ` set want" if "ok_since h h'"
  proof -
    have "set (mkeys m1) = set (mkeys m) - (fst ` set m - sq_key ` set want)"
      using k1 ok_since_split(1) [OF x that] by simp
    then have "set (mkeys m1) \<subseteq> sq_key ` set want" by (auto simp: mkeys_def)
    then show ?thesis using k2 ok_since_split(2) [OF x that] by auto
  qed
  then show ?thesis using k1 k2 only_of_trans [of kd uid h h1 h'] by simp
qed

lemma remove_stale_idle: "fst ` set es \<subseteq> keep \<Longrightarrow> remove_stale seam rm keep es (m, h) = (m, h)"
  by (induction es) auto

lemma add_missing_idle: "sq_key ` set want \<subseteq> set (mkeys m) \<Longrightarrow> add_missing seam ins want (m, h) = (m, h)"
  by (induction want) (auto simp: mhas_iff)

lemma converge_idle: "set (mkeys m) = sq_key ` set want \<Longrightarrow> converge seam ins rm want (m, h) = (m, h)"
  by (simp add: converge_def remove_stale_idle add_missing_idle mkeys_def)

lemma remove_values:
  assumes "owned uid m" "tracked kd uid m h"
  shows "tracked kd uid [] (fold (\<lambda>r h. snd (call seam (rm r) h)) (mvals m) h) \<and>
    only_of kd uid h (fold (\<lambda>r h. snd (call seam (rm r) h)) (mvals m) h)"
proof -
  have "fold (\<lambda>r h. snd (call seam (rm r) h)) (mvals es) h = snd (forget_all seam rm es (m, h))" for es
    by (induction es arbitrary: m h) auto
  then show ?thesis
    using forget_all_empties [OF _ assms] by (metis surj_pair snd_conv)
qed

end

interpretation steer: request_kind InstallSteering RemoveSteering Steer
  by unfold_locales simp_all

interpretation hole: request_kind InstallBlackhole RemoveBlackhole Hole
  by unfold_locales simp_all

section \<open>The manager's invariant\<close>

text \<open>A step that concerns the entries of some policies only.\<close>

definition only_policies :: "string set \<Rightarrow> shist \<Rightarrow> shist \<Rightarrow> bool" where
  "only_policies uids h h' \<longleftrightarrow> suffix h h' \<and> (\<forall>kd uid. uid \<notin> uids \<longrightarrow> held kd h' uid = held kd h uid)"

lemma only_policies_refl [simp]: "only_policies uids h h"
  by (simp add: only_policies_def)

lemma only_policies_trans:
  "only_policies us h0 h1 \<Longrightarrow> only_policies vs h1 h2 \<Longrightarrow> only_policies (us \<union> vs) h0 h2"
  by (auto simp: only_policies_def intro: suffix_order.trans)

lemma only_of_policies: "only_of kd uid h h' \<Longrightarrow> only_policies {uid} h h'"
  by (simp add: only_of_def only_policies_def)

lemma tracked_apart: "tracked kd uid m h \<Longrightarrow> only_policies uids h h' \<Longrightarrow> uid \<notin> uids \<Longrightarrow> tracked kd uid m h'"
  using removals_ok_suffix by (fastforce simp: tracked_def only_policies_def)

text \<open>What holds of a policy's state between the steps of a reconciliation, and what holds after one.\<close>

definition pol_own :: "string \<Rightarrow> policyState \<times> shist \<Rightarrow> bool" where
  "pol_own uid s \<longleftrightarrow> (\<exists>ep. ps_policy (fst s) = Some ep \<and> EP_UID ep = uid) \<and>
     owned uid (installs (fst s)) \<and> tracked Steer uid (installs (fst s)) (snd s) \<and>
     owned uid (blackholes (fst s)) \<and> tracked Hole uid (blackholes (fst s)) (snd s)"

definition pol_settled :: "Manager \<Rightarrow> policyState \<Rightarrow> bool" where
  "pol_settled m st \<longleftrightarrow> (\<forall>ep. ps_policy st = Some ep \<longrightarrow>
     (installs st \<noteq> [] \<longrightarrow> available m ep \<and> blackholes st = []) \<and>
     (blackholes st \<noteq> [] \<longrightarrow> \<not> available m ep \<and> onUnavailableDrop ep))"

lemma pol_own_apart: "pol_own uid (st, h) \<Longrightarrow> only_policies uids h h' \<Longrightarrow> uid \<notin> uids \<Longrightarrow> pol_own uid (st, h')"
  by (auto simp: pol_own_def intro: tracked_apart)

lemma podDestPairs_uid: "r \<in> set (podDestPairs pods ep) \<Longrightarrow> SQ_PolicyUID r = EP_UID ep"
  by (auto simp: podDestPairs_def Let_def split: if_splits option.splits)

lemma desired_uid: "\<forall>r \<in> set (desired pods ep). SQ_PolicyUID r = EP_UID ep"
  by (auto simp: desired_def podDestPairs_uid split: option.splits)

lemma blackholeTargets_uid: "\<forall>r \<in> set (blackholeTargets pods ep). SQ_PolicyUID r = EP_UID ep"
  by (simp add: blackholeTargets_def podDestPairs_uid)

lemma clearBlackholesLocked_result:
  assumes "clearBlackholesLocked seam (st, h) = (st', h')" "pol_own uid (st, h)"
  shows "st' = st\<lparr>blackholes := []\<rparr> \<and> pol_own uid (st', h') \<and> only_policies {uid} h h'"
proof -
  obtain m where f: "forget_all seam RemoveBlackhole (blackholes st) (blackholes st, h) = (m, h')"
      and st': "st' = st\<lparr>blackholes := m\<rparr>"
    using assms(1) by (auto simp: clearBlackholesLocked_def split: prod.splits)
  have "m = [] \<and> tracked Hole uid [] h' \<and> only_of Hole uid h h'"
    using assms(2) by (intro hole.forget_all_empties [OF f]) (simp_all add: pol_own_def)
  then show ?thesis
    using assms(2) st' tracked_other [of Steer uid "installs st" h Hole uid h'] only_of_policies
    by (auto simp: pol_own_def)
qed

lemma applyUnavailableLocked_result:
  assumes "applyUnavailableLocked seam pods ep (st, h) = (st', h')" "pol_own uid (st, h)" "ps_policy st = Some ep"
  shows "pol_own uid (st', h') \<and> only_policies {uid} h h' \<and> installs st' = installs st \<and> ps_policy st' = Some ep \<and>
    (onUnavailableDrop ep \<longrightarrow> ok_since h h' \<longrightarrow> set (mkeys (blackholes st')) = sq_key ` set (blackholeTargets pods ep)) \<and>
    (\<not> onUnavailableDrop ep \<longrightarrow> blackholes st' = [])"
proof (cases "onUnavailableDrop ep")
  case True
  obtain m where c: "converge seam InstallBlackhole RemoveBlackhole (blackholeTargets pods ep) (blackholes st, h) = (m, h')"
      and st': "st' = st\<lparr>blackholes := m\<rparr>"
    using assms(1) True by (auto simp: applyUnavailableLocked_def split: prod.splits)
  have uid: "EP_UID ep = uid" using assms(2,3) by (simp add: pol_own_def)
  have "owned uid m \<and> tracked Hole uid m h' \<and> only_of Hole uid h h' \<and>
      (ok_since h h' \<longrightarrow> set (mkeys m) = sq_key ` set (blackholeTargets pods ep))"
    using assms(2) blackholeTargets_uid [of pods ep]
    by (intro hole.converge_keeps [OF c]) (simp_all add: pol_own_def uid)
  then show ?thesis
    using assms(2,3) st' True tracked_other [of Steer uid "installs st" h Hole uid h'] only_of_policies
    by (auto simp: pol_own_def)
next
  case False
  then show ?thesis
    using assms(1,3) clearBlackholesLocked_result [OF _ assms(2), of seam st' h']
    by (auto simp: applyUnavailableLocked_def)
qed

lemma available_result:
  assumes "converge seam InstallSteering RemoveSteering (desired pods ep) (installs st, h) = (ms, h')"
    "pol_own uid (st, h)" "ps_policy st = Some ep"
  shows "pol_own uid (st\<lparr>installs := ms\<rparr>, h') \<and> only_policies {uid} h h' \<and>
    (ok_since h h' \<longrightarrow> set (mkeys ms) = sq_key ` set (desired pods ep))"
proof -
  have uid: "EP_UID ep = uid" using assms(2,3) by (simp add: pol_own_def)
  have "owned uid ms \<and> tracked Steer uid ms h' \<and> only_of Steer uid h h' \<and>
      (ok_since h h' \<longrightarrow> set (mkeys ms) = sq_key ` set (desired pods ep))"
    using assms(2) desired_uid [of pods ep]
    by (intro steer.converge_keeps [OF assms(1)]) (simp_all add: pol_own_def uid)
  then show ?thesis
    using assms(2,3) tracked_other [of Hole uid "blackholes st" h Steer uid h'] only_of_policies
    by (auto simp: pol_own_def)
qed

text \<open>What a policy's steering and blackholes should be.\<close>

definition want_steered :: "resolver \<Rightarrow> Manager \<Rightarrow> EgressPolicy \<Rightarrow> string set" where
  "want_steered pods m ep = (if available m ep then sq_key ` set (desired pods ep) else {})"

definition want_holes :: "resolver \<Rightarrow> Manager \<Rightarrow> EgressPolicy \<Rightarrow> string set" where
  "want_holes pods m ep =
     (if \<not> available m ep \<and> onUnavailableDrop ep then sq_key ` set (blackholeTargets pods ep) else {})"

definition converged :: "resolver \<Rightarrow> Manager \<Rightarrow> policyState \<Rightarrow> bool" where
  "converged pods m st \<longleftrightarrow> (\<forall>ep. ps_policy st = Some ep \<longrightarrow>
     set (mkeys (installs st)) = want_steered pods m ep \<and> set (mkeys (blackholes st)) = want_holes pods m ep)"

lemma mgr_reconcileLocked_result:
  assumes "mgr_reconcileLocked seam pods m (st, h) = (st', h')" "pol_own uid (st, h)"
  shows "pol_own uid (st', h') \<and> pol_settled m st' \<and> only_policies {uid} h h' \<and> ps_policy st' = ps_policy st \<and>
    (ok_since h h' \<longrightarrow> converged pods m st')"
proof -
  obtain ep where ep: "ps_policy st = Some ep" "EP_UID ep = uid" using assms(2) by (auto simp: pol_own_def)
  show ?thesis
  proof (cases "available m ep")
    case False
    obtain ms h1 where f: "forget_all seam RemoveSteering (installs st) (installs st, h) = (ms, h1)" by fastforce
    let ?st = "st\<lparr>installs := ms\<rparr>"
    have a: "applyUnavailableLocked seam pods ep (?st, h1) = (st', h')"
      using assms(1) ep False f by (simp add: mgr_reconcileLocked_def)
    have i: "ms = [] \<and> tracked Steer uid [] h1 \<and> only_of Steer uid h h1"
      using assms(2) by (intro steer.forget_all_empties [OF f]) (simp_all add: pol_own_def)
    have o: "only_policies {uid} h h1" using i only_of_policies by blast
    have "pol_own uid (?st, h1)"
      using assms(2) i tracked_other [of Hole uid "blackholes st" h Steer uid h1] by (simp add: pol_own_def)
    note r = applyUnavailableLocked_result [OF a this, simplified, OF ep(1)]
    have x: "ok_since h h' \<Longrightarrow> ok_since h1 h'"
      using ok_since_split(2) [of h h1 h'] o r by (simp add: only_policies_def)
    show ?thesis
      using r x i ep False only_policies_trans [OF o, of "{uid}" h']
      by (cases "onUnavailableDrop ep")
        (auto simp: pol_settled_def converged_def want_steered_def want_holes_def)
  next
    case True
    obtain st1 h1 where c: "clearBlackholesLocked seam (st, h) = (st1, h1)" by fastforce
    note k = clearBlackholesLocked_result [OF c assms(2)]
    obtain ms where v: "converge seam InstallSteering RemoveSteering (desired pods ep) (installs st1, h1) = (ms, h')"
        and st': "st' = st1\<lparr>installs := ms\<rparr>"
      using assms(1) ep True c by (auto simp: mgr_reconcileLocked_def split: prod.splits)
    have p: "pol_own uid (st1, h1)" "ps_policy st1 = Some ep" using k ep by auto
    note r = available_result [OF v p]
    have x: "ok_since h h' \<Longrightarrow> ok_since h1 h'"
      using ok_since_split(2) [of h h1 h'] k r by (simp add: only_policies_def)
    show ?thesis
      using r x k ep st' True only_policies_trans [of "{uid}" h h1 "{uid}" h']
      by (auto simp: pol_settled_def converged_def want_steered_def want_holes_def)
  qed
qed

lemma mkeys_empty: "mkeys m = [] \<longleftrightarrow> m = []"
  by (simp add: mkeys_def)

text \<open>Nothing is left to do for a policy that has converged.\<close>

lemma mgr_reconcileLocked_idle:
  assumes "ps_policy st = Some ep" "converged pods m st"
  shows "mgr_reconcileLocked seam pods m (st, h) = (st, h)"
proof (cases "available m ep")
  case False
  have i: "installs st = []" using assms False by (simp add: converged_def want_steered_def mkeys_empty)
  have "applyUnavailableLocked seam pods ep (st, h) = (st, h)"
    using assms False hole.converge_idle [of "blackholes st" "blackholeTargets pods ep" seam h]
    by (auto simp: applyUnavailableLocked_def clearBlackholesLocked_def converged_def want_holes_def mkeys_empty)
  moreover have u: "st\<lparr>installs := []\<rparr> = st" using i by (cases st) simp
  ultimately show ?thesis using assms False by (simp add: mgr_reconcileLocked_def i u)
next
  case True
  have b: "blackholes st = []" using assms True by (simp add: converged_def want_holes_def mkeys_empty)
  have i: "set (mkeys (installs st)) = sq_key ` set (desired pods ep)"
    using assms True by (simp add: converged_def want_steered_def)
  have u: "st\<lparr>blackholes := []\<rparr> = st" using b by (cases st) simp
  show ?thesis
    using assms True steer.converge_idle [OF i, of seam h]
    by (simp add: b u mgr_reconcileLocked_def clearBlackholesLocked_def)
qed

lemma available_policies [simp]: "available (m\<lparr>mgr_policies := ps\<rparr>) = available m"
  by (simp add: fun_eq_iff available_def bsidLive_def split: option.splits)

lemma pol_settled_policies [simp]: "pol_settled (m\<lparr>mgr_policies := ps\<rparr>) = pol_settled m"
  by (simp add: fun_eq_iff pol_settled_def)

lemma converged_policies [simp]: "converged pods (m\<lparr>mgr_policies := ps\<rparr>) = converged pods m"
  by (simp add: fun_eq_iff converged_def want_steered_def want_holes_def)

lemma over_policies_result:
  assumes "over_policies (mgr_reconcileLocked seam pods m) (ps, h) = (ps', h')" "wf_map ps"
    "\<forall>(uid, st) \<in> set ps. pol_own uid (st, h)"
  shows "mkeys ps' = mkeys ps \<and> only_policies (set (mkeys ps)) h h' \<and>
    (\<forall>(uid, st) \<in> set ps'. pol_own uid (st, h') \<and> pol_settled m st \<and> (ok_since h h' \<longrightarrow> converged pods m st))"
  using assms
proof (induction ps arbitrary: h ps')
  case (Cons e ps)
  obtain uid st where e: "e = (uid, st)" by fastforce
  obtain st1 h1 where r: "mgr_reconcileLocked seam pods m (st, h) = (st1, h1)" by fastforce
  obtain ps1 where o: "over_policies (mgr_reconcileLocked seam pods m) (ps, h1) = (ps1, h')" and ps': "ps' = (uid, st1) # ps1"
    using Cons.prems(1) e r by (auto split: prod.splits)
  have own: "pol_own uid (st, h)" using Cons.prems(3) e by simp
  note k = mgr_reconcileLocked_result [OF r own]
  have fresh: "uid \<notin> set (mkeys ps)" "wf_map ps" using Cons.prems(2) e by (auto simp: wf_map_def mkeys_def)
  have "\<forall>(u, s) \<in> set ps. pol_own u (s, h1)"
  proof clarify
    fix u s assume "(u, s) \<in> set ps"
    moreover from this have "u \<noteq> uid" using fresh by (force simp: mkeys_def)
    ultimately show "pol_own u (s, h1)" using Cons.prems(3) k pol_own_apart [of u s h "{uid}" h1] by auto
  qed
  note ih = Cons.IH [OF o fresh(2) this]
  have s: "suffix h h1" "suffix h1 h'" using k ih by (auto simp: only_policies_def)
  have "pol_own uid (st1, h')" using k ih fresh pol_own_apart [of uid st1 h1 "set (mkeys ps)" h'] by auto
  moreover have "only_policies (set (mkeys (e # ps))) h h'"
    using k ih e only_policies_trans [of "{uid}" h h1 "set (mkeys ps)" h'] by simp
  ultimately show ?case using k ih ps' e ok_since_split [OF s] by auto
qed simp

text \<open>What holds of the manager and the dataplane, whatever calls failed.\<close>

definition mgr_own :: "Manager \<times> shist \<Rightarrow> bool" where
  "mgr_own s \<longleftrightarrow> wf_map (mgr_policies (fst s)) \<and>
     (\<forall>uid st. mget (mgr_policies (fst s)) uid = Some st \<longrightarrow> pol_own uid (st, snd s)) \<and>
     (\<forall>uid kd. mget (mgr_policies (fst s)) uid = None \<longrightarrow> removals_ok (snd s) \<longrightarrow> held kd (snd s) uid = {})"

definition mgr_inv :: "Manager \<times> shist \<Rightarrow> bool" where
  "mgr_inv s \<longleftrightarrow> mgr_own s \<and> (\<forall>uid st. mget (mgr_policies (fst s)) uid = Some st \<longrightarrow> pol_settled (fst s) st)"

lemma mgr_own_live [simp]: "mgr_own (m\<lparr>liveBSIDs := l\<rparr>, h) = mgr_own (m, h)"
  by (simp add: mgr_own_def)

lemma mgr_reconcileAllLocked_result:
  assumes "mgr_reconcileAllLocked seam pods (m, h) = (m', h')" "mgr_own (m, h)"
  shows "mgr_inv (m', h') \<and> suffix h h' \<and> liveBSIDs m' = liveBSIDs m \<and>
    (ok_since h h' \<longrightarrow> (\<forall>uid st. mget (mgr_policies m') uid = Some st \<longrightarrow> converged pods m' st))"
proof -
  obtain ps' where o: "over_policies (mgr_reconcileLocked seam pods m) (mgr_policies m, h) = (ps', h')"
      and m': "m' = m\<lparr>mgr_policies := ps'\<rparr>"
    using assms(1) by (auto simp: mgr_reconcileAllLocked_def split: prod.splits)
  have wf: "wf_map (mgr_policies m)" using assms(2) by (simp add: mgr_own_def)
  have "\<forall>(uid, st) \<in> set (mgr_policies m). pol_own uid (st, h)"
    using assms(2) by (auto simp: mgr_own_def wf_map_in_iff [OF wf])
  note k = over_policies_result [OF o wf this]
  have wf': "wf_map ps'" using k wf by (simp add: wf_map_def)
  have absent: "mget ps' uid = None \<longleftrightarrow> mget (mgr_policies m) uid = None" for uid
    using k by (simp add: mget_None_iff)
  have "held kd h' uid = {}" if "mget ps' uid = None" "removals_ok h'" for uid kd
    using that k assms(2) absent [of uid] removals_ok_suffix [of h h']
    by (auto simp: mgr_own_def only_policies_def mget_None_iff)
  moreover have "pol_own uid (st, h') \<and> pol_settled m st \<and> (ok_since h h' \<longrightarrow> converged pods m st)"
    if "mget ps' uid = Some st" for uid st
    using mget_Some_in [OF that] k by blast
  ultimately show ?thesis
    using k m' wf' by (auto simp: mgr_inv_def mgr_own_def only_policies_def)
qed

lemma mgr_reconcileAllLocked_inv: "mgr_own s \<Longrightarrow> mgr_inv (mgr_reconcileAllLocked seam pods s)"
  using mgr_reconcileAllLocked_result by (metis surj_pair)

lemma mgr_inv_put:
  assumes "mgr_inv (m, h)" "pol_own uid (st, h')" "pol_settled m st" "only_policies {uid} h h'"
  shows "mgr_inv (m\<lparr>mgr_policies := mput uid st (mgr_policies m)\<rparr>, h')"
  using assms removals_ok_suffix [of h h']
  by (auto simp: mgr_inv_def mgr_own_def only_policies_def intro: pol_own_apart [of _ _ h "{uid}"])

lemma mgr_OnPolicyUpdate_inv:
  assumes "mgr_inv (m, h)"
  shows "mgr_inv (mgr_OnPolicyUpdate seam pods ep (m, h))"
proof -
  define prev where "prev = (case mget (mgr_policies m) (EP_UID ep) of
    Some st \<Rightarrow> st | None \<Rightarrow> \<lparr>ps_policy = None, installs = [], blackholes = []\<rparr>)"
  obtain st' h' where r: "mgr_reconcileLocked seam pods m (prev\<lparr>ps_policy := Some ep\<rparr>, h) = (st', h')" by fastforce
  have "pol_own (EP_UID ep) (prev\<lparr>ps_policy := Some ep\<rparr>, h)"
    using assms by (auto simp: prev_def pol_own_def mgr_inv_def mgr_own_def tracked_def split: option.splits)
  note k = mgr_reconcileLocked_result [OF r this]
  have "mgr_inv (m\<lparr>mgr_policies := mput (EP_UID ep) st' (mgr_policies m)\<rparr>, h')"
    using k by (intro mgr_inv_put [OF assms]) simp_all
  then show ?thesis
    using assms r by (simp add: mgr_OnPolicyUpdate_def Let_def flip: prev_def)
qed

lemma tear_down_result:
  assumes "pol_own uid (st, h)"
  shows "only_policies {uid} h (tear_down seam st h) \<and>
    (removals_ok (tear_down seam st h) \<longrightarrow> held kd (tear_down seam st h) uid = {})"
proof -
  let ?h1 = "fold (\<lambda>req h. snd (call seam (RemoveSteering req) h)) (mvals (installs st)) h"
  have s: "tracked Steer uid [] ?h1 \<and> only_of Steer uid h ?h1"
    using assms by (intro steer.remove_values) (simp_all add: pol_own_def)
  have "tracked Hole uid (blackholes st) ?h1"
    using assms s tracked_other [of Hole uid "blackholes st" h Steer uid ?h1] by (simp add: pol_own_def)
  then have b: "tracked Hole uid [] (tear_down seam st h) \<and> only_of Hole uid ?h1 (tear_down seam st h)"
    using assms hole.remove_values [of uid "blackholes st" ?h1 seam] by (simp add: pol_own_def tear_down_def)
  have "tracked Steer uid [] (tear_down seam st h)"
    using s b tracked_other [of Steer uid "[]" ?h1 Hole uid "tear_down seam st h"] by simp
  then have "removals_ok (tear_down seam st h) \<longrightarrow> held kd (tear_down seam st h) uid = {}"
    using b by (cases kd) (simp_all add: tracked_def)
  moreover have "only_policies {uid} h ?h1" "only_policies {uid} ?h1 (tear_down seam st h)"
    using s b only_of_policies by blast+
  ultimately show ?thesis using only_policies_trans [of "{uid}" h ?h1 "{uid}"] by simp
qed

lemma mgr_inv_drop:
  assumes "mgr_inv (m, h)" "mget (mgr_policies m) uid = Some st"
  shows "mgr_inv (m\<lparr>mgr_policies := mdel uid (mgr_policies m)\<rparr>, tear_down seam st h)"
proof -
  let ?h = "tear_down seam st h"
  have own: "pol_own uid (st, h)" using assms by (simp add: mgr_inv_def mgr_own_def)
  have o: "only_policies {uid} h ?h" using tear_down_result [OF own] by blast
  have "held kd ?h u = {}" if "mget (mdel uid (mgr_policies m)) u = None" "removals_ok ?h" for kd u
    using that assms o tear_down_result [OF own, of seam kd] removals_ok_suffix [of h ?h]
    by (cases "u = uid") (auto simp: mgr_inv_def mgr_own_def only_policies_def)
  then show ?thesis
    using assms(1) pol_own_apart [OF _ o] by (auto simp: mgr_inv_def mgr_own_def)
qed

lemma mgr_OnPolicyDelete_inv: "mgr_inv (m, h) \<Longrightarrow> mgr_inv (mgr_OnPolicyDelete seam uid (m, h))"
  by (auto simp: mgr_OnPolicyDelete_def mgr_inv_drop split: option.splits)

lemma prune_loop_inv:
  assumes "mgr_inv (m, h)" "wf_map es" "\<forall>(uid, st) \<in> set es. mget (mgr_policies m) uid = Some st"
  shows "mgr_inv (prune_loop seam live es (m, h))"
  using assms
proof (induction es arbitrary: m h)
  case (Cons e es)
  obtain uid st where e: "e = (uid, st)" by fastforce
  have wf: "wf_map es" "\<forall>(u, s) \<in> set es. u \<noteq> uid"
    using Cons.prems(2) e by (force simp: wf_map_def mkeys_def)+
  have st: "mget (mgr_policies m) uid = Some st" using Cons.prems(3) e by simp
  show ?case
    using Cons.IH [OF Cons.prems(1) wf(1)] Cons.IH [OF mgr_inv_drop [OF Cons.prems(1) st] wf(1)] Cons.prems(3) wf(2) e
    by (fastforce simp: split_beta)
qed simp

lemma mgr_inv_wf: "mgr_inv (m, h) \<Longrightarrow> wf_map (mgr_policies m)"
  by (simp add: mgr_inv_def mgr_own_def)

lemma mgr_PruneExcept_inv: "mgr_inv (m, h) \<Longrightarrow> mgr_inv (mgr_PruneExcept seam live (m, h))"
  unfolding mgr_PruneExcept_def fst_conv
  by (rule prune_loop_inv) (auto simp: mgr_inv_wf wf_map_in_iff)

text \<open>The reset of the manager removes what pruning every policy removes.\<close>

lemma mgr_Reset_prunes: "wf_map (mgr_policies m) \<Longrightarrow> mgr_Reset seam (m, h) = mgr_PruneExcept seam {} (m, h)"
proof -
  have "prune_loop seam {} es (m, h) =
      (m\<lparr>mgr_policies := mdel_all (mkeys es) (mgr_policies m)\<rparr>, fold (tear_down seam) (mvals es) h)" for es
    by (induction es arbitrary: m h) (auto simp: mdel_all_Cons)
  moreover have "mdel_all (mkeys ps) ps = []" for ps :: "(string, policyState) gomap"
    by (metis mget_mdel_all mget_None_iff mkeys_empty list.set_intros(1) neq_Nil_conv)
  ultimately show ?thesis by (simp add: mgr_Reset_def mgr_PruneExcept_def)
qed

lemma mgr_Reset_inv: "mgr_inv (m, h) \<Longrightarrow> mgr_inv (mgr_Reset seam (m, h))"
  by (simp add: mgr_Reset_prunes mgr_inv_wf mgr_PruneExcept_inv)

text \<open>The runs of a manager: any operations, with the pods as they are at each.\<close>

inductive managed :: "seam \<Rightarrow> Manager \<times> shist \<Rightarrow> bool" for seam where
  start: "managed seam (NewManager, [])"
| policy_update: "managed seam s \<Longrightarrow> managed seam (mgr_OnPolicyUpdate seam pods ep s)"
| policy_delete: "managed seam s \<Longrightarrow> managed seam (mgr_OnPolicyDelete seam uid s)"
| pods_changed: "managed seam s \<Longrightarrow> managed seam (mgr_ReconcileAll seam pods s)"
| sr_added: "managed seam s \<Longrightarrow> managed seam (OnSRPolicyAdded seam pods bsid s)"
| sr_deleted: "managed seam s \<Longrightarrow> managed seam (OnSRPolicyDeleted seam pods bsid s)"
| prune: "managed seam s \<Longrightarrow> managed seam (mgr_PruneExcept seam live s)"
| reset: "managed seam s \<Longrightarrow> managed seam (mgr_Reset seam s)"

lemma mgr_inv_own: "mgr_inv (m, h) \<Longrightarrow> mgr_own (m, h)"
  by (simp add: mgr_inv_def)

lemma managed_inv: "managed seam s \<Longrightarrow> mgr_inv s"
proof (induction rule: managed.induct)
  case start
  then show ?case by (simp add: mgr_inv_def mgr_own_def NewManager_def)
qed (auto simp: split_paired_all mgr_OnPolicyUpdate_inv mgr_OnPolicyDelete_inv mgr_PruneExcept_inv mgr_Reset_inv
  mgr_ReconcileAll_def OnSRPolicyAdded_def OnSRPolicyDeleted_def mgr_inv_own
  intro!: mgr_reconcileAllLocked_inv split: option.splits)

lemma over_policies_idle:
  assumes "\<And>uid st. (uid, st) \<in> set ps \<Longrightarrow> \<exists>ep. ps_policy st = Some ep \<and> converged pods m st"
  shows "over_policies (mgr_reconcileLocked seam pods m) (ps, h) = (ps, h)"
  using assms
proof (induction ps)
  case (Cons e ps)
  obtain uid st where e: "e = (uid, st)" by fastforce
  obtain ep where "ps_policy st = Some ep" "converged pods m st" using Cons.prems [of uid st] e by auto
  then have "mgr_reconcileLocked seam pods m (st, h) = (st, h)" by (rule mgr_reconcileLocked_idle)
  moreover have "over_policies (mgr_reconcileLocked seam pods m) (ps, h) = (ps, h)"
    using Cons.prems by (intro Cons.IH) auto
  ultimately show ?case by (simp add: e)
qed simp

text \<open>The steering entries are left alone by what is done about blackholes, and by removals that fail.\<close>

lemma forget_all_holes: "held Steer (snd (forget_all seam RemoveBlackhole es s)) uid = held Steer (snd s) uid"
  by (induction es arbitrary: s) (auto simp: split_paired_all call_def Let_def)

lemma remove_stale_holes: "held Steer (snd (remove_stale seam RemoveBlackhole keep es s)) uid = held Steer (snd s) uid"
  by (induction es arbitrary: s) (auto simp: split_paired_all call_def Let_def)

lemma add_missing_holes: "held Steer (snd (add_missing seam InstallBlackhole want s)) uid = held Steer (snd s) uid"
  by (induction want arbitrary: s) (auto simp: split_paired_all call_def Let_def)

lemma applyUnavailableLocked_steered:
  assumes "applyUnavailableLocked seam pods ep (st, h) = (st', h')"
  shows "installs st' = installs st \<and> held Steer h' uid = held Steer h uid"
proof -
  have "held Steer (snd (converge seam InstallBlackhole RemoveBlackhole want s)) uid = held Steer (snd s) uid" for want s
    by (simp add: converge_def add_missing_holes remove_stale_holes)
  then show ?thesis
    using assms forget_all_holes [of seam "blackholes st" "(blackholes st, h)" uid]
    by (auto simp: applyUnavailableLocked_def clearBlackholesLocked_def split: if_splits prod.splits)
      (metis snd_conv)+
qed

lemma forget_all_refused:
  "\<forall>h r. \<not> seam h (RemoveSteering r) \<Longrightarrow> held Steer (snd (forget_all seam RemoveSteering es (m, h))) uid = held Steer h uid"
  by (induction es arbitrary: m h) (auto simp: call_def Let_def)

text \<open>The dataplane identifies an entry by pod, destination and BSID, not by the policy that asked for it.\<close>

fun steered_keys :: "shist \<Rightarrow> string set" where
  "steered_keys [] = {}"
| "steered_keys ((c, ok) # h) =
     (case seam_effect c of (kd, add, r) \<Rightarrow>
        if ok \<and> kd = Steer then if add then insert (sq_key r) (steered_keys h) else steered_keys h - {sq_key r}
        else steered_keys h)"

lemma tear_down_steered:
  assumes "\<forall>h c. seam h c"
  shows "steered_keys (tear_down seam st h) = steered_keys h - sq_key ` set (mvals (installs st))"
proof -
  have "steered_keys (fold (\<lambda>r h. snd (call seam (RemoveSteering r) h)) rs h) = steered_keys h - sq_key ` set rs" for rs h
    using assms by (induction rs arbitrary: h) (auto simp: call_def Let_def)
  moreover have "steered_keys (fold (\<lambda>r h. snd (call seam (RemoveBlackhole r) h)) rs h) = steered_keys h" for rs h
    by (induction rs arbitrary: h) (auto simp: call_def Let_def)
  ultimately show ?thesis by (simp add: tear_down_def)
qed

section \<open>Properties of the headend\<close>


definition seam_ok :: seam where
  "seam_ok h c = True"

definition egress_pods :: resolver where
  "egress_pods sel = map_option (\<lambda>a. [a]) (ParseIP ''a::'')"

definition egress_ex :: EgressPolicy where
  "egress_ex = \<lparr>EP_UID = ''u'', EP_Name = ''p'', EP_Selector = \<lparr>NamespaceSelector = None, PodSelector = None\<rparr>,
     DestinationCIDRs = [''c::/16''], EP_Color = 1, OnUnavailable = ''Drop'', ActiveEndpoint = '''', EP_Upstream = '''',
     ReturnPrefixes = [], EP_SRPolicy = Some \<lparr>SRP_BSID = ''b::'', SRP_Color = 1, SegmentList = [], CandidatePaths = [],
       EndpointAddr = ''''\<rparr>,
     Conditions = [\<lparr>Cond_Type = ''Ready'', Cond_Status = ''True''\<rparr>]\<rparr>"

definition egress_run :: "seam \<Rightarrow> Manager \<times> shist" where
  "egress_run seam = mgr_OnPolicyUpdate seam egress_pods egress_ex
     (OnSRPolicyAdded seam egress_pods (ParseIP ''b::'') (NewManager, []))"

definition egress_state :: "Manager \<times> shist" where
  "egress_state = egress_run seam_ok"

lemma egress_run_managed: "managed seam (egress_run seam)"
  unfolding egress_run_def by (intro managed.intros)

lemma egress_state_managed: "managed seam_ok egress_state"
  unfolding egress_state_def by (rule egress_run_managed)

definition egress_req :: SteeringRequest where
  "egress_req = \<lparr>SQ_PolicyUID = ''u'', PodIP = 0 # 10 # replicate 14 0,
     DestPrefix = Some \<lparr>IPNet_IP = 0 # 12 # replicate 14 0, IPNet_Mask = CIDRMask 16 128\<rparr>, SQ_Color = 1, BSID = 0 # 11 # replicate 14 0\<rparr>"

definition egress_hole :: SteeringRequest where
  "egress_hole = egress_req\<lparr>SQ_Color := 0, BSID := []\<rparr>"

definition egress_dropping :: policyState where
  "egress_dropping = \<lparr>ps_policy = Some egress_ex, installs = [], blackholes = [(sq_key egress_hole, egress_hole)]\<rparr>"

lemma egress_bsid: "ParseIP ''b::'' = Some (0 # 11 # replicate 14 0)"
  by (simp add: net_eval Let_def upt_rec)

lemma egress_pods_desired: "podDestPairs egress_pods egress_ex = [egress_hole]"
  by (simp add: egress_hole_def podDestPairs_def parseV6DestCIDRs_def List.map_filter_def egress_pods_def egress_ex_def egress_req_def isV6_def
    net_eval Let_def upt_rec)

lemma egress_ex_available: "available m egress_ex \<longleftrightarrow> mhas (liveBSIDs m) (ip_String (0 # 11 # replicate 14 0))"
  by (simp add: available_def isReady_def policyBSID_def bsidLive_def egress_bsid) (simp add: egress_ex_def egress_bsid)

lemma egress_ex_desired: "desired egress_pods egress_ex = [egress_req]"
proof -
  have "policyBSID egress_ex = Some (BSID egress_req)" "EP_Color egress_ex = SQ_Color egress_req"
    by (simp_all add: policyBSID_def egress_ex_def egress_bsid egress_req_def)
  then show ?thesis by (simp add: desired_def egress_pods_desired egress_hole_def)
qed

definition egress_policy_state :: policyState where
  "egress_policy_state = \<lparr>ps_policy = Some egress_ex, installs = [(sq_key egress_req, egress_req)], blackholes = []\<rparr>"

lemma egress_run_eq:
  assumes "seam [] (InstallSteering egress_req)"
  shows "egress_run seam =
    (\<lparr>mgr_policies = [(''u'', egress_policy_state)], liveBSIDs = [(ip_String (0 # 11 # replicate 14 0), ())]\<rparr>,
     [(InstallSteering egress_req, True)])"
proof -
  have uid: "EP_UID egress_ex = ''u''" by (simp add: egress_ex_def)
  show ?thesis
    using assms by (simp add: egress_run_def OnSRPolicyAdded_def egress_bsid mgr_reconcileAllLocked_def NewManager_def
        mgr_OnPolicyUpdate_def uid mgr_reconcileLocked_def egress_ex_available mhas_iff clearBlackholesLocked_def
        converge_def egress_ex_desired call_def egress_policy_state_def)
qed

lemmas egress_state_eq = egress_run_eq [of seam_ok, simplified seam_ok_def, folded egress_state_def, OF TrueI]



text \<open>When the BSID of the example is withdrawn, its pod's traffic is dropped.\<close>

definition egress_withdrawn :: "Manager \<times> shist" where
  "egress_withdrawn = OnSRPolicyDeleted seam_ok egress_pods (ParseIP ''b::'') egress_state"

lemma egress_withdrawn_eq: "egress_withdrawn = (\<lparr>mgr_policies = [(''u'', egress_dropping)], liveBSIDs = []\<rparr>,
    [(InstallBlackhole egress_hole, True), (RemoveSteering egress_req, True), (InstallSteering egress_req, True)])"
proof -
  have d: "onUnavailableDrop egress_ex" by (simp add: onUnavailableDrop_def egress_ex_def)
  show ?thesis
    by (simp add: egress_withdrawn_def egress_state_eq OnSRPolicyDeleted_def egress_bsid mgr_reconcileAllLocked_def
        egress_policy_state_def mgr_reconcileLocked_def egress_ex_available applyUnavailableLocked_def d converge_def
        blackholeTargets_def egress_pods_desired call_def seam_ok_def egress_dropping_def)
qed


text \<open>C23: A reconciliation whose calls all succeed leaves nothing to do: reconciling again with the same pods
  changes no state and makes no call.\<close>

theorem egress_idempotent:
  assumes "managed seam s" "mgr_ReconcileAll seam pods s = s'" "ok_since (snd s) (snd s')"
  shows "mgr_ReconcileAll seam pods s' = s'"
proof -
  obtain m h m' h' where s: "s = (m, h)" "s' = (m', h')" by fastforce
  have r: "mgr_inv (m', h')" "\<forall>uid st. mget (mgr_policies m') uid = Some st \<longrightarrow> converged pods m' st"
    using mgr_reconcileAllLocked_result [of seam pods m h m' h'] mgr_inv_own managed_inv [OF assms(1)] assms(2,3)
    by (auto simp: s mgr_ReconcileAll_def)
  have "\<exists>ep. ps_policy st = Some ep \<and> converged pods m' st" if "(uid, st) \<in> set (mgr_policies m')" for uid st
  proof -
    have st: "mget (mgr_policies m') uid = Some st" using that wf_map_in_iff [OF mgr_inv_wf [OF r(1)]] by blast
    then have "pol_own uid (st, h')" using r(1) by (simp add: mgr_inv_def mgr_own_def)
    then show ?thesis using r(2) st by (auto simp: pol_own_def)
  qed
  then have "over_policies (mgr_reconcileLocked seam pods m') (mgr_policies m', h') = (mgr_policies m', h')"
    by (rule over_policies_idle)
  then show ?thesis by (simp add: s mgr_ReconcileAll_def mgr_reconcileAllLocked_def)
qed

theorem egress_idempotent_witness:
  "mgr_ReconcileAll seam_ok egress_pods (mgr_ReconcileAll seam_ok egress_pods egress_state) =
   mgr_ReconcileAll seam_ok egress_pods egress_state"
proof -
  have "ok_since (snd egress_state) (snd (mgr_ReconcileAll seam_ok egress_pods egress_state))"
    by (simp add: egress_state_eq egress_policy_state_def mgr_ReconcileAll_def mgr_reconcileAllLocked_def mgr_reconcileLocked_def
        egress_ex_available mhas_iff clearBlackholesLocked_def converge_def egress_ex_desired)
  then show ?thesis using egress_idempotent [OF egress_state_managed refl] by blast
qed

text \<open>Nothing of a policy the manager no longer tracks stays in the dataplane, however it went (deleted,
  pruned after a list, or dropped at shutdown), unless a removal failed; after a reset nothing of any
  policy does.\<close>

theorem egress_leaves_nothing:
  assumes "managed seam (m, h)" "removals_ok h" "mget (mgr_policies m) uid = None"
  shows "held kd h uid = {}"
  using managed_inv [OF assms(1)] assms(2,3) by (simp add: mgr_inv_def mgr_own_def)

theorem egress_leaves_nothing_witness:
  "held Steer (snd (mgr_Reset seam_ok egress_withdrawn)) ''u'' = {}"
proof -
  have "managed seam_ok (mgr_Reset seam_ok egress_withdrawn)"
    unfolding egress_withdrawn_def by (intro managed.intros egress_state_managed)
  moreover have "mget (mgr_policies (fst (mgr_Reset seam_ok egress_withdrawn))) ''u'' = None" by (simp add: mgr_Reset_def)
  moreover have "removals_ok (snd (mgr_Reset seam_ok egress_withdrawn))"
    by (simp add: egress_withdrawn_eq egress_dropping_def mgr_Reset_def tear_down_def call_def seam_ok_def removals_ok_def)
  ultimately show ?thesis
    using egress_leaves_nothing [of seam_ok "fst (mgr_Reset seam_ok egress_withdrawn)" "snd (mgr_Reset seam_ok egress_withdrawn)"]
    by simp
qed

text \<open>When a policy becomes unavailable and the dataplane refuses the removals, the manager forgets the
  steering entries all the same, while the dataplane keeps steering into the absent BSID.\<close>

theorem egress_removal_forgotten:
  assumes "managed seam (m, h)" "mget (mgr_policies m) uid = Some st" "ps_policy st = Some ep"
    "\<not> available m' ep" "\<forall>h r. \<not> seam h (RemoveSteering r)"
  shows "installs (fst (mgr_reconcileLocked seam pods m' (st, h))) = [] \<and>
    set (mkeys (installs st)) \<subseteq> held Steer (snd (mgr_reconcileLocked seam pods m' (st, h))) uid"
proof -
  have own: "pol_own uid (st, h)" using managed_inv [OF assms(1)] assms(2) by (simp add: mgr_inv_def mgr_own_def)
  obtain ms h1 where f: "forget_all seam RemoveSteering (installs st) (installs st, h) = (ms, h1)" by fastforce
  obtain st' h' where a: "applyUnavailableLocked seam pods ep (st\<lparr>installs := ms\<rparr>, h1) = (st', h')" by fastforce
  have i: "ms = [] \<and> tracked Steer uid [] h1 \<and> only_of Steer uid h h1"
    using own by (intro steer.forget_all_empties [OF f]) (simp_all add: pol_own_def)
  have "installs st' = ms \<and> held Steer h' uid = held Steer h1 uid"
    using applyUnavailableLocked_steered [OF a] by simp
  moreover have "held Steer h1 uid = held Steer h uid"
    using forget_all_refused [OF assms(5), of "installs st" "installs st" h uid] f by simp
  ultimately show ?thesis
    using own i a f assms(3,4) by (simp add: mgr_reconcileLocked_def pol_own_def tracked_def)
qed

definition seam_stuck :: seam where
  "seam_stuck h c = (case c of RemoveSteering r \<Rightarrow> False | _ \<Rightarrow> True)"

theorem egress_removal_forgotten_witness:
  "let s' = mgr_reconcileLocked seam_stuck egress_pods NewManager (egress_policy_state, snd (egress_run seam_stuck))
   in installs (fst s') = [] \<and> sq_key egress_req \<in> held Steer (snd s') ''u''"
proof -
  have e: "egress_run seam_stuck = (fst egress_state, snd egress_state)"
    using egress_run_eq [of seam_stuck] by (simp add: egress_state_eq seam_stuck_def)
  have "managed seam_stuck (fst egress_state, snd egress_state)" using egress_run_managed [of seam_stuck] e by simp
  moreover have "mget (mgr_policies (fst egress_state)) ''u'' = Some egress_policy_state" by (simp add: egress_state_eq)
  moreover have "\<not> available NewManager egress_ex" by (simp add: egress_ex_available NewManager_def)
  ultimately show ?thesis
    using egress_removal_forgotten [of seam_stuck "fst egress_state" "snd egress_state" "''u''" egress_policy_state egress_ex
        NewManager egress_pods] e
    by (simp add: egress_policy_state_def seam_stuck_def Let_def)
qed

text \<open>Two policies that steer the same pod and destination into the same BSID share one entry of the
  dataplane: deleting one of them removes the entry, while the other still has it recorded as installed.\<close>

theorem egress_shared_entry_lost:
  assumes "mget (mgr_policies m) u1 = Some st1" "mget (mgr_policies m) u2 = Some st2" "u1 \<noteq> u2"
    "k \<in> set (mkeys (installs st1))" "k \<in> set (mkeys (installs st2))" "managed seam (m, h)"
    "\<forall>h c. seam h c"
  shows "let s' = mgr_OnPolicyDelete seam u1 (m, h) in
    mget (mgr_policies (fst s')) u2 = Some st2 \<and> k \<notin> steered_keys (snd s')"
proof -
  obtain r where "mget (installs st1) k = Some r" using assms(4) by (metis mget_None_iff option.exhaust)
  then have "r \<in> set (mvals (installs st1)) \<and> sq_key r = k"
    using managed_inv [OF assms(6)] assms(1) by (auto simp: mgr_inv_def mgr_own_def pol_own_def owned_def dest: mget_in_vals)
  then have "k \<notin> steered_keys (tear_down seam st1 h)"
    using tear_down_steered [OF assms(7), of st1 h] by auto
  then show ?thesis using assms(1-3) by (simp add: mgr_OnPolicyDelete_def)
qed

definition egress_twin :: EgressPolicy where
  "egress_twin = egress_ex\<lparr>EP_UID := ''v''\<rparr>"

definition egress_twins :: "Manager \<times> shist" where
  "egress_twins = mgr_OnPolicyUpdate seam_ok egress_pods egress_twin egress_state"

lemma egress_twin_desired: "desired egress_pods egress_twin = [egress_req\<lparr>SQ_PolicyUID := ''v''\<rparr>]"
proof -
  have "podDestPairs egress_pods egress_twin = map (\<lambda>r. r\<lparr>SQ_PolicyUID := ''v''\<rparr>) (podDestPairs egress_pods egress_ex)"
    by (simp add: podDestPairs_def egress_twin_def Let_def map_concat o_def split: option.splits)
  moreover have "policyBSID egress_twin = Some (BSID egress_req)" "EP_Color egress_twin = SQ_Color egress_req"
    by (simp_all add: policyBSID_def egress_twin_def egress_ex_def egress_bsid egress_req_def)
  ultimately show ?thesis by (simp add: desired_def egress_pods_desired egress_hole_def)
qed

lemma egress_twin_state:
  "mget (mgr_policies (fst egress_twins)) ''u'' = Some egress_policy_state \<and>
   (\<exists>st. mget (mgr_policies (fst egress_twins)) ''v'' = Some st \<and> sq_key egress_req \<in> set (mkeys (installs st)))"
proof -
  have uid: "EP_UID egress_twin = ''v''" by (simp add: egress_twin_def)
  have a: "available m egress_twin = available m egress_ex" for m
    by (simp add: egress_twin_def available_def isReady_def policyBSID_def)
  have k: "sq_key (egress_req\<lparr>SQ_PolicyUID := ''v''\<rparr>) = sq_key egress_req" by (simp add: sq_key_def)
  show ?thesis
    by (simp add: egress_twins_def egress_state_eq mgr_OnPolicyUpdate_def uid mgr_reconcileLocked_def a egress_ex_available
        mhas_iff clearBlackholesLocked_def converge_def egress_twin_desired Let_def call_def seam_ok_def k)
qed

theorem egress_shared_entry_lost_witness:
  "\<exists>st. mget (mgr_policies (fst (mgr_OnPolicyDelete seam_ok ''u'' egress_twins))) ''v'' = Some st \<and>
     sq_key egress_req \<in> set (mkeys (installs st)) \<and>
     sq_key egress_req \<notin> steered_keys (snd (mgr_OnPolicyDelete seam_ok ''u'' egress_twins))"
proof -
  obtain st where st: "mget (mgr_policies (fst egress_twins)) ''v'' = Some st" "sq_key egress_req \<in> set (mkeys (installs st))"
    using egress_twin_state by blast
  have "managed seam_ok (fst egress_twins, snd egress_twins)"
    unfolding prod.collapse egress_twins_def by (intro managed.intros egress_state_managed)
  then show ?thesis
    using egress_shared_entry_lost [of "fst egress_twins" "''u''" egress_policy_state "''v''" st "sq_key egress_req" seam_ok
        "snd egress_twins"] egress_twin_state st
    by (auto simp: egress_policy_state_def seam_ok_def Let_def)
qed

end
