(* ===== verification/EgressGateway.thy ===== *)
theory EgressGateway
  imports EgressManager "HOL-Library.Monad_Syntax"
begin

text \<open>
  \<open>calico-vpp-agent/srv6egress/gateway.go\<close>, the endpoint side: on the node that is a policy's endpoint, the
  manager that terminates the tenant's SID in a table of its own, keeps the return routes of the tenant in
  the tables of the upstreams, shared between policies by reference counts, and announces the SID.
  Parameters: the dataplane (\<open>VPPGateway\<close>) and the announcer of SIDs (\<open>SIDAdvertiser\<close>), which reply whether
  a call succeeded. An operation is \<^term>\<open>None\<close> when it does not return: the search for a free table does
  not end when all of them are in use. The announcements an operation leaves pending are sent at its end.
\<close>

section \<open>The allocator of tables\<close>

record vrfAllocator =
  vrf_base :: u32
  byUID :: "(string, u32) gomap"
  vrf_inUse :: "(u32, unit) gomap"

definition newVRFAllocator :: "u32 \<Rightarrow> vrfAllocator" where
  "newVRFAllocator b = \<lparr>vrf_base = b, byUID = [], vrf_inUse = []\<rparr>"

partial_function (option) vrf_scan :: "(u32, unit) gomap \<Rightarrow> u32 \<Rightarrow> u32 option" where
  "vrf_scan used t = (if mhas used t then vrf_scan used (t + 1) else Some t)"

definition vrf_alloc :: "string \<Rightarrow> vrfAllocator \<Rightarrow> (u32 \<times> vrfAllocator) option" where
  "vrf_alloc uid a =
     (case mget (byUID a) uid of
        Some t \<Rightarrow> Some (t, a)
      | None \<Rightarrow> do {
          t \<leftarrow> vrf_scan (vrf_inUse a) (vrf_base a);
          Some (t, a\<lparr>vrf_inUse := mput t () (vrf_inUse a), byUID := mput uid t (byUID a)\<rparr>)
        })"

definition vrf_free :: "string \<Rightarrow> vrfAllocator \<Rightarrow> vrfAllocator" where
  "vrf_free uid a =
     (case mget (byUID a) uid of
        None \<Rightarrow> a
      | Some t \<Rightarrow> a\<lparr>vrf_inUse := mdel t (vrf_inUse a), byUID := mdel uid (byUID a)\<rparr>)"

section \<open>The gateway\<close>

record GatewayRequest =
  GR_PolicyUID :: string
  TenantSID :: ip
  VrfTable :: u32
  UpstreamTable :: u32
  ReturnCIDR :: string
  ReturnTable :: u32
  USID :: bool
  LocatorBlockLen :: u8
  LocatorNodeLen :: u8
  FunctionLen :: u8
  GR_Upstream :: string

record UpstreamSIDSpec =
  US_USID :: bool
  US_LocatorBlockLen :: u8
  US_LocatorNodeLen :: u8
  US_FunctionLen :: u8

definition gr_key :: "GatewayRequest \<Rightarrow> string" where
  "gr_key r = (if TenantSID r = [] then [] else ip_String (TenantSID r)) @ ''|'' @ show_nat (unat (VrfTable r))"

record gwState =
  gw_policy :: "EgressPolicy option"
  gw_install :: "GatewayRequest option"

record tenantReturnRoute =
  rt_prefix :: string
  rt_upstreamTable :: u32
  rt_clusterTable :: u32

datatype gw_call =
    InstallGateway GatewayRequest
  | RemoveGateway GatewayRequest
  | AddTenantReturnRoute tenantReturnRoute
  | DelTenantReturnRoute tenantReturnRoute
  | AdvertiseSID ip
  | WithdrawSID ip

type_synonym gseam = "(gw_call, bool) service"
type_synonym ghist = "(gw_call, bool) hist"

record GatewayManager =
  gw_nodeName :: string
  upstreamTables :: "(string, u32) gomap"
  gw_policies :: "(string, gwState) gomap"
  vrfs :: vrfAllocator
  has_sids :: bool
  pendingSID :: "gw_call list"
  returnCIDR :: string
  returnTable :: u32
  returnRoutes :: "(string, (tenantReturnRoute, unit) gomap) gomap"
  returnRefs :: "(tenantReturnRoute, int) gomap"
  sidModes :: "(string, UpstreamSIDSpec) gomap"
  gw_synced :: bool
  legacySwept :: "(u32, unit) gomap"

definition NewGatewayManager :: "string \<Rightarrow> (string, u32) gomap \<Rightarrow> u32 \<Rightarrow> GatewayManager" where
  "NewGatewayManager node tables vrfBase =
     \<lparr>gw_nodeName = node, upstreamTables = tables, gw_policies = [], vrfs = newVRFAllocator vrfBase, has_sids = False,
      pendingSID = [], returnCIDR = [], returnTable = 0, returnRoutes = [], returnRefs = [], sidModes = [],
      gw_synced = False, legacySwept = []\<rparr>"

definition SetSIDAdvertiser :: "bool \<Rightarrow> GatewayManager \<Rightarrow> GatewayManager" where
  "SetSIDAdvertiser a m = m\<lparr>has_sids := a\<rparr>"

definition SetClusterReturn :: "string \<Rightarrow> u32 \<Rightarrow> GatewayManager \<Rightarrow> GatewayManager" where
  "SetClusterReturn podCIDR clusterVRF m = m\<lparr>returnCIDR := podCIDR, returnTable := clusterVRF\<rparr>"

definition SetUpstreamSIDModes :: "(string, UpstreamSIDSpec) gomap \<Rightarrow> GatewayManager \<Rightarrow> GatewayManager" where
  "SetUpstreamSIDModes modes m = m\<lparr>sidModes := modes\<rparr>"

text \<open>\<open>desired\<close>: the request, its table not yet allocated, or \<^term>\<open>None\<close> when this node should not
  provision the policy.\<close>

definition gw_desired :: "GatewayManager \<Rightarrow> EgressPolicy option \<Rightarrow> GatewayRequest option" where
  "gw_desired m p = do {
     ep \<leftarrow> p;
     if \<not> isReady ep then None
     else if ActiveEndpoint ep \<noteq> gw_nodeName m then None
     else do {
       sp \<leftarrow> EP_SRPolicy ep;
       if SegmentList sp = [] then None
       else do {
         sid \<leftarrow> parseV6 (last (SegmentList sp));
         upstreamTable \<leftarrow> mget (upstreamTables m) (EP_Upstream ep);
         let spec = (case mget (sidModes m) (EP_Upstream ep) of
                       Some spec \<Rightarrow> spec
                     | None \<Rightarrow> \<lparr>US_USID = False, US_LocatorBlockLen = 0, US_LocatorNodeLen = 0, US_FunctionLen = 0\<rparr>)
         in Some \<lparr>GR_PolicyUID = EP_UID ep, TenantSID = sid, VrfTable = 0, UpstreamTable = upstreamTable,
              ReturnCIDR = (if ReturnPrefixes ep \<noteq> [] then [] else returnCIDR m), ReturnTable = returnTable m,
              USID = US_USID spec, LocatorBlockLen = US_LocatorBlockLen spec, LocatorNodeLen = US_LocatorNodeLen spec,
              FunctionLen = US_FunctionLen spec, GR_Upstream = EP_Upstream ep\<rparr>
       }
     }
   }"

definition desiredReturnRoutes :: "GatewayManager \<Rightarrow> EgressPolicy option \<Rightarrow> tenantReturnRoute list" where
  "desiredReturnRoutes m p =
     (case p of
        None \<Rightarrow> []
      | Some ep \<Rightarrow>
          if ReturnPrefixes ep = [] then []
          else let ups0 = (case EP_SRPolicy ep of
                             None \<Rightarrow> []
                           | Some sp \<Rightarrow> remdups (filter (\<lambda>u. u \<noteq> []) (map CPS_Upstream (CandidatePaths sp))));
                   ups = (if ups0 = [] \<and> EP_Upstream ep \<noteq> [] then [EP_Upstream ep] else ups0)
               in remdups (concat (map (\<lambda>up.
                    case mget (upstreamTables m) up of
                      None \<Rightarrow> []
                    | Some table \<Rightarrow>
                        map (\<lambda>p. \<lparr>rt_prefix = p, rt_upstreamTable = table, rt_clusterTable = returnTable m\<rparr>) (ReturnPrefixes ep)) ups)))"

text \<open>The counters of the return routes, 0 for a route that has none, and the two loops that add the missing
  routes of a policy and remove those it no longer wants.\<close>

definition ref_count :: "(tenantReturnRoute, int) gomap \<Rightarrow> tenantReturnRoute \<Rightarrow> int" where
  "ref_count refs rt = (case mget refs rt of None \<Rightarrow> 0 | Some n \<Rightarrow> n)"

definition ref_dec :: "tenantReturnRoute \<Rightarrow> (tenantReturnRoute, int) gomap \<Rightarrow> (tenantReturnRoute, int) gomap" where
  "ref_dec rt refs =
     (let n = ref_count refs rt - 1 in if n = 0 then mdel rt (mput rt n refs) else mput rt n refs)"

type_synonym returns = "(tenantReturnRoute, unit) gomap \<times> (tenantReturnRoute, int) gomap \<times> ghist"

fun return_add :: "gseam \<Rightarrow> tenantReturnRoute list \<Rightarrow> returns \<Rightarrow> returns" where
  "return_add seam [] s = s"
| "return_add seam (rt # rts) (cur, refs, h) =
     (if mhas cur rt then return_add seam rts (cur, refs, h)
      else if ref_count refs rt = 0 then
        (case call seam (AddTenantReturnRoute rt) h of (ok, h') \<Rightarrow>
           return_add seam rts (if ok then (mput rt () cur, mput rt (ref_count refs rt + 1) refs, h') else (cur, refs, h')))
      else return_add seam rts (mput rt () cur, mput rt (ref_count refs rt + 1) refs, h))"

fun return_del :: "gseam \<Rightarrow> tenantReturnRoute list \<Rightarrow> tenantReturnRoute list \<Rightarrow> returns \<Rightarrow> returns" where
  "return_del seam want [] s = s"
| "return_del seam want (rt # rts) (cur, refs, h) =
     (if rt \<in> set want then return_del seam want rts (cur, refs, h)
      else if ref_count refs rt = 1 then
        (case call seam (DelTenantReturnRoute rt) h of (ok, h') \<Rightarrow>
           return_del seam want rts (if ok then (mdel rt cur, ref_dec rt refs, h') else (cur, refs, h')))
      else return_del seam want rts (mdel rt cur, ref_dec rt refs, h))"

definition returns_of :: "string \<Rightarrow> GatewayManager \<Rightarrow> (tenantReturnRoute, unit) gomap" where
  "returns_of uid m = (case mget (returnRoutes m) uid of None \<Rightarrow> [] | Some cur \<Rightarrow> cur)"

definition reconcileReturnLocked :: "gseam \<Rightarrow> string \<Rightarrow> tenantReturnRoute list \<Rightarrow> GatewayManager \<times> ghist \<Rightarrow> GatewayManager \<times> ghist" where
  "reconcileReturnLocked seam uid want s =
     (case return_add seam want (returns_of uid (fst s), returnRefs (fst s), snd s) of
        (cur1, refs1, h1) \<Rightarrow>
          (case return_del seam want (mkeys cur1) (cur1, refs1, h1) of
             (cur2, refs2, h2) \<Rightarrow>
               ((fst s)\<lparr>returnRefs := refs2,
                  returnRoutes := (if cur2 = [] then mdel uid (returnRoutes (fst s)) else mput uid cur2 (returnRoutes (fst s)))\<rparr>,
                h2)))"

definition pend :: "gw_call \<Rightarrow> GatewayManager \<Rightarrow> GatewayManager" where
  "pend c m = m\<lparr>pendingSID := pendingSID m @ [c]\<rparr>"

definition teardownLocked :: "gseam \<Rightarrow> string \<Rightarrow> bool \<Rightarrow> gwState \<times> GatewayManager \<times> ghist \<Rightarrow> gwState \<times> GatewayManager \<times> ghist" where
  "teardownLocked seam uid pruneReturn s =
     (case s of (st, m, h) \<Rightarrow>
        (case (if pruneReturn then reconcileReturnLocked seam uid [] (m, h) else (m, h)) of (m1, h1) \<Rightarrow>
           (case gw_install st of
              None \<Rightarrow> (st, m1\<lparr>vrfs := vrf_free uid (vrfs m1)\<rparr>, h1)
            | Some req \<Rightarrow>
                let m2 = (if has_sids m1 \<and> TenantSID req \<noteq> [] then pend (WithdrawSID (TenantSID req)) m1 else m1);
                    h2 = snd (call seam (RemoveGateway req) h1)
                in (st\<lparr>gw_install := None\<rparr>, m2\<lparr>vrfs := vrf_free uid (vrfs m2)\<rparr>, h2))))"

definition install_gateway :: "gseam \<Rightarrow> GatewayRequest \<Rightarrow> gwState \<times> GatewayManager \<times> ghist \<Rightarrow> gwState \<times> GatewayManager \<times> ghist" where
  "install_gateway seam req s =
     (case s of (st, m, h) \<Rightarrow>
        (case call seam (InstallGateway req) h of (ok, h') \<Rightarrow>
           if \<not> ok then (st, m, h')
           else (st\<lparr>gw_install := Some req\<rparr>, if has_sids m then pend (AdvertiseSID (TenantSID req)) m else m, h')))"

definition gw_provision :: "gseam \<Rightarrow> string \<Rightarrow> GatewayRequest \<Rightarrow> gwState \<times> GatewayManager \<times> ghist \<Rightarrow>
    (gwState \<times> GatewayManager \<times> ghist) option" where
  "gw_provision seam uid req s =
     (case s of (st, m, h) \<Rightarrow> do {
        (t, a) \<leftarrow> vrf_alloc uid (vrfs m);
        let m1 = m\<lparr>vrfs := a\<rparr>; req1 = req\<lparr>VrfTable := t\<rparr> in
        (case gw_install st of
           None \<Rightarrow> Some (install_gateway seam req1 (st, m1, h))
         | Some old \<Rightarrow>
             if gr_key old = gr_key req1 then Some (st, m1, h)
             else (case teardownLocked seam uid False (st, m1, h) of (st2, m2, h2) \<Rightarrow> do {
                     (t2, a2) \<leftarrow> vrf_alloc uid (vrfs m2);
                     Some (install_gateway seam (req1\<lparr>VrfTable := t2\<rparr>) (st2, m2\<lparr>vrfs := a2\<rparr>, h2))
                   }))
      })"

definition gw_reconcileLocked :: "gseam \<Rightarrow> string \<Rightarrow> gwState \<times> GatewayManager \<times> ghist \<Rightarrow>
    (gwState \<times> GatewayManager \<times> ghist) option" where
  "gw_reconcileLocked seam uid s =
     (case s of (st, m, h) \<Rightarrow>
        (case gw_desired m (gw_policy st) of
           None \<Rightarrow>
             Some (if gw_install st \<noteq> None \<or> returns_of uid m \<noteq> [] then teardownLocked seam uid True (st, m, h) else (st, m, h))
         | Some req \<Rightarrow> do {
             (st1, m1, h1) \<leftarrow> gw_provision seam uid req (st, m, h);
             case reconcileReturnLocked seam uid (desiredReturnRoutes m1 (gw_policy st1)) (m1, h1) of
               (m2, h2) \<Rightarrow> Some (st1, m2, h2)
           }))"

definition flushPendingSID :: "gseam \<Rightarrow> GatewayManager \<times> ghist \<Rightarrow> GatewayManager \<times> ghist" where
  "flushPendingSID seam s =
     ((fst s)\<lparr>pendingSID := []\<rparr>, fold (\<lambda>c h. snd (call seam c h)) (pendingSID (fst s)) (snd s))"

definition gw_put :: "string \<Rightarrow> gwState \<times> GatewayManager \<times> ghist \<Rightarrow> GatewayManager \<times> ghist" where
  "gw_put uid s = (case s of (st, m, h) \<Rightarrow> (m\<lparr>gw_policies := mput uid st (gw_policies m)\<rparr>, h))"

definition gw_OnPolicyUpdate :: "gseam \<Rightarrow> EgressPolicy \<Rightarrow> GatewayManager \<times> ghist \<Rightarrow> (GatewayManager \<times> ghist) option" where
  "gw_OnPolicyUpdate seam ep s =
     (let uid = EP_UID ep in
      if uid = [] then Some (flushPendingSID seam s)
      else let st = (case mget (gw_policies (fst s)) uid of
                       Some st \<Rightarrow> st
                     | None \<Rightarrow> \<lparr>gw_policy = None, gw_install = None\<rparr>)
           in map_option (\<lambda>r. flushPendingSID seam (gw_put uid r))
                (gw_reconcileLocked seam uid (st\<lparr>gw_policy := Some ep\<rparr>, fst s, snd s)))"

definition gw_drop :: "gseam \<Rightarrow> string \<Rightarrow> gwState \<Rightarrow> GatewayManager \<times> ghist \<Rightarrow> GatewayManager \<times> ghist" where
  "gw_drop seam uid st s =
     (case teardownLocked seam uid True (st, fst s, snd s) of
        (_, m, h) \<Rightarrow> (m\<lparr>gw_policies := mdel uid (gw_policies m)\<rparr>, h))"

definition gw_OnPolicyDelete :: "gseam \<Rightarrow> string \<Rightarrow> GatewayManager \<times> ghist \<Rightarrow> GatewayManager \<times> ghist" where
  "gw_OnPolicyDelete seam uid s =
     flushPendingSID seam (case mget (gw_policies (fst s)) uid of None \<Rightarrow> s | Some st \<Rightarrow> gw_drop seam uid st s)"

text \<open>The reconciliation of every policy, the retries for policies already forgotten, and the sweep of the
  shared aggregate.\<close>

fun gw_reconcile_each :: "gseam \<Rightarrow> string list \<Rightarrow> GatewayManager \<times> ghist \<Rightarrow> (GatewayManager \<times> ghist) option" where
  "gw_reconcile_each seam [] s = Some s"
| "gw_reconcile_each seam (uid # uids) (m, h) =
     (case mget (gw_policies m) uid of
        None \<Rightarrow> gw_reconcile_each seam uids (m, h)
      | Some st \<Rightarrow> do {
          r \<leftarrow> gw_reconcileLocked seam uid (st, m, h);
          gw_reconcile_each seam uids (gw_put uid r)
        })"

fun gw_retry_orphans :: "gseam \<Rightarrow> string list \<Rightarrow> GatewayManager \<times> ghist \<Rightarrow> GatewayManager \<times> ghist" where
  "gw_retry_orphans seam [] s = s"
| "gw_retry_orphans seam (uid # uids) (m, h) =
     gw_retry_orphans seam uids (if mhas (gw_policies m) uid then (m, h) else reconcileReturnLocked seam uid [] (m, h))"

definition legacy_wanted :: "GatewayManager \<Rightarrow> u32 list" where
  "legacy_wanted m =
     map UpstreamTable (filter (\<lambda>r. ReturnCIDR r \<noteq> []) (List.map_filter (\<lambda>st. gw_desired m (gw_policy st)) (mvals (gw_policies m))))"

fun sweep_tables :: "gseam \<Rightarrow> u32 list \<Rightarrow> u32 list \<Rightarrow> GatewayManager \<times> ghist \<Rightarrow> GatewayManager \<times> ghist" where
  "sweep_tables seam wanted [] s = s"
| "sweep_tables seam wanted (table # tables) (m, h) =
     (let rt = \<lparr>rt_prefix = returnCIDR m, rt_upstreamTable = table, rt_clusterTable = returnTable m\<rparr> in
      if table \<in> set wanted then sweep_tables seam wanted tables (m\<lparr>legacySwept := mdel table (legacySwept m)\<rparr>, h)
      else if mhas (legacySwept m) table then sweep_tables seam wanted tables (m, h)
      else if ref_count (returnRefs m) rt > 0 then sweep_tables seam wanted tables (m, h)
      else case call seam (DelTenantReturnRoute rt) h of (ok, h') \<Rightarrow>
             sweep_tables seam wanted tables (if ok then m\<lparr>legacySwept := mput table () (legacySwept m)\<rparr> else m, h'))"

definition sweepLegacyAggregateLocked :: "gseam \<Rightarrow> GatewayManager \<times> ghist \<Rightarrow> GatewayManager \<times> ghist" where
  "sweepLegacyAggregateLocked seam s =
     (if \<not> gw_synced (fst s) \<or> returnCIDR (fst s) = [] then s
      else sweep_tables seam (legacy_wanted (fst s)) (mvals (upstreamTables (fst s))) s)"

definition gw_ReconcileAll :: "gseam \<Rightarrow> GatewayManager \<times> ghist \<Rightarrow> (GatewayManager \<times> ghist) option" where
  "gw_ReconcileAll seam s = do {
     s1 \<leftarrow> gw_reconcile_each seam (mkeys (gw_policies (fst s))) s;
     let s2 = gw_retry_orphans seam (mkeys (returnRoutes (fst s1))) s1 in
     Some (flushPendingSID seam (sweepLegacyAggregateLocked seam s2))
   }"

fun gw_prune_loop :: "gseam \<Rightarrow> string set \<Rightarrow> (string \<times> gwState) list \<Rightarrow> GatewayManager \<times> ghist \<Rightarrow> GatewayManager \<times> ghist" where
  "gw_prune_loop seam live [] s = s"
| "gw_prune_loop seam live ((uid, st) # rest) s =
     gw_prune_loop seam live rest (if uid \<in> live then s else gw_drop seam uid st s)"

definition gw_PruneExcept :: "gseam \<Rightarrow> string set \<Rightarrow> GatewayManager \<times> ghist \<Rightarrow> GatewayManager \<times> ghist" where
  "gw_PruneExcept seam live s =
     (case gw_prune_loop seam live (gw_policies (fst s)) s of (m, h) \<Rightarrow> (m\<lparr>gw_synced := True\<rparr>, h))"

fun gw_reset_loop :: "gseam \<Rightarrow> (string \<times> gwState) list \<Rightarrow> GatewayManager \<times> ghist \<Rightarrow> GatewayManager \<times> ghist" where
  "gw_reset_loop seam [] s = s"
| "gw_reset_loop seam ((uid, st) # rest) s = gw_reset_loop seam rest (gw_put uid (teardownLocked seam uid True (st, fst s, snd s)))"

definition gw_Reset :: "gseam \<Rightarrow> GatewayManager \<times> ghist \<Rightarrow> GatewayManager \<times> ghist" where
  "gw_Reset seam s = (case gw_reset_loop seam (gw_policies (fst s)) s of (m, h) \<Rightarrow> (m\<lparr>gw_policies := []\<rparr>, h))"

section \<open>Tables are distinct\<close>

definition vrf_inv :: "vrfAllocator \<Rightarrow> bool" where
  "vrf_inv a \<longleftrightarrow> wf_map (byUID a) \<and> distinct (mvals (byUID a)) \<and> set (mkeys (vrf_inUse a)) = set (mvals (byUID a))"

lemma vrf_scan_free:
  assumes "vrf_scan used t = Some r"
  shows "\<not> mhas used r"
  by (rule vrf_scan.raw_induct [OF _ assms]) (auto split: if_splits)

lemma vrf_scan_returns: "\<not> mhas used (t + of_nat k) \<Longrightarrow> \<exists>r. vrf_scan used t = Some r"
proof (induction k arbitrary: t)
  case 0
  then show ?case by (subst vrf_scan.simps) simp
next
  case (Suc k)
  then have "\<exists>r. vrf_scan used (t + 1) = Some r" by (intro Suc.IH) (simp add: algebra_simps)
  then show ?case by (subst vrf_scan.simps) simp
qed

text \<open>The first free table from the base on.\<close>

lemma vrf_scan_first:
  assumes "vrf_scan used t = Some r"
  shows "\<exists>k. r = t + of_nat k \<and> (\<forall>j < k. mhas used (t + of_nat j))"
proof (rule vrf_scan.raw_induct [OF _ assms])
  fix self :: "(u32, unit) gomap \<Rightarrow> u32 \<Rightarrow> u32 option" and used t r
  assume ih: "\<And>used t r. self used t = Some r \<Longrightarrow> \<exists>k. r = t + of_nat k \<and> (\<forall>j < k. mhas used (t + of_nat j))"
    and r: "(if mhas used t then self used (t + 1) else Some t) = Some r"
  show "\<exists>k. r = t + of_nat k \<and> (\<forall>j < k. mhas used (t + of_nat j))"
  proof (cases "mhas used t")
    case True
    then obtain k where k: "r = t + 1 + of_nat k" "\<forall>j < k. mhas used (t + 1 + of_nat j)"
      using ih [of used "t + 1" r] r by auto
    have "mhas used (t + of_nat j)" if "j < Suc k" for j
      using that k(2) True by (cases j) (auto simp: algebra_simps)
    then show ?thesis using k(1) by (intro exI [of _ "Suc k"]) (simp add: algebra_simps)
  next
    case False
    then show ?thesis using r by (intro exI [of _ 0]) simp
  qed
qed

lemma mvals_mput_new: "k \<notin> set (mkeys m) \<Longrightarrow> mvals (mput k v m) = mvals m @ [v]"
  by (induction m) (auto simp: split_paired_all)

lemma vrf_alloc_result:
  assumes "vrf_alloc uid a = Some (t, a')" "vrf_inv a"
  shows "vrf_inv a' \<and> mget (byUID a') uid = Some t \<and> (\<forall>u. u \<noteq> uid \<longrightarrow> mget (byUID a') u = mget (byUID a) u) \<and>
    vrf_base a' = vrf_base a"
proof (cases "mget (byUID a) uid")
  case None
  then obtain "vrf_scan (vrf_inUse a) (vrf_base a) = Some t"
      and a': "a' = a\<lparr>vrf_inUse := mput t () (vrf_inUse a), byUID := mput uid t (byUID a)\<rparr>"
    using assms(1) by (auto simp: vrf_alloc_def split: Option.bind_splits)
  then have "t \<notin> set (mvals (byUID a))" using assms(2) vrf_scan_free by (auto simp: vrf_inv_def mhas_iff)
  then have "distinct (mvals (mput uid t (byUID a)))" "set (mvals (mput uid t (byUID a))) = insert t (set (mvals (byUID a)))"
    using assms(2) None mvals_mput_new [of uid "byUID a" t] by (simp_all add: vrf_inv_def mget_None_iff)
  then show ?thesis using a' assms(2) by (simp add: vrf_inv_def)
next
  case (Some t')
  then show ?thesis using assms by (simp add: vrf_alloc_def)
qed

lemma set_mvals_mdel_distinct:
  "wf_map m \<Longrightarrow> distinct (mvals m) \<Longrightarrow> mget m k = Some v \<Longrightarrow> distinct (mvals (mdel k m)) \<and> set (mvals (mdel k m)) = set (mvals m) - {v}"
proof (induction m)
  case (Cons p m)
  obtain a b where p: "p = (a, b)" by fastforce
  have wf: "wf_map m" "a \<notin> set (mkeys m)" using Cons.prems(1) p by (auto simp: wf_map_def)
  show ?case
  proof (cases "a = k")
    case True
    then show ?thesis using Cons.prems p wf by auto
  next
    case False
    then have v: "mget m k = Some v" using Cons.prems p by simp
    then show ?thesis
      using Cons p wf False mget_in_vals [OF v] by auto
  qed
qed simp

lemma vrf_free_result:
  assumes "vrf_inv a"
  shows "vrf_inv (vrf_free uid a)" "mget (byUID (vrf_free uid a)) uid = None"
    "u \<noteq> uid \<Longrightarrow> mget (byUID (vrf_free uid a)) u = mget (byUID a) u" "vrf_base (vrf_free uid a) = vrf_base a"
  using assms set_mvals_mdel_distinct [of "byUID a" uid]
  by (auto simp: vrf_free_def vrf_inv_def split: option.splits)

lemma vrf_alloc_returns:
  assumes "vrf_inv a" "length (byUID a) < 2 ^ 32"
  shows "\<exists>t a'. vrf_alloc uid a = Some (t, a')"
proof -
  have "card (set (mkeys (vrf_inUse a))) \<le> length (byUID a)"
    using assms(1) card_length [of "mvals (byUID a)"] by (simp add: vrf_inv_def mvals_def)
  also have "\<dots> < card (UNIV :: u32 set)" using assms(2) by (simp add: card_word)
  finally obtain r :: u32 where "\<not> mhas (vrf_inUse a) r" by (metis mhas_iff UNIV_eq_I less_irrefl)
  then have "\<not> mhas (vrf_inUse a) (vrf_base a + of_nat (unat (r - vrf_base a)))" by simp
  then obtain t where "vrf_scan (vrf_inUse a) (vrf_base a) = Some t" using vrf_scan_returns by blast
  then show ?thesis by (auto simp: vrf_alloc_def split: option.splits)
qed

section \<open>Return routes are counted\<close>

text \<open>The return routes the dataplane has, and the policies that hold one.\<close>

fun present :: "ghist \<Rightarrow> tenantReturnRoute set" where
  "present [] = {}"
| "present ((AddTenantReturnRoute rt, True) # h) = insert rt (present h)"
| "present ((DelTenantReturnRoute rt, True) # h) = present h - {rt}"
| "present (_ # h) = present h"

type_synonym return_map = "(string, (tenantReturnRoute, unit) gomap) gomap"

definition holders :: "return_map \<Rightarrow> tenantReturnRoute \<Rightarrow> nat" where
  "holders rr rt = length (filter (\<lambda>cur. mhas cur rt) (mvals rr))"

definition ret_inv :: "GatewayManager \<Rightarrow> ghist \<Rightarrow> bool" where
  "ret_inv m h \<longleftrightarrow> wf_map (returnRoutes m) \<and>
     (\<forall>uid cur. mget (returnRoutes m) uid = Some cur \<longrightarrow> wf_map cur \<and> cur \<noteq> []) \<and>
     (\<forall>rt. ref_count (returnRefs m) rt = int (holders (returnRoutes m) rt) \<and>
           (rt \<in> present h \<longleftrightarrow> 0 < holders (returnRoutes m) rt))"

definition cur_inv :: "(tenantReturnRoute \<Rightarrow> nat) \<Rightarrow> returns \<Rightarrow> bool" where
  "cur_inv n s \<longleftrightarrow> wf_map (fst s) \<and>
     (\<forall>rt. ref_count (fst (snd s)) rt = int (n rt) + of_bool (mhas (fst s) rt) \<and>
           (rt \<in> present (snd (snd s)) \<longleftrightarrow> 0 < n rt \<or> mhas (fst s) rt))"

lemma ref_count_mput [simp]: "ref_count (mput rt n refs) rt' = (if rt' = rt then n else ref_count refs rt')"
  by (simp add: ref_count_def)

lemma ref_count_dec [simp]: "ref_count (ref_dec rt refs) rt' = (if rt' = rt then ref_count refs rt - 1 else ref_count refs rt')"
  by (simp add: ref_count_def ref_dec_def Let_def)

lemma return_add_result:
  assumes "return_add seam want (cur, refs, h) = (cur', refs', h')" "cur_inv n (cur, refs, h)"
  shows "cur_inv n (cur', refs', h') \<and> suffix h h' \<and> (ok_since h h' \<longrightarrow> set (mkeys cur') = set (mkeys cur) \<union> set want)"
  using assms
proof (induction want arbitrary: cur refs h)
  case (Cons rt want)
  consider (held) "mhas cur rt" | (first) "\<not> mhas cur rt" "ref_count refs rt = 0"
    | (shared) "\<not> mhas cur rt" "ref_count refs rt \<noteq> 0" by blast
  then show ?case
  proof cases
    case held
    then show ?thesis using Cons.IH [of cur refs h] Cons.prems by (auto simp: mhas_iff)
  next
    case shared
    have "cur_inv n (mput rt () cur, mput rt (ref_count refs rt + 1) refs, h)"
      using Cons.prems(2) shared by (auto simp: cur_inv_def)
    then show ?thesis using Cons.IH Cons.prems(1) shared by fastforce
  next
    case first
    obtain ok h1 where c: "call seam (AddTenantReturnRoute rt) h = (ok, h1)" by fastforce
    then have h1: "h1 = (AddTenantReturnRoute rt, ok) # h" by (auto simp: call_def Let_def)
    define cur1 refs1 where "cur1 = (if ok then mput rt () cur else cur)"
      and "refs1 = (if ok then mput rt (ref_count refs rt + 1) refs else refs)"
    have r: "return_add seam want (cur1, refs1, h1) = (cur', refs', h')"
      using Cons.prems(1) first c by (auto simp: cur1_def refs1_def)
    have "cur_inv n (cur1, refs1, h1)"
      using Cons.prems(2) first by (cases ok) (auto simp: cur_inv_def h1 cur1_def refs1_def)
    note ih = Cons.IH [OF r this]
    have s: "suffix h h1" "suffix h1 h'" using ih h1 by (simp_all add: suffix_def)
    have "ok" if "ok_since h h'" using ok_since_Cons [OF s(2) h1 that] .
    then show ?thesis
      using ih suffix_order.trans [OF s] ok_since_split [OF s] by (auto simp: cur1_def)
  qed
qed simp

lemma return_del_result:
  assumes "return_del seam want rts (cur, refs, h) = (cur', refs', h')" "cur_inv n (cur, refs, h)"
    "distinct rts" "set rts \<subseteq> set (mkeys cur)"
  shows "cur_inv n (cur', refs', h') \<and> suffix h h' \<and>
    (ok_since h h' \<longrightarrow> set (mkeys cur') = set (mkeys cur) - (set rts - set want))"
  using assms
proof (induction rts arbitrary: cur refs h)
  case (Cons rt rts)
  have rt: "mhas cur rt" using Cons.prems(4) by (simp add: mhas_iff)
  consider (kept) "rt \<in> set want" | (last) "rt \<notin> set want" "ref_count refs rt = 1"
    | (shared) "rt \<notin> set want" "ref_count refs rt \<noteq> 1" by blast
  then show ?case
  proof cases
    case kept
    then show ?thesis using Cons.IH [of cur refs h] Cons.prems by auto
  next
    case shared
    have "cur_inv n (mdel rt cur, ref_dec rt refs, h)"
      using Cons.prems(2) shared rt by (auto simp: cur_inv_def)
    then show ?thesis using Cons.IH [of "mdel rt cur" "ref_dec rt refs" h] Cons.prems shared by auto
  next
    case last
    obtain ok h1 where c: "call seam (DelTenantReturnRoute rt) h = (ok, h1)" by fastforce
    then have h1: "h1 = (DelTenantReturnRoute rt, ok) # h" by (auto simp: call_def Let_def)
    define cur1 refs1 where "cur1 = (if ok then mdel rt cur else cur)"
      and "refs1 = (if ok then ref_dec rt refs else refs)"
    have r: "return_del seam want rts (cur1, refs1, h1) = (cur', refs', h')"
      using Cons.prems(1) last c by (auto simp: cur1_def refs1_def)
    have "cur_inv n (cur1, refs1, h1)"
      using Cons.prems(2) last rt by (cases ok) (auto simp: cur_inv_def h1 cur1_def refs1_def)
    moreover have "distinct rts" "set rts \<subseteq> set (mkeys cur1)" using Cons.prems(3,4) by (auto simp: cur1_def)
    ultimately have ih: "cur_inv n (cur', refs', h') \<and> suffix h1 h' \<and>
        (ok_since h1 h' \<longrightarrow> set (mkeys cur') = set (mkeys cur1) - (set rts - set want))"
      using Cons.IH [OF r] by blast
    have s: "suffix h h1" "suffix h1 h'" using ih h1 by (simp_all add: suffix_def)
    have "ok" if "ok_since h h'" using ok_since_Cons [OF s(2) h1 that] .
    then show ?thesis
      using ih suffix_order.trans [OF s] ok_since_split [OF s] last by (auto simp: cur1_def)
  qed
qed simp

lemma holders_split:
  "wf_map rr \<Longrightarrow> holders rr rt =
    holders (mdel uid rr) rt + of_bool (mhas (case mget rr uid of None \<Rightarrow> [] | Some cur \<Rightarrow> cur) rt)"
  by (induction rr) (auto simp: split_paired_all holders_def wf_map_def mget_None_iff split: option.splits)

lemma mdel_mput_same: "mdel k (mput k v m) = mdel k m"
  by (induction m) (auto simp: split_paired_all)

lemma holders_mput: "wf_map rr \<Longrightarrow> holders (mput uid cur rr) rt = holders (mdel uid rr) rt + of_bool (mhas cur rt)"
  using holders_split [of "mput uid cur rr" rt uid] by (simp add: mdel_mput_same)

text \<open>The frame of the operations on return routes.\<close>

lemma reconcileReturnLocked_frame:
  "\<exists>rr refs. fst (reconcileReturnLocked seam uid want (m, h)) = m\<lparr>returnRefs := refs, returnRoutes := rr\<rparr>"
  by (auto simp: reconcileReturnLocked_def split: prod.splits)

lemma reconcileReturnLocked_result:
  assumes "reconcileReturnLocked seam uid want (m, h) = (m', h')" "ret_inv m h"
  shows "ret_inv m' h' \<and> suffix h h' \<and> (\<forall>u. u \<noteq> uid \<longrightarrow> returns_of u m' = returns_of u m) \<and>
    (ok_since h h' \<longrightarrow> set (mkeys (returns_of uid m')) = set want)"
proof -
  obtain cur1 refs1 h1 where a: "return_add seam want (returns_of uid m, returnRefs m, h) = (cur1, refs1, h1)"
    by (metis prod_cases3)
  obtain cur2 refs2 where d: "return_del seam want (mkeys cur1) (cur1, refs1, h1) = (cur2, refs2, h')"
      and m': "m' = m\<lparr>returnRefs := refs2,
        returnRoutes := (if cur2 = [] then mdel uid (returnRoutes m) else mput uid cur2 (returnRoutes m))\<rparr>"
    using assms(1) a by (auto simp: reconcileReturnLocked_def split: prod.splits)
  define n where "n = holders (mdel uid (returnRoutes m))"
  have wf: "wf_map (returnRoutes m)" using assms(2) by (simp add: ret_inv_def)
  have "cur_inv n (returns_of uid m, returnRefs m, h)"
    using assms(2) holders_split [OF wf, of _ uid]
    by (auto simp: cur_inv_def ret_inv_def n_def returns_of_def split: option.splits)
  note r1 = return_add_result [OF a this]
  have d1: "distinct (mkeys cur1)" using r1 by (simp add: cur_inv_def wf_map_def)
  have r2: "cur_inv n (cur2, refs2, h') \<and> suffix h1 h' \<and>
      (ok_since h1 h' \<longrightarrow> set (mkeys cur2) = set (mkeys cur1) - (set (mkeys cur1) - set want))"
    using return_del_result [OF d _ d1] r1 by blast
  have "holders (returnRoutes m') rt = n rt + of_bool (mhas cur2 rt)" for rt
    using m' wf by (simp add: n_def holders_mput)
  then have "ret_inv m' h'" using r2 assms(2) m' by (auto simp: ret_inv_def cur_inv_def)
  moreover have ret: "returns_of u m' = (if u = uid then cur2 else returns_of u m)" for u
    using m' by (simp add: returns_of_def)
  moreover have s: "suffix h h1" "suffix h1 h'" using r1 r2 by simp_all
  ultimately show ?thesis
    using r1 r2 ok_since_split [OF s] suffix_order.trans [OF s] by auto
qed

section \<open>The gateway's invariant\<close>

text \<open>The operations leave the configuration alone, on which alone depends what a policy asks for.\<close>

definition gw_config :: "GatewayManager \<Rightarrow> _" where
  "gw_config m = (gw_nodeName m, upstreamTables m, returnCIDR m, returnTable m, sidModes m, has_sids m)"

lemma gw_config_fields:
  assumes "gw_config m = gw_config m'"
  shows "gw_nodeName m = gw_nodeName m'" "upstreamTables m = upstreamTables m'" "returnCIDR m = returnCIDR m'"
    "returnTable m = returnTable m'" "sidModes m = sidModes m'"
  using assms by (simp_all add: gw_config_def)

lemma gw_desired_config:
  assumes "gw_config m = gw_config m'"
  shows "gw_desired m p = gw_desired m' p"
  unfolding gw_desired_def gw_config_fields [OF assms] ..

lemma desiredReturnRoutes_config:
  assumes "gw_config m = gw_config m'"
  shows "desiredReturnRoutes m p = desiredReturnRoutes m' p"
  unfolding desiredReturnRoutes_def gw_config_fields [OF assms] ..

definition want_returns :: "GatewayManager \<Rightarrow> EgressPolicy option \<Rightarrow> tenantReturnRoute set" where
  "want_returns m p = (if gw_desired m p = None then {} else set (desiredReturnRoutes m p))"

lemma want_returns_config: "gw_config m = gw_config m' \<Longrightarrow> want_returns m p = want_returns m' p"
  using gw_desired_config [of m m' p] desiredReturnRoutes_config [of m m' p] by (simp add: want_returns_def)

text \<open>The gateway entries the dataplane has.\<close>

fun gw_live :: "ghist \<Rightarrow> GatewayRequest set" where
  "gw_live [] = {}"
| "gw_live ((InstallGateway r, True) # h) = insert r (gw_live h)"
| "gw_live ((RemoveGateway r, True) # h) = gw_live h - {r}"
| "gw_live (_ # h) = gw_live h"

lemma gw_live_return [simp]: "gw_live ((AddTenantReturnRoute rt, ok) # h) = gw_live h"
  "gw_live ((DelTenantReturnRoute rt, ok) # h) = gw_live h"
  by (cases ok; simp)+

lemma return_add_live: "gw_live (snd (snd (return_add seam want s))) = gw_live (snd (snd s))"
  by (induction want arbitrary: s) (auto simp: split_paired_all call_def Let_def)

lemma return_del_live: "gw_live (snd (snd (return_del seam want rts s))) = gw_live (snd (snd s))"
  by (induction rts arbitrary: s) (auto simp: split_paired_all call_def Let_def)

lemma reconcileReturnLocked_live: "gw_live (snd (reconcileReturnLocked seam uid want (m, h))) = gw_live h"
  using return_add_live [of seam want "(returns_of uid m, returnRefs m, h)"] return_del_live [of seam want]
  by (auto simp: reconcileReturnLocked_def split: prod.splits) (metis snd_conv)+

text \<open>A policy's state, and what a step of it keeps of the other policies'.\<close>

definition st_ok :: "string \<Rightarrow> gwState \<Rightarrow> GatewayManager \<Rightarrow> ghist \<Rightarrow> bool" where
  "st_ok uid st m h \<longleftrightarrow> (\<forall>ep. gw_policy st = Some ep \<longrightarrow> EP_UID ep = uid) \<and>
     (\<forall>r. gw_install st = Some r \<longrightarrow> GR_PolicyUID r = uid \<and> r \<in> gw_live h \<and> mget (byUID (vrfs m)) uid = Some (VrfTable r))"

fun is_sid_call :: "gw_call \<Rightarrow> bool" where
  "is_sid_call (AdvertiseSID sid) = True"
| "is_sid_call (WithdrawSID sid) = True"
| "is_sid_call _ = False"

definition core_inv :: "GatewayManager \<Rightarrow> ghist \<Rightarrow> bool" where
  "core_inv m h \<longleftrightarrow> ret_inv m h \<and> vrf_inv (vrfs m) \<and> list_all is_sid_call (pendingSID m)"

definition frames :: "string \<Rightarrow> GatewayManager \<times> ghist \<Rightarrow> GatewayManager \<times> ghist \<Rightarrow> bool" where
  "frames uid s s' \<longleftrightarrow> gw_config (fst s') = gw_config (fst s) \<and> gw_policies (fst s') = gw_policies (fst s) \<and>
     gw_synced (fst s') = gw_synced (fst s) \<and> suffix (snd s) (snd s') \<and>
     (\<forall>r. GR_PolicyUID r \<noteq> uid \<longrightarrow> r \<in> gw_live (snd s') \<longleftrightarrow> r \<in> gw_live (snd s)) \<and>
     (\<forall>u. u \<noteq> uid \<longrightarrow> returns_of u (fst s') = returns_of u (fst s) \<and>
                    mget (byUID (vrfs (fst s'))) u = mget (byUID (vrfs (fst s))) u)"

lemma frames_refl [simp]: "frames uid s s"
  by (simp add: frames_def)

lemma frames_trans: "frames uid s0 s1 \<Longrightarrow> frames uid s1 s2 \<Longrightarrow> frames uid s0 s2"
  by (auto simp: frames_def intro: suffix_order.trans)

lemma present_other:
  "(\<And>rt. c \<noteq> AddTenantReturnRoute rt) \<Longrightarrow> (\<And>rt. c \<noteq> DelTenantReturnRoute rt) \<Longrightarrow> present ((c, ok) # h) = present h"
  by (cases c) auto

lemma st_ok_frames: "st_ok u st m h \<Longrightarrow> frames uid (m, h) (m', h') \<Longrightarrow> u \<noteq> uid \<Longrightarrow> st_ok u st m' h'"
  by (auto simp: st_ok_def frames_def)

lemma reconcileReturnLocked_frames:
  assumes "reconcileReturnLocked seam uid want (m, h) = (m', h')" "core_inv m h"
  shows "core_inv m' h' \<and> frames uid (m, h) (m', h') \<and> vrfs m' = vrfs m \<and> pendingSID m' = pendingSID m \<and>
    legacySwept m' = legacySwept m \<and> (ok_since h h' \<longrightarrow> set (mkeys (returns_of uid m')) = set want) \<and> gw_live h' = gw_live h"
proof -
  obtain rr refs where f: "m' = m\<lparr>returnRefs := refs, returnRoutes := rr\<rparr>"
    using reconcileReturnLocked_frame [of seam uid want m h] assms(1) by auto
  show ?thesis
    using reconcileReturnLocked_result [OF assms(1)] reconcileReturnLocked_live [of seam uid want m h] assms
    by (simp add: f core_inv_def frames_def gw_config_def)
qed

lemma core_inv_vrfs: "core_inv m h \<Longrightarrow> vrf_inv a \<Longrightarrow> core_inv (m\<lparr>vrfs := a\<rparr>) h"
  by (simp add: core_inv_def ret_inv_def)

lemma teardownLocked_result:
  assumes "teardownLocked seam uid prune (st, m, h) = (st', m', h')" "core_inv m h" "st_ok uid st m h"
  shows "core_inv m' h' \<and> frames uid (m, h) (m', h') \<and> st' = st\<lparr>gw_install := None\<rparr> \<and>
    mget (byUID (vrfs m')) uid = None \<and>
    (\<not> prune \<longrightarrow> returns_of uid m' = returns_of uid m) \<and> (prune \<longrightarrow> ok_since h h' \<longrightarrow> returns_of uid m' = [])"
proof -
  obtain m1 h1 where r: "(if prune then reconcileReturnLocked seam uid [] (m, h) else (m, h)) = (m1, h1)" by fastforce
  have k: "core_inv m1 h1 \<and> frames uid (m, h) (m1, h1) \<and> (\<not> prune \<longrightarrow> returns_of uid m1 = returns_of uid m) \<and>
      (prune \<longrightarrow> ok_since h h1 \<longrightarrow> returns_of uid m1 = [])"
    using r reconcileReturnLocked_frames [of seam uid "[]" m h m1 h1] assms(2) mkeys_empty by (cases prune) auto
  note v = vrf_free_result [of "vrfs m1" _]
  have vi: "vrf_inv (vrfs m1)" using k by (simp add: core_inv_def)
  show ?thesis
  proof (cases "gw_install st")
    case None
    then have "st' = st" "m' = m1\<lparr>vrfs := vrf_free uid (vrfs m1)\<rparr>" "h' = h1"
      using assms(1) r by (simp_all add: teardownLocked_def)
    moreover have "st = st\<lparr>gw_install := None\<rparr>" using None by (cases st) simp
    ultimately show ?thesis
      using k v [OF vi] by (auto simp: core_inv_vrfs frames_def gw_config_def returns_of_def)
  next
    case (Some req)
    define m2 where "m2 = (if has_sids m1 \<and> TenantSID req \<noteq> [] then pend (WithdrawSID (TenantSID req)) m1 else m1)"
    have m2: "core_inv m2 h1" "vrfs m2 = vrfs m1" "returns_of u m2 = returns_of u m1" "gw_config m2 = gw_config m1"
      "gw_policies m2 = gw_policies m1" "gw_synced m2 = gw_synced m1" for u
      using k by (auto simp: m2_def pend_def returns_of_def gw_config_def core_inv_def ret_inv_def)
    have e: "st' = st\<lparr>gw_install := None\<rparr>" "m' = m2\<lparr>vrfs := vrf_free uid (vrfs m2)\<rparr>" "h' = (RemoveGateway req, seam h1 (RemoveGateway req)) # h1"
      using assms(1) r Some by (auto simp: teardownLocked_def m2_def call_def Let_def)
    have "core_inv m2 h'" using m2(1) e(3) by (simp add: core_inv_def ret_inv_def present_other)
    then have "core_inv m' h'" using e(2) v(1) [OF vi] m2(2) by (simp add: core_inv_vrfs)
    moreover have "GR_PolicyUID req = uid" using assms(3) Some by (simp add: st_ok_def)
    then have "frames uid (m1, h1) (m', h')"
      using e(2,3) m2 v [OF vi] by (cases "seam h1 (RemoveGateway req)") (auto simp: frames_def gw_config_def returns_of_def suffix_def)
    moreover have "suffix h h1" "suffix h1 h'" using k e(3) by (simp_all add: frames_def suffix_def)
    moreover have "returns_of uid m' = returns_of uid m1" using e(2) m2(3) by (simp add: returns_of_def)
    ultimately show ?thesis
      using k e v(2) [OF vi] m2(2) frames_trans [of uid "(m, h)" "(m1, h1)" "(m', h')"] ok_since_split(1) [of h h1 h'] by auto
  qed
qed

lemma frames_vrfs:
  "vrf_alloc uid (vrfs m) = Some (t, a) \<Longrightarrow> core_inv m h \<Longrightarrow>
    core_inv (m\<lparr>vrfs := a\<rparr>) h \<and> frames uid (m, h) (m\<lparr>vrfs := a\<rparr>, h) \<and> mget (byUID a) uid = Some t \<and>
    returns_of uid (m\<lparr>vrfs := a\<rparr>) = returns_of uid m"
  using vrf_alloc_result [of uid "vrfs m" t a]
  by (auto simp: core_inv_def ret_inv_def frames_def gw_config_def returns_of_def)

lemma install_gateway_result:
  assumes "install_gateway seam req (st, m, h) = (st', m', h')" "core_inv m h" "gw_install st = None"
    "GR_PolicyUID req = uid" "\<forall>ep. gw_policy st = Some ep \<longrightarrow> EP_UID ep = uid" "mget (byUID (vrfs m)) uid = Some (VrfTable req)"
  shows "core_inv m' h' \<and> frames uid (m, h) (m', h') \<and> st_ok uid st' m' h' \<and> gw_policy st' = gw_policy st \<and>
    returns_of uid m' = returns_of uid m \<and> vrfs m' = vrfs m \<and> (ok_since h h' \<longrightarrow> gw_install st' = Some req)"
proof -
  define ok where "ok = seam h (InstallGateway req)"
  have h': "h' = (InstallGateway req, ok) # h" using assms(1)
    by (auto simp: install_gateway_def call_def Let_def ok_def split: if_splits)
  show ?thesis
  proof (cases ok)
    case False
    then have e: "st' = st" "m' = m" using assms(1) by (auto simp: install_gateway_def call_def Let_def ok_def)
    have "\<not> ok_since h h'" using False h' ok_since_Cons [of h' h' "InstallGateway req" ok h] by auto
    then show ?thesis
      using e h' False assms(2-6) by (auto simp: core_inv_def ret_inv_def present_other frames_def st_ok_def suffix_def)
  next
    case True
    have e: "st' = st\<lparr>gw_install := Some req\<rparr>" "m' = (if has_sids m then pend (AdvertiseSID (TenantSID req)) m else m)"
      using assms(1) True by (auto simp: install_gateway_def call_def Let_def ok_def)
    have m': "core_inv m' h" "vrfs m' = vrfs m" "returns_of u m' = returns_of u m" "gw_config m' = gw_config m"
      "gw_policies m' = gw_policies m" "gw_synced m' = gw_synced m" for u
      using assms(2) by (auto simp: e(2) pend_def returns_of_def gw_config_def core_inv_def ret_inv_def)
    show ?thesis
      using m' h' True assms(4-6) by (auto simp: e(1) core_inv_def ret_inv_def present_other frames_def st_ok_def suffix_def)
  qed
qed

lemma gw_desired_uid: "gw_desired m p = Some req \<Longrightarrow> \<exists>ep. p = Some ep \<and> GR_PolicyUID req = EP_UID ep"
  by (auto simp: gw_desired_def Let_def split: Option.bind_splits if_splits)

lemma gw_provision_result:
  assumes "gw_provision seam uid req (st, m, h) = Some (st', m', h')" "core_inv m h" "st_ok uid st m h" "GR_PolicyUID req = uid"
  shows "core_inv m' h' \<and> frames uid (m, h) (m', h') \<and> st_ok uid st' m' h' \<and> gw_policy st' = gw_policy st \<and>
    returns_of uid m' = returns_of uid m \<and> (ok_since h h' \<longrightarrow> gw_install st' \<noteq> None)"
proof -
  obtain t a where al: "vrf_alloc uid (vrfs m) = Some (t, a)"
    using assms(1) by (auto simp: gw_provision_def split: Option.bind_splits)
  let ?m1 = "m\<lparr>vrfs := a\<rparr>" and ?req = "req\<lparr>VrfTable := t\<rparr>"
  note f1 = frames_vrfs [OF al assms(2)]
  have p: "\<forall>ep. gw_policy st = Some ep \<longrightarrow> EP_UID ep = uid" using assms(3) by (simp add: st_ok_def)
  show ?thesis
  proof (cases "gw_install st")
    case None
    then have i: "install_gateway seam ?req (st, ?m1, h) = (st', m', h')" using assms(1) al by (simp add: gw_provision_def)
    show ?thesis
      using install_gateway_result [OF i _ None _ p] f1 assms(4) frames_trans [of uid "(m, h)" "(?m1, h)" "(m', h')"] by simp
  next
    case (Some old)
    have ok1: "st_ok uid st ?m1 h"
      using assms(3) al f1 Some by (auto simp: st_ok_def vrf_alloc_def)
    show ?thesis
    proof (cases "gr_key old = gr_key ?req")
      case True
      then have "st' = st" "m' = ?m1" "h' = h" using assms(1) al Some by (auto simp: gw_provision_def)
      then show ?thesis using f1 ok1 Some by simp
    next
      case False
      obtain st2 m2 h2 where td: "teardownLocked seam uid False (st, ?m1, h) = (st2, m2, h2)" by (metis prod_cases3)
      have r2: "core_inv m2 h2 \<and> frames uid (?m1, h) (m2, h2) \<and> st2 = st\<lparr>gw_install := None\<rparr> \<and>
          returns_of uid m2 = returns_of uid m"
        using teardownLocked_result [OF td _ ok1] f1 by simp
      obtain t2 a2 where al2: "vrf_alloc uid (vrfs m2) = Some (t2, a2)"
          and i: "install_gateway seam (?req\<lparr>VrfTable := t2\<rparr>) (st2, m2\<lparr>vrfs := a2\<rparr>, h2) = (st', m', h')"
        using assms(1) al Some False td by (auto simp: gw_provision_def split: Option.bind_splits)
      note f2 = frames_vrfs [OF al2, of h2]
      have r3: "core_inv m' h' \<and> frames uid (m2\<lparr>vrfs := a2\<rparr>, h2) (m', h') \<and> st_ok uid st' m' h' \<and>
          gw_policy st' = gw_policy st2 \<and> returns_of uid m' = returns_of uid (m2\<lparr>vrfs := a2\<rparr>) \<and>
          (ok_since h2 h' \<longrightarrow> gw_install st' = Some (?req\<lparr>VrfTable := t2\<rparr>))"
        using install_gateway_result [OF i, of uid] f2 r2 assms(4) p by simp
      have "frames uid (m, h) (m', h')" using f1 r2 f2 r3 by (blast intro: frames_trans)
      moreover have "suffix h h2" "suffix h2 h'" using r2 r3 by (simp_all add: frames_def)
      ultimately show ?thesis using r2 r3 f2 ok_since_split(2) [of h h2 h'] by auto
    qed
  qed
qed

lemma gw_reconcileLocked_result:
  assumes "gw_reconcileLocked seam uid (st, m, h) = Some (st', m', h')" "core_inv m h" "st_ok uid st m h"
  shows "core_inv m' h' \<and> frames uid (m, h) (m', h') \<and> st_ok uid st' m' h' \<and> gw_policy st' = gw_policy st \<and>
    (ok_since h h' \<longrightarrow> set (mkeys (returns_of uid m')) = want_returns m (gw_policy st) \<and>
                     (gw_install st' \<noteq> None \<longleftrightarrow> gw_desired m (gw_policy st) \<noteq> None))"
proof (cases "gw_desired m (gw_policy st)")
  case None
  show ?thesis
  proof (cases "gw_install st \<noteq> None \<or> returns_of uid m \<noteq> []")
    case True
    then have td: "teardownLocked seam uid True (st, m, h) = (st', m', h')" using assms(1) None by (simp add: gw_reconcileLocked_def)
    show ?thesis using teardownLocked_result [OF td assms(2,3)] assms(3) None by (auto simp: st_ok_def want_returns_def)
  next
    case False
    then show ?thesis using assms None by (simp add: gw_reconcileLocked_def want_returns_def)
  qed
next
  case (Some req)
  obtain st1 m1 h1 where g: "gw_provision seam uid req (st, m, h) = Some (st1, m1, h1)"
      and st': "st' = st1" and r: "reconcileReturnLocked seam uid (desiredReturnRoutes m1 (gw_policy st1)) (m1, h1) = (m', h')"
    using assms(1) Some by (auto simp: gw_reconcileLocked_def split: Option.bind_splits prod.splits)
  have "GR_PolicyUID req = uid" using gw_desired_uid [OF Some] assms(3) by (auto simp: st_ok_def)
  note k1 = gw_provision_result [OF g assms(2,3) this]
  have k2: "core_inv m' h' \<and> frames uid (m1, h1) (m', h') \<and> vrfs m' = vrfs m1 \<and>
      (ok_since h1 h' \<longrightarrow> set (mkeys (returns_of uid m')) = set (desiredReturnRoutes m1 (gw_policy st1))) \<and> gw_live h' = gw_live h1"
    using reconcileReturnLocked_frames [OF r] k1 by simp
  have s: "suffix h h1" "suffix h1 h'" using k1 k2 by (simp_all add: frames_def)
  have c: "gw_config m1 = gw_config m" using k1 by (simp add: frames_def)
  have "st_ok uid st' m' h'" using k1 k2 st' by (simp add: st_ok_def)
  then show ?thesis
    using k1 k2 st' Some ok_since_split [OF s] frames_trans [of uid "(m, h)" "(m1, h1)" "(m', h')"]
      desiredReturnRoutes_config [OF c, of "gw_policy st"]
    by (auto simp: want_returns_def)
qed

definition gw_inv :: "GatewayManager \<times> ghist \<Rightarrow> bool" where
  "gw_inv s \<longleftrightarrow> core_inv (fst s) (snd s) \<and> wf_map (gw_policies (fst s)) \<and>
     (\<forall>uid st. mget (gw_policies (fst s)) uid = Some st \<longrightarrow> st_ok uid st (fst s) (snd s)) \<and>
     set (mkeys (byUID (vrfs (fst s)))) \<subseteq> set (mkeys (gw_policies (fst s)))"

lemma gw_inv_policies:
  assumes "gw_inv (m, h)" "core_inv m' h'" "frames uid (m, h) (m', h')"
  shows "st_ok uid st m' h' \<Longrightarrow> gw_inv (m'\<lparr>gw_policies := mput uid st (gw_policies m')\<rparr>, h')"
    and "mget (byUID (vrfs m')) uid = None \<Longrightarrow> gw_inv (m'\<lparr>gw_policies := mdel uid (gw_policies m')\<rparr>, h')"
proof -
  have g: "gw_policies m' = gw_policies m" using assms(3) by (simp add: frames_def)
  have keys: "u \<in> set (mkeys (gw_policies m))" if "u \<in> set (mkeys (byUID (vrfs m')))" "u \<noteq> uid" for u
  proof -
    have "mget (byUID (vrfs m)) u = mget (byUID (vrfs m')) u" using that(2) assms(3) by (simp add: frames_def)
    then have "u \<in> set (mkeys (byUID (vrfs m)))" using that(1) by (metis mget_None_iff)
    then show ?thesis using assms(1) by (auto simp: gw_inv_def)
  qed
  have others: "st_ok u s m' h'" if "mget (gw_policies m) u = Some s" "u \<noteq> uid" for u s
    using that assms(1) st_ok_frames [OF _ assms(3)] by (simp add: gw_inv_def)
  have upd: "core_inv (m'\<lparr>gw_policies := ps\<rparr>) h'" "st_ok u s (m'\<lparr>gw_policies := ps\<rparr>) h' = st_ok u s m' h'" for ps u s
    using assms(2) by (simp_all add: core_inv_def ret_inv_def st_ok_def)
  have wf: "wf_map (gw_policies m)" using assms(1) by (simp add: gw_inv_def)
  have sub: "set (mkeys (byUID (vrfs m'))) \<subseteq> insert uid (set (mkeys (gw_policies m)))" using keys by blast
  show "gw_inv (m'\<lparr>gw_policies := mput uid st (gw_policies m')\<rparr>, h')" if "st_ok uid st m' h'"
    using that upd g others sub wf by (simp add: gw_inv_def)
  show "gw_inv (m'\<lparr>gw_policies := mdel uid (gw_policies m')\<rparr>, h')" if "mget (byUID (vrfs m')) uid = None"
    using that upd g others sub wf by (auto simp: gw_inv_def mget_None_iff)
qed

lemma gw_inv_core: "gw_inv (m, h) \<Longrightarrow> core_inv m h"
  by (simp add: gw_inv_def)

lemma gw_inv_st: "gw_inv (m, h) \<Longrightarrow> mget (gw_policies m) uid = Some st \<Longrightarrow> st_ok uid st m h"
  by (simp add: gw_inv_def)

text \<open>The announcements touch neither routes nor gateway entries.\<close>

lemma sid_calls_frame:
  "list_all is_sid_call cs \<Longrightarrow> present (fold (\<lambda>c h. snd (call seam c h)) cs h) = present h \<and>
    gw_live (fold (\<lambda>c h. snd (call seam c h)) cs h) = gw_live h \<and> suffix h (fold (\<lambda>c h. snd (call seam c h)) cs h)"
proof (induction cs arbitrary: h)
  case (Cons c cs)
  have "present ((c, ok) # h) = present h \<and> gw_live ((c, ok) # h) = gw_live h" for ok
    using Cons.prems by (cases c) auto
  then show ?case
    using Cons.IH [of "snd (call seam c h)"] Cons.prems by (auto simp: call_def Let_def dest: suffix_ConsD)
qed simp

lemma flushPendingSID_result:
  assumes "flushPendingSID seam (m, h) = (m', h')" "gw_inv (m, h)"
  shows "gw_inv (m', h') \<and> m' = m\<lparr>pendingSID := []\<rparr> \<and> suffix h h' \<and> present h' = present h \<and> gw_live h' = gw_live h"
proof -
  have e: "m' = m\<lparr>pendingSID := []\<rparr>" "h' = fold (\<lambda>c h. snd (call seam c h)) (pendingSID m) h"
    using assms(1) by (auto simp: flushPendingSID_def)
  have "list_all is_sid_call (pendingSID m)" using assms(2) by (simp add: gw_inv_def core_inv_def)
  note k = sid_calls_frame [OF this, of seam h, folded e(2)]
  have "gw_inv (m', h')" using assms(2) k by (simp add: e(1) gw_inv_def core_inv_def ret_inv_def st_ok_def)
  then show ?thesis using e(1) k by simp
qed

lemma flushPendingSID_inv: "gw_inv s \<Longrightarrow> gw_inv (flushPendingSID seam s)"
  using flushPendingSID_result by (metis surj_pair)

lemma gw_drop_result:
  assumes "gw_drop seam uid st (m, h) = (m', h')" "gw_inv (m, h)" "mget (gw_policies m) uid = Some st"
  shows "gw_inv (m', h') \<and> gw_policies m' = mdel uid (gw_policies m) \<and> gw_config m' = gw_config m"
proof -
  obtain st1 m1 h1 where td: "teardownLocked seam uid True (st, m, h) = (st1, m1, h1)" by (metis prod_cases3)
  have e: "m' = m1\<lparr>gw_policies := mdel uid (gw_policies m1)\<rparr>" "h' = h1" using assms(1) td by (auto simp: gw_drop_def)
  note r = teardownLocked_result [OF td gw_inv_core [OF assms(2)] gw_inv_st [OF assms(2,3)]]
  have "gw_inv (m', h')" unfolding e using r by (intro gw_inv_policies(2) [OF assms(2)]) simp_all
  then show ?thesis using r e(1) by (simp add: frames_def gw_config_def)
qed

lemma gw_OnPolicyDelete_inv: "gw_inv (m, h) \<Longrightarrow> gw_inv (gw_OnPolicyDelete seam uid (m, h))"
  using gw_drop_result [of seam uid _ m h]
  by (auto simp: gw_OnPolicyDelete_def intro!: flushPendingSID_inv split: option.splits) (metis surj_pair)

lemma gw_OnPolicyUpdate_result:
  assumes "gw_OnPolicyUpdate seam ep (m, h) = Some (m', h')" "gw_inv (m, h)"
  shows "gw_inv (m', h')"
proof (cases "EP_UID ep = []")
  case True
  then show ?thesis using assms flushPendingSID_inv [OF assms(2), of seam] by (simp add: gw_OnPolicyUpdate_def)
next
  case False
  define st where "st = (case mget (gw_policies m) (EP_UID ep) of
    Some st \<Rightarrow> st | None \<Rightarrow> \<lparr>gw_policy = None, gw_install = None\<rparr>)\<lparr>gw_policy := Some ep\<rparr>"
  obtain st1 m1 h1 where r: "gw_reconcileLocked seam (EP_UID ep) (st, m, h) = Some (st1, m1, h1)"
      and e: "(m', h') = flushPendingSID seam (gw_put (EP_UID ep) (st1, m1, h1))"
    using assms(1) False by (auto simp: gw_OnPolicyUpdate_def Let_def st_def)
  have "st_ok (EP_UID ep) st m h"
    using gw_inv_st [OF assms(2), of "EP_UID ep"] by (cases "mget (gw_policies m) (EP_UID ep)") (auto simp: st_def st_ok_def)
  note k = gw_reconcileLocked_result [OF r gw_inv_core [OF assms(2)] this]
  have "gw_inv (gw_put (EP_UID ep) (st1, m1, h1))"
    unfolding gw_put_def prod.case using k by (intro gw_inv_policies(1) [OF assms(2)]) simp_all
  then show ?thesis using e flushPendingSID_inv by metis
qed

lemma gw_prune_loop_inv:
  assumes "gw_inv s" "wf_map es" "\<forall>(uid, st) \<in> set es. mget (gw_policies (fst s)) uid = Some st"
  shows "gw_inv (gw_prune_loop seam live es s)"
  using assms
proof (induction es arbitrary: s)
  case (Cons e es)
  obtain uid st where e: "e = (uid, st)" by fastforce
  obtain m h m' h' where s: "s = (m, h)" and d: "gw_drop seam uid st (m, h) = (m', h')" by fastforce
  have wf: "wf_map es" "\<forall>(u, s) \<in> set es. u \<noteq> uid" using Cons.prems(2) e by (force simp: wf_map_def mkeys_def)+
  have st: "mget (gw_policies m) uid = Some st" using Cons.prems(3) e s by simp
  define s1 where "s1 = (if uid \<in> live then s else (m', h'))"
  have "gw_inv s1" "\<forall>(u, st) \<in> set es. mget (gw_policies (fst s1)) u = Some st"
    using gw_drop_result [OF d _ st] Cons.prems(1,3) wf(2) s e by (auto simp: s1_def)
  then have "gw_inv (gw_prune_loop seam live es s1)" using Cons.IH wf(1) by blast
  moreover have "gw_prune_loop seam live (e # es) s = gw_prune_loop seam live es s1" using e s d by (simp add: s1_def)
  ultimately show ?case by simp
qed simp

lemma gw_PruneExcept_inv:
  assumes "gw_inv (m, h)"
  shows "gw_inv (gw_PruneExcept seam live (m, h))"
proof -
  obtain m' h' where p: "gw_prune_loop seam live (gw_policies m) (m, h) = (m', h')" by fastforce
  have wf: "wf_map (gw_policies m)" using assms by (simp add: gw_inv_def)
  have all: "\<forall>(uid, st) \<in> set (gw_policies m). mget (gw_policies (fst (m, h))) uid = Some st" using wf_map_in_iff [OF wf] by auto
  have "gw_inv (m', h')" using gw_prune_loop_inv [OF assms wf all, of seam live] p by simp
  then show ?thesis by (simp add: gw_PruneExcept_def p gw_inv_def core_inv_def ret_inv_def st_ok_def)
qed

lemma gw_reset_loop_inv:
  assumes "gw_inv s" "\<forall>(uid, st) \<in> set es. mget (gw_policies (fst s)) uid = Some st" "wf_map es"
  shows "gw_inv (gw_reset_loop seam es s) \<and> gw_config (fst (gw_reset_loop seam es s)) = gw_config (fst s) \<and>
    (\<forall>u. mget (byUID (vrfs (fst s))) u = None \<or> u \<in> set (mkeys es) \<longrightarrow> mget (byUID (vrfs (fst (gw_reset_loop seam es s)))) u = None)"
  using assms
proof (induction es arbitrary: s)
  case (Cons e es)
  obtain uid st where e: "e = (uid, st)" by fastforce
  obtain m h where s: "s = (m, h)" by fastforce
  obtain st1 m1 h1 where td: "teardownLocked seam uid True (st, m, h) = (st1, m1, h1)" by (metis prod_cases3)
  define s1 where "s1 = gw_put uid (st1, m1, h1)"
  have wf: "wf_map es" "\<forall>(u, s) \<in> set es. u \<noteq> uid" using Cons.prems(3) e by (force simp: wf_map_def mkeys_def)+
  have inv: "gw_inv (m, h)" using Cons.prems(1) s by simp
  have st: "mget (gw_policies m) uid = Some st" using Cons.prems(2) e s by simp
  note r = teardownLocked_result [OF td gw_inv_core [OF inv] gw_inv_st [OF inv st]]
  have ok: "st_ok uid st1 m1 h1" using r gw_inv_st [OF inv st] by (simp add: st_ok_def)
  have "gw_inv s1" unfolding s1_def gw_put_def prod.case using r ok by (intro gw_inv_policies(1) [OF inv]) simp_all
  moreover have "\<forall>(u, s) \<in> set es. mget (gw_policies (fst s1)) u = Some s"
    using Cons.prems(2) wf(2) r s by (auto simp: s1_def gw_put_def frames_def)
  ultimately have ih: "gw_inv (gw_reset_loop seam es s1) \<and> gw_config (fst (gw_reset_loop seam es s1)) = gw_config (fst s1) \<and>
      (\<forall>u. mget (byUID (vrfs (fst s1))) u = None \<or> u \<in> set (mkeys es) \<longrightarrow> mget (byUID (vrfs (fst (gw_reset_loop seam es s1)))) u = None)"
    using Cons.IH wf(1) by blast
  have "gw_config (fst s1) = gw_config m" "mget (byUID (vrfs (fst s1))) u = (if u = uid then None else mget (byUID (vrfs m)) u)" for u
    using r by (auto simp: s1_def gw_put_def frames_def gw_config_def)
  then show ?case using ih s e td by (auto simp flip: s1_def)
qed simp

lemma gw_Reset_inv:
  assumes "gw_inv (m, h)"
  shows "gw_inv (gw_Reset seam (m, h))"
proof -
  obtain m' h' where p: "gw_reset_loop seam (gw_policies m) (m, h) = (m', h')" by fastforce
  have wf: "wf_map (gw_policies m)" using assms by (simp add: gw_inv_def)
  have all: "\<forall>(uid, st) \<in> set (gw_policies m). mget (gw_policies (fst (m, h))) uid = Some st" using wf_map_in_iff [OF wf] by auto
  note r = gw_reset_loop_inv [OF assms all wf, of seam, unfolded p, simplified]
  have "mget (byUID (vrfs m')) u = None" for u
    using r assms by (cases "u \<in> set (mkeys (gw_policies m))") (auto simp: gw_inv_def mget_None_iff)
  then have "\<forall>u. u \<notin> set (mkeys (byUID (vrfs m')))" by (simp add: mget_None_iff)
  then have "mkeys (byUID (vrfs m')) = []" by (cases "mkeys (byUID (vrfs m'))") auto
  then show ?thesis using r by (simp add: gw_Reset_def p gw_inv_def core_inv_def ret_inv_def)
qed

text \<open>Reconciling every policy: what it keeps, and what it reaches when its calls succeed.\<close>

definition same_policies :: "GatewayManager \<Rightarrow> GatewayManager \<Rightarrow> bool" where
  "same_policies m m' \<longleftrightarrow> gw_config m' = gw_config m \<and> mkeys (gw_policies m') = mkeys (gw_policies m) \<and>
     (\<forall>u. map_option gw_policy (mget (gw_policies m') u) = map_option gw_policy (mget (gw_policies m) u))"

lemma same_policies_refl [simp]: "same_policies m m"
  by (simp add: same_policies_def)

lemma same_policies_trans: "same_policies m0 m1 \<Longrightarrow> same_policies m1 m2 \<Longrightarrow> same_policies m0 m2"
  by (simp add: same_policies_def)

definition gw_settled :: "string \<Rightarrow> GatewayManager \<Rightarrow> bool" where
  "gw_settled uid m \<longleftrightarrow> (\<forall>st. mget (gw_policies m) uid = Some st \<longrightarrow>
     set (mkeys (returns_of uid m)) = want_returns m (gw_policy st) \<and>
     (gw_install st \<noteq> None \<longleftrightarrow> gw_desired m (gw_policy st) \<noteq> None))"

lemma mkeys_mput_old: "k \<in> set (mkeys m) \<Longrightarrow> mkeys (mput k v m) = mkeys m"
  by (induction m) (auto simp: split_paired_all)

lemma gw_reconcile_step:
  assumes "gw_reconcileLocked seam uid (st, m, h) = Some r" "gw_put uid r = (m', h')" "gw_inv (m, h)"
    "mget (gw_policies m) uid = Some st"
  shows "gw_inv (m', h') \<and> same_policies m m' \<and> suffix h h' \<and> (ok_since h h' \<longrightarrow> gw_settled uid m') \<and>
    (\<forall>u. u \<noteq> uid \<longrightarrow> gw_settled u m' = gw_settled u m \<and> returns_of u m' = returns_of u m)"
proof -
  obtain st1 m1 h1 where r: "r = (st1, m1, h1)" by (metis prod_cases3)
  have e: "m' = m1\<lparr>gw_policies := mput uid st1 (gw_policies m1)\<rparr>" "h' = h1" using assms(2) r by (auto simp: gw_put_def)
  note k = gw_reconcileLocked_result [OF assms(1) [unfolded r] gw_inv_core [OF assms(3)] gw_inv_st [OF assms(3,4)]]
  have g: "gw_policies m1 = gw_policies m" "gw_config m' = gw_config m" using k e(1) by (simp_all add: frames_def gw_config_def)
  have ret: "returns_of u m' = returns_of u m1" for u using e(1) by (simp add: returns_of_def)
  have gp: "gw_policies m' = mput uid st1 (gw_policies m)" using e(1) g(1) by simp
  note c = want_returns_config [OF g(2)] gw_desired_config [OF g(2)]
  have "gw_inv (m', h')" unfolding e using k by (intro gw_inv_policies(1) [OF assms(3)]) simp_all
  moreover have "same_policies m m'"
    using g k assms(4) e(1) by (auto simp: same_policies_def mkeys_mput_old mget_in_keys)
  moreover have "gw_settled uid m'" if "ok_since h h'"
    using that k e(2) ret by (simp add: gw_settled_def c gp)
  moreover have "gw_settled u m' = gw_settled u m \<and> returns_of u m' = returns_of u m" if "u \<noteq> uid" for u
    using that k ret by (simp add: gw_settled_def c gp frames_def)
  ultimately show ?thesis using k e(2) by (simp add: frames_def)
qed

lemma gw_reconcile_each_result:
  assumes "gw_reconcile_each seam uids (m, h) = Some (m', h')" "gw_inv (m, h)"
  shows "gw_inv (m', h') \<and> same_policies m m' \<and> suffix h h' \<and>
    (ok_since h h' \<longrightarrow> (\<forall>u. u \<in> set uids \<or> gw_settled u m \<longrightarrow> gw_settled u m'))"
  using assms
proof (induction uids arbitrary: m h)
  case (Cons uid uids)
  show ?case
  proof (cases "mget (gw_policies m) uid")
    case None
    then have "gw_settled uid m" by (simp add: gw_settled_def)
    then show ?thesis using Cons None by auto
  next
    case (Some st)
    obtain r m1 h1 where r: "gw_reconcileLocked seam uid (st, m, h) = Some r" "gw_put uid r = (m1, h1)"
        and rest: "gw_reconcile_each seam uids (m1, h1) = Some (m', h')"
      using Cons.prems(1) Some by (auto split: Option.bind_splits) (metis surj_pair)
    note k = gw_reconcile_step [OF r Cons.prems(2) Some]
    have ih: "gw_inv (m', h') \<and> same_policies m1 m' \<and> suffix h1 h' \<and>
        (ok_since h1 h' \<longrightarrow> (\<forall>u. u \<in> set uids \<or> gw_settled u m1 \<longrightarrow> gw_settled u m'))"
      using Cons.IH [OF rest] k by blast
    have s: "suffix h h1" "suffix h1 h'" using k ih by simp_all
    have "gw_settled u m1" if "u = uid \<or> gw_settled u m" "ok_since h h1" for u using k that by (cases "u = uid") auto
    then show ?thesis
      using k ih suffix_order.trans [OF s] same_policies_trans [of m m1 m'] ok_since_split [OF s] by auto
  qed
qed simp

lemma gw_orphan_step:
  assumes "reconcileReturnLocked seam uid [] (m, h) = (m', h')" "gw_inv (m, h)" "\<not> mhas (gw_policies m) uid"
  shows "gw_inv (m', h') \<and> same_policies m m' \<and> suffix h h' \<and> (\<forall>u. gw_settled u m \<longrightarrow> gw_settled u m') \<and>
    (\<forall>u. u \<noteq> uid \<longrightarrow> returns_of u m' = returns_of u m) \<and> (ok_since h h' \<longrightarrow> returns_of uid m' = [])"
proof -
  note k = reconcileReturnLocked_frames [OF assms(1) gw_inv_core [OF assms(2)]]
  have f: "gw_policies m' = gw_policies m" "gw_config m' = gw_config m" using k by (simp_all add: frames_def)
  have "gw_inv (m', h')" using k assms(2) f by (auto simp: gw_inv_def st_ok_def)
  moreover have "gw_settled u m'" if "gw_settled u m" for u
    using that k f assms(3) by (auto simp: gw_settled_def mhas_iff want_returns_config [OF f(2)] gw_desired_config [OF f(2)] frames_def)
  ultimately show ?thesis using k f by (auto simp: frames_def same_policies_def mkeys_empty)
qed

lemma gw_retry_orphans_result:
  assumes "gw_retry_orphans seam uids (m, h) = (m', h')" "gw_inv (m, h)"
  shows "gw_inv (m', h') \<and> same_policies m m' \<and> suffix h h' \<and> (\<forall>u. gw_settled u m \<longrightarrow> gw_settled u m') \<and>
    (ok_since h h' \<longrightarrow> (\<forall>u. \<not> mhas (gw_policies m) u \<longrightarrow> u \<in> set uids \<or> returns_of u m = [] \<longrightarrow> returns_of u m' = []))"
  using assms
proof (induction uids arbitrary: m h)
  case (Cons uid uids)
  define s1 where "s1 = (if mhas (gw_policies m) uid then (m, h) else reconcileReturnLocked seam uid [] (m, h))"
  obtain m1 h1 where s1: "s1 = (m1, h1)" by fastforce
  have rest: "gw_retry_orphans seam uids (m1, h1) = (m', h')" using Cons.prems(1) s1 by (simp add: s1_def)
  have k: "gw_inv (m1, h1) \<and> same_policies m m1 \<and> suffix h h1 \<and> (\<forall>u. gw_settled u m \<longrightarrow> gw_settled u m1) \<and>
      (\<forall>u. u \<noteq> uid \<longrightarrow> returns_of u m1 = returns_of u m) \<and>
      (ok_since h h1 \<longrightarrow> mhas (gw_policies m) uid \<or> returns_of uid m1 = [])"
    using gw_orphan_step [of seam uid m h m1 h1] Cons.prems(2) s1 by (cases "mhas (gw_policies m) uid") (auto simp: s1_def)
  note ih = Cons.IH [OF rest]
  have s: "suffix h h1" "suffix h1 h'" using k ih by simp_all
  have "mhas (gw_policies m1) u = mhas (gw_policies m) u" for u using k by (simp add: same_policies_def mhas_iff)
  moreover have "returns_of u m1 = []"
    if "\<not> mhas (gw_policies m) u" "u = uid \<or> returns_of u m = []" "ok_since h h1" for u
    using k that by (cases "u = uid") auto
  ultimately show ?case
    using k ih suffix_order.trans [OF s] same_policies_trans [of m m1 m'] ok_since_split [OF s] by auto
qed simp

text \<open>The sweep removes only routes that no policy holds.\<close>

lemma sweep_tables_result:
  assumes "sweep_tables seam wanted tables (m, h) = (m', h')" "gw_inv (m, h)"
  shows "gw_inv (m', h') \<and> suffix h h' \<and> (\<exists>ls. m' = m\<lparr>legacySwept := ls\<rparr>)"
  using assms
proof (induction tables arbitrary: m h)
  case Nil
  then show ?case by (auto intro: exI [of _ "legacySwept m'"])
next
  case (Cons table tables)
  define rt where "rt = \<lparr>rt_prefix = returnCIDR m, rt_upstreamTable = table, rt_clusterTable = returnTable m\<rparr>"
  have inv: "gw_inv (m\<lparr>legacySwept := ls\<rparr>, h)" for ls
    using Cons.prems(2) by (simp add: gw_inv_def core_inv_def ret_inv_def st_ok_def)
  consider (wanted) "table \<in> set wanted" | (leave) "table \<notin> set wanted" "mhas (legacySwept m) table \<or> ref_count (returnRefs m) rt > 0"
    | (del) "table \<notin> set wanted" "\<not> mhas (legacySwept m) table" "\<not> ref_count (returnRefs m) rt > 0" by blast
  then show ?case
  proof cases
    case wanted
    then show ?thesis using Cons.IH [OF _ inv] Cons.prems(1) by (fastforce simp: rt_def Let_def)
  next
    case leave
    then have "sweep_tables seam wanted tables (m, h) = (m', h')"
      using Cons.prems(1) by (auto simp: rt_def Let_def split: if_splits)
    then show ?thesis by (rule Cons.IH) (rule Cons.prems(2))
  next
    case del
    obtain ok h1 where c: "call seam (DelTenantReturnRoute rt) h = (ok, h1)" by fastforce
    then have h1: "h1 = (DelTenantReturnRoute rt, ok) # h" by (auto simp: call_def Let_def)
    have "rt \<notin> present h" using Cons.prems(2) del(3) by (auto simp: gw_inv_def core_inv_def ret_inv_def)
    then have "present h1 = present h" by (cases ok) (auto simp: h1)
    then have i: "gw_inv (m\<lparr>legacySwept := ls\<rparr>, h1)" "gw_inv (m, h1)" for ls
      using Cons.prems(2) by (simp_all add: gw_inv_def core_inv_def ret_inv_def st_ok_def h1)
    have "sweep_tables seam wanted tables (if ok then m\<lparr>legacySwept := mput table () (legacySwept m)\<rparr> else m, h1) = (m', h')"
      using Cons.prems(1) del c by (simp add: rt_def Let_def)
    then have "gw_inv (m', h') \<and> suffix h1 h' \<and> (\<exists>ls. m' = m\<lparr>legacySwept := ls\<rparr>)"
      using Cons.IH [OF _ i(1)] Cons.IH [OF _ i(2)] by (cases ok) fastforce+
    then show ?thesis using suffix_ConsD [of _ h h'] h1 by auto
  qed
qed

lemma sweepLegacyAggregateLocked_result:
  assumes "sweepLegacyAggregateLocked seam (m, h) = (m', h')" "gw_inv (m, h)"
  shows "gw_inv (m', h') \<and> suffix h h' \<and> (\<exists>ls. m' = m\<lparr>legacySwept := ls\<rparr>)"
proof (cases "\<not> gw_synced m \<or> returnCIDR m = []")
  case True
  then show ?thesis using assms by (auto simp: sweepLegacyAggregateLocked_def intro: exI [of _ "legacySwept m'"])
next
  case False
  then show ?thesis using assms sweep_tables_result [of seam _ _ m h m' h'] by (simp add: sweepLegacyAggregateLocked_def)
qed

lemma gw_ReconcileAll_result:
  assumes "gw_ReconcileAll seam (m, h) = Some (m', h')" "gw_inv (m, h)"
  shows "gw_inv (m', h') \<and> suffix h h' \<and>
    (ok_since h h' \<longrightarrow> (\<forall>u. gw_settled u m' \<and> (mget (gw_policies m') u = None \<longrightarrow> returns_of u m' = [])))"
proof -
  obtain m1 h1 where r1: "gw_reconcile_each seam (mkeys (gw_policies m)) (m, h) = Some (m1, h1)"
    using assms(1) by (auto simp: gw_ReconcileAll_def split: Option.bind_splits)
  obtain m2 h2 m3 h3 where r2: "gw_retry_orphans seam (mkeys (returnRoutes m1)) (m1, h1) = (m2, h2)"
      and r3: "sweepLegacyAggregateLocked seam (m2, h2) = (m3, h3)" by (metis surj_pair)
  have r4: "flushPendingSID seam (m3, h3) = (m', h')" using assms(1) r1 r2 r3 by (simp add: gw_ReconcileAll_def)
  note k1 = gw_reconcile_each_result [OF r1 assms(2)]
  note k2 = gw_retry_orphans_result [OF r2 conjunct1 [OF k1]]
  note k3 = sweepLegacyAggregateLocked_result [OF r3 conjunct1 [OF k2]]
  note k4 = flushPendingSID_result [OF r4 conjunct1 [OF k3]]
  obtain ls where m': "m' = m2\<lparr>legacySwept := ls, pendingSID := []\<rparr>" using k3 k4 by auto
  have c: "gw_config m' = gw_config m2" and f: "gw_policies m' = gw_policies m2" "returnRoutes m' = returnRoutes m2"
    using m' by (simp_all add: gw_config_def)
  have s: "suffix h h1" "suffix h1 h2" "suffix h2 h'" using k1 k2 k3 k4 suffix_order.trans by blast+
  have absent: "mget (gw_policies m') u = None \<longleftrightarrow> \<not> mhas (gw_policies m1) u" for u
    using m' k2 by (simp add: same_policies_def mget_None_iff mhas_iff)
  have "gw_settled u m' \<and> (mget (gw_policies m') u = None \<longrightarrow> returns_of u m' = [])" if "ok_since h h'" for u
  proof -
    have ok: "ok_since h h1" "ok_since h1 h2"
      using that ok_since_split s suffix_order.trans by metis+
    have "gw_settled u m1"
    proof (cases "u \<in> set (mkeys (gw_policies m))")
      case True
      then show ?thesis using k1 ok(1) by blast
    next
      case False
      then have "mget (gw_policies m1) u = None" using k1 by (simp add: same_policies_def mget_None_iff)
      then show ?thesis by (simp add: gw_settled_def)
    qed
    then have "gw_settled u m2" using k2 by blast
    then have "gw_settled u m'"
      by (simp add: f gw_settled_def returns_of_def want_returns_config [OF c] gw_desired_config [OF c])
    moreover have "returns_of u m1 = []" if "u \<notin> set (mkeys (returnRoutes m1))"
      using that by (simp add: returns_of_def flip: mget_None_iff)
    then have "returns_of u m2 = []" if "\<not> mhas (gw_policies m1) u" using that k2 ok(2) by blast
    then have "mget (gw_policies m') u = None \<longrightarrow> returns_of u m' = []" using absent m' by (simp add: returns_of_def)
    ultimately show ?thesis by blast
  qed
  then show ?thesis using k4 s suffix_order.trans by blast
qed

section \<open>Every operation returns\<close>

lemma byUID_length:
  assumes "wf_map b" "set (mkeys b) \<subseteq> set (mkeys ps)"
  shows "length b \<le> length ps"
proof -
  have "length b = length (mkeys b)" by (simp add: mkeys_def)
  also have "\<dots> = card (set (mkeys b))" using assms(1) by (simp add: wf_map_def distinct_card)
  also have "\<dots> \<le> card (set (mkeys ps))" using assms(2) by (intro card_mono) simp_all
  also have "\<dots> \<le> length ps" using card_length [of "mkeys ps"] by (simp add: mkeys_def)
  finally show ?thesis .
qed

lemma gw_provision_returns:
  assumes "core_inv m h" "st_ok uid st m h" "length (byUID (vrfs m)) < 2 ^ 32"
  shows "\<exists>r. gw_provision seam uid req (st, m, h) = Some r"
proof -
  have vi: "vrf_inv (vrfs m)" using assms(1) by (simp add: core_inv_def)
  obtain t a where al: "vrf_alloc uid (vrfs m) = Some (t, a)" using vrf_alloc_returns [OF vi assms(3)] by blast
  let ?m1 = "m\<lparr>vrfs := a\<rparr>"
  note f1 = frames_vrfs [OF al assms(1)]
  show ?thesis
  proof (cases "\<exists>old. gw_install st = Some old \<and> gr_key old \<noteq> gr_key (req\<lparr>VrfTable := t\<rparr>)")
    case True
    then obtain old where old: "gw_install st = Some old" "gr_key old \<noteq> gr_key (req\<lparr>VrfTable := t\<rparr>)" by blast
    obtain st2 m2 h2 where td: "teardownLocked seam uid False (st, ?m1, h) = (st2, m2, h2)" by (metis prod_cases3)
    have "st_ok uid st ?m1 h" using assms(2) al f1 old by (auto simp: st_ok_def vrf_alloc_def)
    then have r: "core_inv m2 h2" "frames uid (?m1, h) (m2, h2)" "mget (byUID (vrfs m2)) uid = None"
      using teardownLocked_result [OF td conjunct1 [OF f1]] by simp_all
    have "set (mkeys (byUID (vrfs m2))) \<subseteq> set (mkeys (byUID (vrfs m)))"
    proof
      fix u assume "u \<in> set (mkeys (byUID (vrfs m2)))"
      moreover from this have "u \<noteq> uid" using r(3) by (auto simp: mget_None_iff)
      moreover from this have "mget (byUID (vrfs m2)) u = mget (byUID (vrfs m)) u" using r(2) f1 by (simp add: frames_def)
      ultimately show "u \<in> set (mkeys (byUID (vrfs m)))" by (metis mget_None_iff)
    qed
    then have "length (byUID (vrfs m2)) < 2 ^ 32"
      using byUID_length [of "byUID (vrfs m2)" "byUID (vrfs m)"] r(1) assms(3) by (simp add: core_inv_def vrf_inv_def)
    then obtain t2 a2 where "vrf_alloc uid (vrfs m2) = Some (t2, a2)"
      using vrf_alloc_returns r(1) by (metis core_inv_def)
    then show ?thesis using al old td by (simp add: gw_provision_def del: split_paired_Ex)
  next
    case False
    then show ?thesis using al by (cases "gw_install st") (auto simp: gw_provision_def simp del: split_paired_Ex)
  qed
qed

lemma gw_reconcileLocked_returns:
  assumes "core_inv m h" "st_ok uid st m h" "length (byUID (vrfs m)) < 2 ^ 32"
  shows "\<exists>r. gw_reconcileLocked seam uid (st, m, h) = Some r"
proof (cases "gw_desired m (gw_policy st)")
  case None
  then show ?thesis by (simp add: gw_reconcileLocked_def del: split_paired_Ex)
next
  case (Some req)
  obtain st1 m1 h1 where "gw_provision seam uid req (st, m, h) = Some (st1, m1, h1)"
    using gw_provision_returns [OF assms] by (metis prod_cases3)
  then show ?thesis using Some by (simp add: gw_reconcileLocked_def split: prod.splits)
qed

lemma gw_inv_room: "gw_inv (m, h) \<Longrightarrow> length (gw_policies m) < 2 ^ 32 \<Longrightarrow> length (byUID (vrfs m)) < 2 ^ 32"
  using byUID_length [of "byUID (vrfs m)" "gw_policies m"] by (simp add: gw_inv_def core_inv_def vrf_inv_def)

lemma gw_reconcile_each_returns:
  assumes "gw_inv (m, h)" "length (gw_policies m) < 2 ^ 32"
  shows "\<exists>r. gw_reconcile_each seam uids (m, h) = Some r"
  using assms
proof (induction uids arbitrary: m h)
  case (Cons uid uids)
  show ?case
  proof (cases "mget (gw_policies m) uid")
    case None
    then show ?thesis using Cons by simp
  next
    case (Some st)
    obtain r where r: "gw_reconcileLocked seam uid (st, m, h) = Some r"
      using gw_reconcileLocked_returns [OF gw_inv_core gw_inv_st gw_inv_room] Cons.prems Some by blast
    obtain m1 h1 where p: "gw_put uid r = (m1, h1)" by fastforce
    note k = gw_reconcile_step [OF r p Cons.prems(1) Some]
    have "length (gw_policies m1) = length (gw_policies m)"
      using k unfolding same_policies_def mkeys_def by (metis length_map)
    then show ?thesis using Cons.IH [of m1 h1] Cons.prems(2) k r p Some by simp
  qed
qed simp

lemma gw_OnPolicyUpdate_returns:
  assumes "gw_inv (m, h)" "length (gw_policies m) < 2 ^ 32"
  shows "gw_OnPolicyUpdate seam ep (m, h) \<noteq> None"
proof -
  define st where "st = (case mget (gw_policies m) (EP_UID ep) of
    Some st \<Rightarrow> st | None \<Rightarrow> \<lparr>gw_policy = None, gw_install = None\<rparr>)\<lparr>gw_policy := Some ep\<rparr>"
  have "st_ok (EP_UID ep) st m h"
    using gw_inv_st [OF assms(1), of "EP_UID ep"] by (cases "mget (gw_policies m) (EP_UID ep)") (auto simp: st_def st_ok_def)
  then obtain r where "gw_reconcileLocked seam (EP_UID ep) (st, m, h) = Some r"
    using gw_reconcileLocked_returns [OF gw_inv_core [OF assms(1)] _ gw_inv_room [OF assms]] by blast
  then show ?thesis by (simp add: gw_OnPolicyUpdate_def Let_def st_def)
qed

section \<open>Runs of the gateway\<close>

inductive governed :: "gseam \<Rightarrow> GatewayManager \<times> ghist \<Rightarrow> bool" for seam where
  start: "governed seam (SetUpstreamSIDModes modes (SetClusterReturn cidr vrf (SetSIDAdvertiser sids
      (NewGatewayManager node tables vrfBase))), [])"
| policy_update: "governed seam s \<Longrightarrow> gw_OnPolicyUpdate seam ep s = Some s' \<Longrightarrow> governed seam s'"
| policy_delete: "governed seam s \<Longrightarrow> governed seam (gw_OnPolicyDelete seam uid s)"
| reconcile: "governed seam s \<Longrightarrow> gw_ReconcileAll seam s = Some s' \<Longrightarrow> governed seam s'"
| prune: "governed seam s \<Longrightarrow> governed seam (gw_PruneExcept seam live s)"
| reset: "governed seam s \<Longrightarrow> governed seam (gw_Reset seam s)"

lemma governed_inv: "governed seam s \<Longrightarrow> gw_inv s"
proof (induction rule: governed.induct)
  case start
  show ?case
    by (simp add: gw_inv_def core_inv_def ret_inv_def vrf_inv_def SetUpstreamSIDModes_def SetClusterReturn_def
        SetSIDAdvertiser_def NewGatewayManager_def newVRFAllocator_def holders_def ref_count_def)
next
  case (policy_update s ep s')
  then show ?case using gw_OnPolicyUpdate_result by (metis surj_pair)
next
  case (reconcile s s')
  then show ?case using gw_ReconcileAll_result by (metis surj_pair)
qed (auto simp: split_paired_all gw_OnPolicyDelete_inv gw_PruneExcept_inv gw_Reset_inv)

lemma holders_card:
  "wf_map rr \<Longrightarrow> holders rr rt = card {uid. mhas (case mget rr uid of None \<Rightarrow> [] | Some cur \<Rightarrow> cur) rt}"
proof (induction rr)
  case (Cons p rr)
  obtain u cur where p: "p = (u, cur)" by fastforce
  let ?S = "\<lambda>rr. {uid. mhas (case mget rr uid of None \<Rightarrow> [] | Some cur \<Rightarrow> cur) rt}"
  have wf: "wf_map rr" "mget rr u = None" using Cons.prems p by (auto simp: wf_map_def mget_None_iff)
  have "?S (p # rr) = (if mhas cur rt then insert u (?S rr) else ?S rr)" using p wf(2) by auto
  moreover have "finite (?S rr)" by (rule finite_subset [of _ "set (mkeys rr)"]) (auto split: option.splits)
  moreover have "u \<notin> ?S rr" using wf(2) by simp
  ultimately show ?case using Cons.IH [OF wf(1)] p by (simp add: holders_def)
qed (simp add: holders_def)

lemma ret_inv_present: "ret_inv m h \<Longrightarrow> rt \<in> present h \<longleftrightarrow> (\<exists>uid. rt \<in> set (mkeys (returns_of uid m)))"
proof -
  assume inv: "ret_inv m h"
  let ?S = "{uid. mhas (returns_of uid m) rt}"
  have "finite ?S" by (rule finite_subset [of _ "set (mkeys (returnRoutes m))"]) (auto simp: returns_of_def split: option.splits)
  moreover have "holders (returnRoutes m) rt = card ?S" using inv holders_card by (simp add: ret_inv_def returns_of_def)
  ultimately show ?thesis using inv by (auto simp: ret_inv_def card_gt_0_iff mhas_iff)
qed

lemma distinct_vals_inj:
  "distinct (mvals m) \<Longrightarrow> mget m a = Some v \<Longrightarrow> mget m b = Some v \<Longrightarrow> a = b"
  by (induction m) (auto simp: split_paired_all mget_in_vals split: if_splits)

section \<open>Properties of the gateway\<close>

text \<open>C19: In every run of the gateway, whatever calls fail, a tenant's return route is in the dataplane
  exactly while some policy holds it, and its counter is the number of the policies that do.\<close>

theorem gateway_returns_counted:
  assumes "governed seam (m, h)"
  shows "(rt \<in> present h \<longleftrightarrow> (\<exists>uid. rt \<in> set (mkeys (returns_of uid m)))) \<and>
    ref_count (returnRefs m) rt = int (card {uid. rt \<in> set (mkeys (returns_of uid m))})"
proof -
  have inv: "ret_inv m h" using governed_inv [OF assms] by (simp add: gw_inv_def core_inv_def)
  then show ?thesis
    using ret_inv_present [OF inv, of rt] holders_card [of "returnRoutes m" rt] by (simp add: ret_inv_def returns_of_def mhas_iff)
qed



text \<open>Updates and periodic reconciliations return: with fewer policies than tables, the search for a free
  table ends.\<close>

theorem gateway_returns:
  assumes "governed seam (m, h)" "length (gw_policies m) < 2 ^ 32"
  shows "gw_OnPolicyUpdate seam ep (m, h) \<noteq> None \<and> gw_ReconcileAll seam (m, h) \<noteq> None"
proof -
  have inv: "gw_inv (m, h)" by (rule governed_inv [OF assms(1)])
  obtain r where "gw_reconcile_each seam (mkeys (gw_policies m)) (m, h) = Some r"
    using gw_reconcile_each_returns [OF inv assms(2)] by blast
  then show ?thesis using gw_OnPolicyUpdate_returns [OF inv assms(2)] by (simp add: gw_ReconcileAll_def Let_def)
qed

definition gseam_ok :: gseam where
  "gseam_ok h c = True"

definition gw_ex :: "string \<Rightarrow> EgressPolicy" where
  "gw_ex uid = egress_ex\<lparr>EP_UID := uid, ActiveEndpoint := ''n'', EP_Upstream := ''up'', ReturnPrefixes := [''p''],
     EP_SRPolicy := Some \<lparr>SRP_BSID = [], SRP_Color = 1, SegmentList = [''f::''], CandidatePaths = [], EndpointAddr = []\<rparr>\<rparr>"

definition gw_start :: GatewayManager where
  "gw_start = SetUpstreamSIDModes [] (SetClusterReturn [] 0 (SetSIDAdvertiser True (NewGatewayManager ''n'' [(''up'', 10), (''dn'', 20)] 100)))"

definition gw_req :: "string \<Rightarrow> u32 \<Rightarrow> GatewayRequest" where
  "gw_req uid t = \<lparr>GR_PolicyUID = uid, TenantSID = 0 # 15 # replicate 14 0, VrfTable = t, UpstreamTable = 10, ReturnCIDR = [],
     ReturnTable = 0, USID = False, LocatorBlockLen = 0, LocatorNodeLen = 0, FunctionLen = 0, GR_Upstream = ''up''\<rparr>"

definition gw_rt :: tenantReturnRoute where
  "gw_rt = \<lparr>rt_prefix = ''p'', rt_upstreamTable = 10, rt_clusterTable = 0\<rparr>"

definition gw_one :: "GatewayManager \<times> ghist" where
  "gw_one = (gw_start\<lparr>gw_policies := [(''u'', \<lparr>gw_policy = Some (gw_ex ''u''), gw_install = Some (gw_req ''u'' 100)\<rparr>)],
     vrfs := \<lparr>vrf_base = 100, byUID = [(''u'', 100)], vrf_inUse = [(100, ())]\<rparr>,
     returnRoutes := [(''u'', [(gw_rt, ())])], returnRefs := [(gw_rt, 1)]\<rparr>,
     [(AdvertiseSID (0 # 15 # replicate 14 0), True), (AddTenantReturnRoute gw_rt, True), (InstallGateway (gw_req ''u'' 100), True)])"

definition gw_two :: "GatewayManager \<times> ghist" where
  "gw_two = ((fst gw_one)\<lparr>gw_policies := gw_policies (fst gw_one) @
       [(''v'', \<lparr>gw_policy = Some (gw_ex ''v''), gw_install = Some (gw_req ''v'' 101)\<rparr>)],
     vrfs := \<lparr>vrf_base = 100, byUID = [(''u'', 100), (''v'', 101)], vrf_inUse = [(100, ()), (101, ())]\<rparr>,
     returnRoutes := [(''u'', [(gw_rt, ())]), (''v'', [(gw_rt, ())])], returnRefs := [(gw_rt, 2)]\<rparr>,
     (AdvertiseSID (0 # 15 # replicate 14 0), True) # (InstallGateway (gw_req ''v'' 101), True) # snd gw_one)"

lemma gw_sid: "parseV6 ''f::'' = Some (0 # 15 # replicate 14 0)"
  by (simp add: parseV6_def isV6_def net_eval Let_def upt_rec)

lemma gw_ex_wanted:
  assumes "gw_config m = gw_config gw_start"
  shows "gw_desired m (Some (gw_ex uid)) = Some (gw_req uid 0)" "desiredReturnRoutes m (Some (gw_ex uid)) = [gw_rt]"
proof -
  have f: "gw_nodeName m = ''n''" "mget (upstreamTables m) ''up'' = Some 10" "returnCIDR m = []" "returnTable m = 0" "sidModes m = []"
    using gw_config_fields [OF assms]
    by (simp_all add: gw_start_def SetUpstreamSIDModes_def SetClusterReturn_def SetSIDAdvertiser_def NewGatewayManager_def)
  show "gw_desired m (Some (gw_ex uid)) = Some (gw_req uid 0)"
    by (simp add: gw_desired_def gw_ex_def isReady_def egress_ex_def f gw_sid Let_def gw_req_def)
  show "desiredReturnRoutes m (Some (gw_ex uid)) = [gw_rt]"
    by (simp add: desiredReturnRoutes_def gw_ex_def f Let_def gw_rt_def)
qed

lemma vrf_scan_step: "mhas used t \<Longrightarrow> vrf_scan used t = vrf_scan used (t + 1)" "\<not> mhas used t \<Longrightarrow> vrf_scan used t = Some t"
  by (subst vrf_scan.simps, simp)+

lemma gw_one_step: "gw_OnPolicyUpdate gseam_ok (gw_ex ''u'') (gw_start, []) = Some gw_one"
proof -
  have f: "gw_policies gw_start = []" "vrfs gw_start = newVRFAllocator 100" "has_sids gw_start" "pendingSID gw_start = []"
    "returnRoutes gw_start = []" "returnRefs gw_start = []"
    by (simp_all add: gw_start_def SetUpstreamSIDModes_def SetClusterReturn_def SetSIDAdvertiser_def NewGatewayManager_def)
  have u: "EP_UID (gw_ex ''u'') = ''u''" by (simp add: gw_ex_def)
  have a: "vrf_alloc ''u'' (newVRFAllocator 100) = Some (100, \<lparr>vrf_base = 100, byUID = [(''u'', 100)], vrf_inUse = [(100, ())]\<rparr>)"
    by (simp add: vrf_alloc_def newVRFAllocator_def vrf_scan_step)
  show ?thesis
    by (simp add: gw_OnPolicyUpdate_def u f gw_reconcileLocked_def gw_ex_wanted gw_config_def gw_provision_def a install_gateway_def
        call_def gseam_ok_def pend_def reconcileReturnLocked_def returns_of_def ref_count_def mhas_iff
        flushPendingSID_def gw_put_def gw_one_def Let_def gw_req_def)
qed

lemma gw_one_fields:
  "gw_policies (fst gw_one) = [(''u'', \<lparr>gw_policy = Some (gw_ex ''u''), gw_install = Some (gw_req ''u'' 100)\<rparr>)]"
  "vrfs (fst gw_one) = \<lparr>vrf_base = 100, byUID = [(''u'', 100)], vrf_inUse = [(100, ())]\<rparr>" "has_sids (fst gw_one)"
  "pendingSID (fst gw_one) = []" "returnRoutes (fst gw_one) = [(''u'', [(gw_rt, ())])]" "returnRefs (fst gw_one) = [(gw_rt, 1)]"
  "gw_config (fst gw_one) = gw_config gw_start" "gw_synced (fst gw_one) = False"
  by (simp_all add: gw_one_def gw_config_def gw_start_def SetUpstreamSIDModes_def SetClusterReturn_def SetSIDAdvertiser_def
      NewGatewayManager_def)

lemma gw_two_step: "gw_OnPolicyUpdate gseam_ok (gw_ex ''v'') gw_one = Some gw_two"
proof -
  have u: "EP_UID (gw_ex ''v'') = ''v''" by (simp add: gw_ex_def)
  have a: "vrf_alloc ''v'' \<lparr>vrf_base = 100, byUID = [(''u'', 100)], vrf_inUse = [(100, ())]\<rparr> =
      Some (101, \<lparr>vrf_base = 100, byUID = [(''u'', 100), (''v'', 101)], vrf_inUse = [(100, ()), (101, ())]\<rparr>)"
    by (simp add: vrf_alloc_def vrf_scan_step mhas_iff)
  obtain m h where s: "gw_one = (m, h)" by fastforce
  note f = gw_one_fields [unfolded s fst_conv]
  define st where "st = \<lparr>gw_policy = Some (gw_ex ''v''), gw_install = None\<rparr>"
  define m1 where "m1 = m\<lparr>vrfs := \<lparr>vrf_base = 100, byUID = [(''u'', 100), (''v'', 101)], vrf_inUse = [(100, ()), (101, ())]\<rparr>,
    pendingSID := [AdvertiseSID (0 # 15 # replicate 14 0)]\<rparr>"
  have p: "gw_provision gseam_ok ''v'' (gw_req ''v'' 0) (st, m, h) =
      Some (st\<lparr>gw_install := Some (gw_req ''v'' 101)\<rparr>, m1, (InstallGateway (gw_req ''v'' 101), True) # h)"
    by (simp add: gw_provision_def f a st_def install_gateway_def call_def gseam_ok_def pend_def Let_def m1_def gw_req_def)
  have c: "gw_config m1 = gw_config gw_start" using f(7) by (simp add: m1_def gw_config_def)
  have r: "reconcileReturnLocked gseam_ok ''v'' [gw_rt] (m1, h') =
      (m1\<lparr>returnRefs := [(gw_rt, 2)], returnRoutes := [(''u'', [(gw_rt, ())]), (''v'', [(gw_rt, ())])]\<rparr>, h')" for h'
    by (simp add: reconcileReturnLocked_def returns_of_def m1_def f ref_count_def mhas_iff)
  show ?thesis
    by (simp add: gw_OnPolicyUpdate_def u s f gw_reconcileLocked_def gw_ex_wanted [OF f(7)] gw_ex_wanted [OF c] p [unfolded st_def] r
        gw_put_def gw_two_def flushPendingSID_def call_def gseam_ok_def Let_def)
      (simp add: m1_def f)
qed

lemma gw_two_fields:
  "gw_policies (fst gw_two) = [(''u'', \<lparr>gw_policy = Some (gw_ex ''u''), gw_install = Some (gw_req ''u'' 100)\<rparr>),
     (''v'', \<lparr>gw_policy = Some (gw_ex ''v''), gw_install = Some (gw_req ''v'' 101)\<rparr>)]"
  "vrfs (fst gw_two) = \<lparr>vrf_base = 100, byUID = [(''u'', 100), (''v'', 101)], vrf_inUse = [(100, ()), (101, ())]\<rparr>"
  "has_sids (fst gw_two)" "pendingSID (fst gw_two) = []"
  "returnRoutes (fst gw_two) = [(''u'', [(gw_rt, ())]), (''v'', [(gw_rt, ())])]" "returnRefs (fst gw_two) = [(gw_rt, 2)]"
  "gw_config (fst gw_two) = gw_config gw_start" "gw_synced (fst gw_two) = False"
  using gw_one_fields by (simp_all add: gw_two_def gw_config_def)

lemma gw_two_governed: "governed gseam_ok gw_two"
proof -
  have "governed gseam_ok (gw_start, [])" unfolding gw_start_def by (rule governed.start)
  then show ?thesis using gw_one_step gw_two_step by (blast intro: governed.policy_update)
qed

theorem gateway_returns_counted_witness:
  "gw_rt \<in> present (snd gw_two) \<and> int (card {uid. gw_rt \<in> set (mkeys (returns_of uid (fst gw_two)))}) = 2"
proof -
  have "ref_count (returnRefs (fst gw_two)) gw_rt = 2" by (simp add: gw_two_fields ref_count_def)
  moreover have "gw_rt \<in> set (mkeys (returns_of ''u'' (fst gw_two)))" by (simp add: gw_two_fields returns_of_def)
  ultimately show ?thesis
    using gateway_returns_counted [of gseam_ok "fst gw_two" "snd gw_two" gw_rt] gw_two_governed by auto
qed

lemma gw_two_idle: "gw_ReconcileAll gseam_ok gw_two = Some gw_two"
proof -
  obtain m h where s: "gw_two = (m, h)" by fastforce
  note f = gw_two_fields [unfolded s fst_conv]
  have al: "vrf_alloc ''u'' (vrfs m) = Some (100, vrfs m)" "vrf_alloc ''v'' (vrfs m) = Some (101, vrfs m)"
    by (simp_all add: vrf_alloc_def f)
  have upd: "m\<lparr>vrfs := vrfs m\<rparr> = m" "m\<lparr>pendingSID := []\<rparr> = m" using f(4) by (cases m; simp)+
  have p: "gw_provision gseam_ok ''u'' (gw_req ''u'' 0) (\<lparr>gw_policy = Some (gw_ex ''u''), gw_install = Some (gw_req ''u'' 100)\<rparr>, m, h) =
      Some (\<lparr>gw_policy = Some (gw_ex ''u''), gw_install = Some (gw_req ''u'' 100)\<rparr>, m, h)"
    "gw_provision gseam_ok ''v'' (gw_req ''v'' 0) (\<lparr>gw_policy = Some (gw_ex ''v''), gw_install = Some (gw_req ''v'' 101)\<rparr>, m, h) =
      Some (\<lparr>gw_policy = Some (gw_ex ''v''), gw_install = Some (gw_req ''v'' 101)\<rparr>, m, h)"
    by (simp_all add: gw_provision_def al upd Let_def gr_key_def gw_req_def)
  have r: "reconcileReturnLocked gseam_ok ''u'' [gw_rt] (m, h) = (m, h)" "reconcileReturnLocked gseam_ok ''v'' [gw_rt] (m, h) = (m, h)"
    using f by (cases m; simp add: reconcileReturnLocked_def returns_of_def mhas_iff)+
  have g: "gw_put ''u'' (\<lparr>gw_policy = Some (gw_ex ''u''), gw_install = Some (gw_req ''u'' 100)\<rparr>, m, h) = (m, h)"
    "gw_put ''v'' (\<lparr>gw_policy = Some (gw_ex ''v''), gw_install = Some (gw_req ''v'' 101)\<rparr>, m, h) = (m, h)"
    using f by (cases m; simp add: gw_put_def)+
  show ?thesis
    by (simp add: s gw_ReconcileAll_def f gw_reconcileLocked_def gw_ex_wanted [OF f(7)] p r g mhas_iff
        sweepLegacyAggregateLocked_def flushPendingSID_def upd)
qed



theorem gateway_returns_witness: "gw_OnPolicyUpdate gseam_ok (gw_ex ''w'') gw_two \<noteq> None"
  using gateway_returns [of gseam_ok "fst gw_two" "snd gw_two" "gw_ex ''w''"] gw_two_governed gw_two_fields(1) by simp

text \<open>A policy that moves to another upstream keeps its terminal SID and its table, which is all the key of
  a gateway entry has: the gateway makes no call, and the tenant's traffic still leaves through the table
  of the old upstream.\<close>

theorem gateway_upstream_change_ignored:
  assumes "governed seam (m, h)" "mget (gw_policies m) uid = Some st" "gw_install st = Some old"
    "TenantSID req = TenantSID old" "UpstreamTable req \<noteq> UpstreamTable old"
  shows "gw_provision seam uid req (st\<lparr>gw_policy := p\<rparr>, m, h) = Some (st\<lparr>gw_policy := p\<rparr>, m, h)"
proof -
  have "st_ok uid st m h" using gw_inv_st [OF governed_inv [OF assms(1)] assms(2)] .
  then have "vrf_alloc uid (vrfs m) = Some (VrfTable old, vrfs m)" using assms(3) by (simp add: vrf_alloc_def st_ok_def)
  moreover have "m\<lparr>vrfs := vrfs m\<rparr> = m" by simp
  ultimately show ?thesis using assms(3,4) by (simp add: gw_provision_def gr_key_def Let_def)
qed

theorem gateway_upstream_change_ignored_witness:
  "let st = \<lparr>gw_policy = Some (gw_ex ''u''\<lparr>EP_Upstream := ''dn''\<rparr>), gw_install = Some (gw_req ''u'' 100)\<rparr>;
       req = gw_req ''u'' 0\<lparr>UpstreamTable := 20, GR_Upstream := ''dn''\<rparr>
   in gw_provision gseam_ok ''u'' req (st, fst gw_two, snd gw_two) = Some (st, fst gw_two, snd gw_two)"
  using gateway_upstream_change_ignored [of gseam_ok "fst gw_two" "snd gw_two" "''u''"
      "\<lparr>gw_policy = Some (gw_ex ''u''), gw_install = Some (gw_req ''u'' 100)\<rparr>" "gw_req ''u'' 100"
      "gw_req ''u'' 0\<lparr>UpstreamTable := 20, GR_Upstream := ''dn''\<rparr>" "Some (gw_ex ''u''\<lparr>EP_Upstream := ''dn''\<rparr>)"]
    gw_two_governed gw_two_fields(1) by (simp add: Let_def gw_req_def)

text \<open>The announcements made, and those an operation leaves pending.\<close>

definition announced :: "ghist \<Rightarrow> ghist" where
  "announced h = filter (\<lambda>p. is_sid_call (fst p)) h"

lemma return_add_announced: "announced (snd (snd (return_add seam want s))) = announced (snd (snd s))"
  by (induction want arbitrary: s) (auto simp: split_paired_all call_def Let_def announced_def)

lemma return_del_announced: "announced (snd (snd (return_del seam want rts s))) = announced (snd (snd s))"
  by (induction rts arbitrary: s) (auto simp: split_paired_all call_def Let_def announced_def)

lemma reconcileReturnLocked_announced:
  "announced (snd (reconcileReturnLocked seam uid want (m, h))) = announced h \<and>
   pendingSID (fst (reconcileReturnLocked seam uid want (m, h))) = pendingSID m \<and>
   has_sids (fst (reconcileReturnLocked seam uid want (m, h))) = has_sids m"
  using return_add_announced [of seam want "(returns_of uid m, returnRefs m, h)"] return_del_announced [of seam want]
  by (auto simp: reconcileReturnLocked_def split: prod.splits) (metis snd_conv)+

lemma teardownLocked_announced:
  assumes "teardownLocked seam uid True (st, m, h) = (st', m', h')"
  shows "announced h' = announced h \<and> set (pendingSID m) \<subseteq> set (pendingSID m') \<and> has_sids m' = has_sids m \<and>
    (\<forall>r. gw_install st = Some r \<longrightarrow> has_sids m \<longrightarrow> TenantSID r \<noteq> [] \<longrightarrow> WithdrawSID (TenantSID r) \<in> set (pendingSID m'))"
proof -
  obtain m1 h1 where r: "reconcileReturnLocked seam uid [] (m, h) = (m1, h1)" by fastforce
  then show ?thesis
    using assms reconcileReturnLocked_announced [of seam uid "[]" m h]
    by (cases "gw_install st") (auto simp: teardownLocked_def Let_def pend_def call_def announced_def split: if_splits)
qed

lemma gw_reset_loop_announced:
  "announced (snd (gw_reset_loop seam es s)) = announced (snd s) \<and>
   set (pendingSID (fst s)) \<subseteq> set (pendingSID (fst (gw_reset_loop seam es s))) \<and>
   (\<forall>uid st r. (uid, st) \<in> set es \<longrightarrow> gw_install st = Some r \<longrightarrow> has_sids (fst s) \<longrightarrow> TenantSID r \<noteq> [] \<longrightarrow>
      WithdrawSID (TenantSID r) \<in> set (pendingSID (fst (gw_reset_loop seam es s))))"
proof (induction es arbitrary: s)
  case (Cons e es)
  obtain uid st where e: "e = (uid, st)" by fastforce
  obtain st1 m1 h1 where td: "teardownLocked seam uid True (st, fst s, snd s) = (st1, m1, h1)" by (metis prod_cases3)
  let ?s = "gw_put uid (st1, m1, h1)"
  have f: "pendingSID (fst ?s) = pendingSID m1" "snd ?s = h1" "has_sids (fst ?s) = has_sids m1" by (simp_all add: gw_put_def)
  have l: "gw_reset_loop seam (e # es) s = gw_reset_loop seam es ?s" using e td by simp
  show ?case unfolding l using teardownLocked_announced [OF td] Cons.IH [of ?s] f e by auto
qed simp

text \<open>The reset at shutdown withdraws no SID: the withdrawals of the SIDs announced for the tenants are left
  pending, and nothing sends them.\<close>

theorem gateway_reset_unannounced:
  assumes "governed seam (m, h)" "has_sids m" "mget (gw_policies m) uid = Some st" "gw_install st = Some r" "TenantSID r \<noteq> []"
  shows "WithdrawSID (TenantSID r) \<in> set (pendingSID (fst (gw_Reset seam (m, h)))) \<and>
    announced (snd (gw_Reset seam (m, h))) = announced h"
  using gw_reset_loop_announced [of seam "gw_policies m" "(m, h)"] mget_Some_in [OF assms(3)] assms(2,4,5)
  by (auto simp: gw_Reset_def split: prod.splits)

theorem gateway_reset_unannounced_witness:
  "WithdrawSID (TenantSID (gw_req ''u'' 100)) \<in> set (pendingSID (fst (gw_Reset gseam_ok gw_two)))"
  using gateway_reset_unannounced [of gseam_ok "fst gw_two" "snd gw_two" "''u''"
      "\<lparr>gw_policy = Some (gw_ex ''u''), gw_install = Some (gw_req ''u'' 100)\<rparr>" "gw_req ''u'' 100"]
    gw_two_governed gw_two_fields(1,3) by (simp add: gw_req_def)

end
