(* ===== verification/EgressWatcher.thy ===== *)
theory EgressWatcher
  imports EgressGateway
begin

text \<open>
  \<open>calico-vpp-agent/srv6egress/watcher.go\<close>: the watcher lists the egress policies, feeds each to the manager of
  the headend and to that of the gateway, lets them drop the policies that are not in the list, and then
  passes the events of the watch on. What it relies on of the two managers is one contract, the locale
  \<open>policy_sink\<close>, which each of them satisfies. The Kubernetes client is not modelled: its answers are the
  list and the events.
\<close>

datatype watch_object = PolicyObject EgressPolicy | OtherObject

datatype watch_event = WAdded watch_object | WModified watch_object | WDeleted watch_object | WBookmark | WError

text \<open>What happens to one of the two managers, given its operations.\<close>

fun feed_list :: "(EgressPolicy \<Rightarrow> 's \<Rightarrow> 's option) \<Rightarrow> EgressPolicy list \<Rightarrow> 's \<Rightarrow> 's option" where
  "feed_list on_update [] s = Some s"
| "feed_list on_update (ep # eps) s = (case on_update ep s of None \<Rightarrow> None | Some s' \<Rightarrow> feed_list on_update eps s')"

definition watch_list :: "(EgressPolicy \<Rightarrow> 's \<Rightarrow> 's option) \<Rightarrow> (string set \<Rightarrow> 's \<Rightarrow> 's) \<Rightarrow> EgressPolicy list \<Rightarrow> 's \<Rightarrow> 's option" where
  "watch_list on_update prune items s = map_option (prune (EP_UID ` set items)) (feed_list on_update items s)"

fun feed_event :: "(EgressPolicy \<Rightarrow> 's \<Rightarrow> 's option) \<Rightarrow> (string \<Rightarrow> 's \<Rightarrow> 's) \<Rightarrow> watch_event \<Rightarrow> 's \<Rightarrow> 's option" where
  "feed_event on_update on_delete (WAdded (PolicyObject ep)) s = on_update ep s"
| "feed_event on_update on_delete (WModified (PolicyObject ep)) s = on_update ep s"
| "feed_event on_update on_delete (WDeleted (PolicyObject ep)) s = Some (on_delete (EP_UID ep) s)"
| "feed_event on_update on_delete _ s = Some s"

fun feed_events :: "(EgressPolicy \<Rightarrow> 's \<Rightarrow> 's option) \<Rightarrow> (string \<Rightarrow> 's \<Rightarrow> 's) \<Rightarrow> watch_event list \<Rightarrow> 's \<Rightarrow> 's option" where
  "feed_events on_update on_delete [] s = Some s"
| "feed_events on_update on_delete (ev # evs) s = (case feed_event on_update on_delete ev s of None \<Rightarrow> None | Some s' \<Rightarrow> feed_events on_update on_delete evs s')"

text \<open>The watcher over both, the gateway being optional.\<close>

record watcher =
  w_manager :: "Manager \<times> shist"
  w_gateway :: "(GatewayManager \<times> ghist) option"

definition w_upd :: "seam \<Rightarrow> resolver \<Rightarrow> gseam \<Rightarrow> EgressPolicy \<Rightarrow> watcher \<Rightarrow> watcher option" where
  "w_upd seam pods gseam ep w =
     (let w1 = w\<lparr>w_manager := mgr_OnPolicyUpdate seam pods ep (w_manager w)\<rparr> in
      case w_gateway w1 of
        None \<Rightarrow> Some w1
      | Some g \<Rightarrow> map_option (\<lambda>g'. w1\<lparr>w_gateway := Some g'\<rparr>) (gw_OnPolicyUpdate gseam ep g))"

definition w_del :: "seam \<Rightarrow> gseam \<Rightarrow> string \<Rightarrow> watcher \<Rightarrow> watcher" where
  "w_del seam gseam uid w =
     w\<lparr>w_manager := mgr_OnPolicyDelete seam uid (w_manager w),
       w_gateway := map_option (gw_OnPolicyDelete gseam uid) (w_gateway w)\<rparr>"

definition w_prune :: "seam \<Rightarrow> gseam \<Rightarrow> string set \<Rightarrow> watcher \<Rightarrow> watcher" where
  "w_prune seam gseam live w =
     w\<lparr>w_manager := mgr_PruneExcept seam live (w_manager w),
       w_gateway := map_option (gw_PruneExcept gseam live) (w_gateway w)\<rparr>"

definition Watch :: "seam \<Rightarrow> resolver \<Rightarrow> gseam \<Rightarrow> EgressPolicy list \<Rightarrow> watch_event list \<Rightarrow> watcher \<Rightarrow> watcher option" where
  "Watch seam pods gseam items evs w =
     (case watch_list (w_upd seam pods gseam) (w_prune seam gseam) items w of
        None \<Rightarrow> None
      | Some w' \<Rightarrow> feed_events (w_upd seam pods gseam) (w_del seam gseam) evs w')"

text \<open>What the list and the events say of the policies in the cluster.\<close>

fun listed :: "EgressPolicy list \<Rightarrow> string \<Rightarrow> EgressPolicy option" where
  "listed [] uid = None"
| "listed (ep # eps) uid = (case listed eps uid of Some ep' \<Rightarrow> Some ep' | None \<Rightarrow> if EP_UID ep = uid \<and> uid \<noteq> [] then Some ep else None)"

fun after_event :: "watch_event \<Rightarrow> (string \<Rightarrow> EgressPolicy option) \<Rightarrow> string \<Rightarrow> EgressPolicy option" where
  "after_event (WAdded (PolicyObject ep)) c = (if EP_UID ep = [] then c else c(EP_UID ep \<mapsto> ep))"
| "after_event (WModified (PolicyObject ep)) c = (if EP_UID ep = [] then c else c(EP_UID ep \<mapsto> ep))"
| "after_event (WDeleted (PolicyObject ep)) c = c(EP_UID ep := None)"
| "after_event _ c = c"

locale policy_sink =
  fixes on_update :: "EgressPolicy \<Rightarrow> 's \<Rightarrow> 's option" and on_delete :: "string \<Rightarrow> 's \<Rightarrow> 's" and prune :: "string set \<Rightarrow> 's \<Rightarrow> 's"
    and tracked_policy :: "'s \<Rightarrow> string \<Rightarrow> EgressPolicy option" and inv :: "'s \<Rightarrow> bool"
  assumes upd_inv: "inv s \<Longrightarrow> on_update ep s = Some s' \<Longrightarrow> inv s'"
    and del_inv: "inv s \<Longrightarrow> inv (on_delete uid s)"
    and prune_inv: "inv s \<Longrightarrow> inv (prune live s)"
    and upd_tracks: "inv s \<Longrightarrow> on_update ep s = Some s' \<Longrightarrow>
      tracked_policy s' = (if EP_UID ep = [] then tracked_policy s else (tracked_policy s)(EP_UID ep \<mapsto> ep))"
    and del_tracks: "inv s \<Longrightarrow> tracked_policy (on_delete uid s) = (tracked_policy s)(uid := None)"
    and prune_tracks: "inv s \<Longrightarrow> tracked_policy (prune live s) = tracked_policy s |` live"
    and uid_nonempty: "inv s \<Longrightarrow> tracked_policy s [] = None"
begin

lemma feed_list_tracks:
  "inv s \<Longrightarrow> feed_list on_update items s = Some s' \<Longrightarrow> inv s' \<and> tracked_policy s' = (\<lambda>uid. case listed items uid of Some ep \<Rightarrow> Some ep | None \<Rightarrow> tracked_policy s uid)"
proof (induction items arbitrary: s)
  case (Cons ep items)
  then obtain s1 where u: "on_update ep s = Some s1" "feed_list on_update items s1 = Some s'" by (auto split: option.splits)
  have ih: "inv s'" "tracked_policy s' = (\<lambda>uid. case listed items uid of Some ep \<Rightarrow> Some ep | None \<Rightarrow> tracked_policy s1 uid)"
    using Cons.IH [OF upd_inv [OF Cons.prems(1) u(1)] u(2)] by simp_all
  show ?case using ih upd_tracks [OF Cons.prems(1) u(1)] by (auto simp: fun_eq_iff split: option.splits)
qed simp

lemma watch_list_tracks:
  assumes "inv s" "watch_list on_update prune items s = Some s'"
  shows "inv s' \<and> tracked_policy s' = (listed items)"
proof -
  obtain s1 where f: "feed_list on_update items s = Some s1" "s' = prune (EP_UID ` set items) s1"
    using assms(2) by (auto simp: watch_list_def)
  note k = feed_list_tracks [OF assms(1) f(1)]
  have absent: "listed items uid = None" if "uid \<notin> EP_UID ` set items" for uid
    using that by (induction items) (auto split: option.splits)
  have listed: "listed items uid \<noteq> None" if "uid \<in> EP_UID ` set items" "uid \<noteq> []" for uid
    using that by (induction items) (auto split: option.splits)
  have "tracked_policy s1 [] = None" using k uid_nonempty by blast
  then have "(tracked_policy s1 |` (EP_UID ` set items)) uid = listed items uid" for uid
    using k absent [of uid] listed [of uid] by (cases "uid \<in> EP_UID ` set items"; cases "uid = []") (auto split: option.splits)
  then have "tracked_policy s1 |` (EP_UID ` set items) = listed items" by (rule ext)
  moreover have "inv s1" using k by blast
  ultimately show ?thesis using prune_tracks prune_inv f(2) by simp
qed

lemma feed_event_tracks:
  assumes "inv s" "feed_event on_update on_delete ev s = Some s'"
  shows "inv s' \<and> tracked_policy s' = after_event ev (tracked_policy s)"
proof (cases ev)
  case (WAdded ob)
  then show ?thesis using assms upd_inv [OF assms(1)] upd_tracks [OF assms(1)] by (cases ob) simp_all
next
  case (WModified ob)
  then show ?thesis using assms upd_inv [OF assms(1)] upd_tracks [OF assms(1)] by (cases ob) simp_all
next
  case (WDeleted ob)
  then show ?thesis using assms del_inv [OF assms(1)] del_tracks [OF assms(1)] by (cases ob) auto
qed (use assms in simp_all)

lemma feed_events_tracks:
  "inv s \<Longrightarrow> feed_events on_update on_delete evs s = Some s' \<Longrightarrow> inv s' \<and> tracked_policy s' = fold after_event evs (tracked_policy s)"
proof (induction evs arbitrary: s)
  case (Cons ev evs)
  then obtain s1 where s1: "feed_event on_update on_delete ev s = Some s1" "feed_events on_update on_delete evs s1 = Some s'"
    by (auto split: option.splits)
  show ?case using Cons.IH [OF _ s1(2)] feed_event_tracks [OF Cons.prems(1) s1(1)] by simp
qed simp

end

section \<open>The managers as sinks\<close>

definition mgr_policy :: "Manager \<times> shist \<Rightarrow> string \<Rightarrow> EgressPolicy option" where
  "mgr_policy s uid = (case mget (mgr_policies (fst s)) uid of None \<Rightarrow> None | Some st \<Rightarrow> ps_policy st)"

definition mgr_sink_inv :: "Manager \<times> shist \<Rightarrow> bool" where
  "mgr_sink_inv s \<longleftrightarrow> mgr_inv s \<and> mget (mgr_policies (fst s)) [] = None"

lemma mgr_OnPolicyUpdate_policies:
  assumes "mgr_inv (m, h)" "EP_UID ep \<noteq> []"
  shows "\<exists>st. mgr_policies (fst (mgr_OnPolicyUpdate seam pods ep (m, h))) = mput (EP_UID ep) st (mgr_policies m) \<and> ps_policy st = Some ep"
proof -
  define prev where "prev = (case mget (mgr_policies m) (EP_UID ep) of
    Some st \<Rightarrow> st | None \<Rightarrow> \<lparr>ps_policy = None, installs = [], blackholes = []\<rparr>)"
  obtain st' h' where r: "mgr_reconcileLocked seam pods m (prev\<lparr>ps_policy := Some ep\<rparr>, h) = (st', h')" by fastforce
  have "pol_own (EP_UID ep) (prev\<lparr>ps_policy := Some ep\<rparr>, h)"
    using assms(1) by (auto simp: prev_def pol_own_def mgr_inv_def mgr_own_def tracked_def split: option.splits)
  then show ?thesis
    using mgr_reconcileLocked_result [OF r] assms(2) r by (auto simp: mgr_OnPolicyUpdate_def Let_def simp flip: prev_def)
qed

lemma prune_loop_policies:
  "mget (mgr_policies (fst (prune_loop seam live es (m, h)))) u = (if u \<in> set (mkeys es) - live then None else mget (mgr_policies m) u)"
  by (induction es arbitrary: m h) (auto simp: split_paired_all)

interpretation mgr_sink: policy_sink "\<lambda>ep s. Some (mgr_OnPolicyUpdate seam pods ep s)" "mgr_OnPolicyDelete seam" "mgr_PruneExcept seam"
    mgr_policy mgr_sink_inv for seam pods
proof unfold_locales
  fix s s' :: "Manager \<times> shist" and ep uid live
  obtain m h where s: "s = (m, h)" by fastforce
  assume "mgr_sink_inv s"
  then have inv: "mgr_inv (m, h)" "mget (mgr_policies m) [] = None" by (simp_all add: mgr_sink_inv_def s)
  show "mgr_policy s [] = None" by (simp add: mgr_policy_def s inv)
  show "mgr_sink_inv (mgr_OnPolicyDelete seam uid s)"
    using mgr_OnPolicyDelete_inv [OF inv(1), of seam uid] inv(2)
    by (auto simp: mgr_sink_inv_def s mgr_OnPolicyDelete_def split: option.splits)
  show "mgr_policy (mgr_OnPolicyDelete seam uid s) = (mgr_policy s)(uid := None)"
    by (auto simp: fun_eq_iff mgr_policy_def s mgr_OnPolicyDelete_def split: option.splits)
  show "mgr_sink_inv (mgr_PruneExcept seam live s)"
    using mgr_PruneExcept_inv [OF inv(1), of seam live] inv(2) by (simp add: mgr_sink_inv_def s mgr_PruneExcept_def prune_loop_policies)
  show "mgr_policy (mgr_PruneExcept seam live s) = mgr_policy s |` live"
    by (auto simp: fun_eq_iff mgr_policy_def s mgr_PruneExcept_def prune_loop_policies restrict_map_def mget_None_iff split: option.splits)
  assume u: "Some (mgr_OnPolicyUpdate seam pods ep s) = Some s'"
  show "mgr_sink_inv s'"
    using u mgr_OnPolicyUpdate_inv [OF inv(1), of seam pods ep] mgr_OnPolicyUpdate_policies [OF inv(1), of ep seam pods] inv(2)
    by (cases "EP_UID ep = []") (auto simp: mgr_sink_inv_def s mgr_OnPolicyUpdate_def)
  show "mgr_policy s' = (if EP_UID ep = [] then mgr_policy s else (mgr_policy s)(EP_UID ep \<mapsto> ep))"
    using u mgr_OnPolicyUpdate_policies [OF inv(1), of ep seam pods]
    by (cases "EP_UID ep = []") (auto simp: fun_eq_iff mgr_policy_def s mgr_OnPolicyUpdate_def)
qed

lemma gw_drop_policies: "gw_policies (fst (gw_drop seam uid st s)) = mdel uid (gw_policies (fst s))"
proof -
  obtain m h where s: "s = (m, h)" by fastforce
  obtain st1 m1 h1 where td: "teardownLocked seam uid True (st, m, h) = (st1, m1, h1)" by (metis prod_cases3)
  then have "gw_policies m1 = gw_policies m"
    using reconcileReturnLocked_frame [of seam uid "[]" m h]
    by (auto simp: teardownLocked_def Let_def pend_def split: prod.splits option.splits if_splits)
  then show ?thesis by (simp add: gw_drop_def td s)
qed

lemma gw_prune_loop_policies:
  "mget (gw_policies (fst (gw_prune_loop seam live es s))) u = (if u \<in> set (mkeys es) - live then None else mget (gw_policies (fst s)) u)"
proof (induction es arbitrary: s)
  case (Cons e es)
  then show ?case by (cases e) (auto simp: gw_drop_policies)
qed simp

lemma gw_OnPolicyUpdate_policies:
  assumes "gw_inv (m, h)" "gw_OnPolicyUpdate seam ep (m, h) = Some s'" "EP_UID ep \<noteq> []"
  shows "\<exists>st. gw_policies (fst s') = mput (EP_UID ep) st (gw_policies m) \<and> gw_policy st = Some ep"
proof -
  define st where "st = (case mget (gw_policies m) (EP_UID ep) of
    Some st \<Rightarrow> st | None \<Rightarrow> \<lparr>gw_policy = None, gw_install = None\<rparr>)\<lparr>gw_policy := Some ep\<rparr>"
  obtain st1 m1 h1 where r: "gw_reconcileLocked seam (EP_UID ep) (st, m, h) = Some (st1, m1, h1)"
      and e: "s' = flushPendingSID seam (gw_put (EP_UID ep) (st1, m1, h1))"
    using assms(2,3) by (auto simp: gw_OnPolicyUpdate_def Let_def st_def)
  have "st_ok (EP_UID ep) st m h"
    using gw_inv_st [OF assms(1), of "EP_UID ep"] by (cases "mget (gw_policies m) (EP_UID ep)") (auto simp: st_def st_ok_def)
  note k = gw_reconcileLocked_result [OF r gw_inv_core [OF assms(1)] this]
  have "gw_policy st = Some ep" by (simp add: st_def)
  then show ?thesis using k by (intro exI [of _ st1]) (simp add: e flushPendingSID_def gw_put_def frames_def)
qed

definition gwm_policy :: "GatewayManager \<times> ghist \<Rightarrow> string \<Rightarrow> EgressPolicy option" where
  "gwm_policy s uid = (case mget (gw_policies (fst s)) uid of None \<Rightarrow> None | Some st \<Rightarrow> gw_policy st)"

definition gw_sink_inv :: "GatewayManager \<times> ghist \<Rightarrow> bool" where
  "gw_sink_inv s \<longleftrightarrow> gw_inv s \<and> mget (gw_policies (fst s)) [] = None"

lemma flush_policies: "gw_policies (fst (flushPendingSID seam s)) = gw_policies (fst s)"
  by (simp add: flushPendingSID_def)

lemma gw_OnPolicyDelete_policies: "gw_policies (fst (gw_OnPolicyDelete seam uid s)) = mdel uid (gw_policies (fst s))"
  by (simp add: gw_OnPolicyDelete_def flush_policies gw_drop_policies mget_None_iff split: option.splits)

lemma gw_PruneExcept_policies:
  "mget (gw_policies (fst (gw_PruneExcept seam live s))) u = (if u \<in> live then mget (gw_policies (fst s)) u else None)"
  using gw_prune_loop_policies [of seam live "gw_policies (fst s)" s u]
  by (cases "u \<in> set (mkeys (gw_policies (fst s)))") (auto simp: gw_PruneExcept_def split: prod.splits simp flip: mget_None_iff)

interpretation gw_sink: policy_sink "gw_OnPolicyUpdate seam" "gw_OnPolicyDelete seam" "gw_PruneExcept seam" gwm_policy gw_sink_inv for seam
proof unfold_locales
  fix s s' :: "GatewayManager \<times> ghist" and ep uid live
  obtain m h where s: "s = (m, h)" by fastforce
  assume "gw_sink_inv s"
  then have inv: "gw_inv (m, h)" "mget (gw_policies m) [] = None" by (simp_all add: gw_sink_inv_def s)
  show "gwm_policy s [] = None" by (simp add: gwm_policy_def s inv)
  show "gw_sink_inv (gw_OnPolicyDelete seam uid s)"
    using gw_OnPolicyDelete_inv [OF inv(1), of seam uid] inv(2) by (simp add: gw_sink_inv_def s gw_OnPolicyDelete_policies)
  show "gwm_policy (gw_OnPolicyDelete seam uid s) = (gwm_policy s)(uid := None)"
    by (auto simp: fun_eq_iff gwm_policy_def gw_OnPolicyDelete_policies)
  show "gw_sink_inv (gw_PruneExcept seam live s)"
    using gw_PruneExcept_inv [OF inv(1), of seam live] inv(2) by (simp add: gw_sink_inv_def s gw_PruneExcept_policies)
  show "gwm_policy (gw_PruneExcept seam live s) = gwm_policy s |` live"
    by (auto simp: fun_eq_iff gwm_policy_def gw_PruneExcept_policies restrict_map_def)
  assume u: "gw_OnPolicyUpdate seam ep s = Some s'"
  have "gw_inv s'" using u gw_OnPolicyUpdate_result [of seam ep m h "fst s'" "snd s'"] inv(1) s by simp
  then show "gw_sink_inv s'"
    using u gw_OnPolicyUpdate_policies [OF inv(1), of seam ep s'] inv(2)
    by (cases "EP_UID ep = []") (auto simp: gw_sink_inv_def s gw_OnPolicyUpdate_def flush_policies)
  show "gwm_policy s' = (if EP_UID ep = [] then gwm_policy s else (gwm_policy s)(EP_UID ep \<mapsto> ep))"
    using u gw_OnPolicyUpdate_policies [OF inv(1), of seam ep s']
    by (cases "EP_UID ep = []") (auto simp: fun_eq_iff gwm_policy_def s gw_OnPolicyUpdate_def flush_policies)
qed

section \<open>The watcher\<close>

definition w_inv :: "watcher \<Rightarrow> bool" where
  "w_inv w \<longleftrightarrow> mgr_sink_inv (w_manager w) \<and> (\<forall>g. w_gateway w = Some g \<longrightarrow> gw_sink_inv g)"

lemma w_upd_parts:
  assumes "w_upd seam pods gseam ep w = Some w'"
  shows "w_manager w' = mgr_OnPolicyUpdate seam pods ep (w_manager w)"
    "w_gateway w = None \<longleftrightarrow> w_gateway w' = None"
    "w_gateway w' = Some g' \<Longrightarrow> \<exists>g. w_gateway w = Some g \<and> gw_OnPolicyUpdate gseam ep g = Some g'"
  using assms by (auto simp: w_upd_def Let_def split: option.splits)

lemma w_upd_inv:
  assumes "w_inv w" "w_upd seam pods gseam ep w = Some w'"
  shows "w_inv w'"
proof -
  have "mgr_sink_inv (w_manager w')"
    using assms(1) w_upd_parts(1) [OF assms(2)] mgr_sink.upd_inv [of "w_manager w" seam pods ep] by (simp add: w_inv_def)
  moreover have "gw_sink_inv g'" if g': "w_gateway w' = Some g'" for g'
  proof -
    obtain g where "w_gateway w = Some g" "gw_OnPolicyUpdate gseam ep g = Some g'" using w_upd_parts(3) [OF assms(2) g'] by blast
    then show ?thesis using assms(1) gw_sink.upd_inv [of g gseam ep g'] by (simp add: w_inv_def)
  qed
  ultimately show ?thesis by (simp add: w_inv_def)
qed

lemma w_del_inv: "w_inv w \<Longrightarrow> w_inv (w_del seam gseam uid w)"
  by (cases "w_gateway w") (simp_all add: w_inv_def w_del_def mgr_sink.del_inv gw_sink.del_inv)

lemma w_prune_inv: "w_inv w \<Longrightarrow> w_inv (w_prune seam gseam live w)"
  by (cases "w_gateway w") (simp_all add: w_inv_def w_prune_def mgr_sink.prune_inv gw_sink.prune_inv)

definition w_mgr_policy :: "watcher \<Rightarrow> string \<Rightarrow> EgressPolicy option" where
  "w_mgr_policy w = mgr_policy (w_manager w)"

interpretation w_mgr: policy_sink "w_upd seam pods gseam" "w_del seam gseam" "w_prune seam gseam" w_mgr_policy w_inv for seam pods gseam
proof unfold_locales
  fix w w' ep uid live
  assume inv: "w_inv w"
  have m: "mgr_sink_inv (w_manager w)" using inv by (simp add: w_inv_def)
  show "w_inv (w_del seam gseam uid w)" "w_inv (w_prune seam gseam live w)" using inv by (rule w_del_inv, rule w_prune_inv)
  show "w_mgr_policy (w_del seam gseam uid w) = (w_mgr_policy w)(uid := None)"
    using mgr_sink.del_tracks [OF m, of seam uid] by (simp add: w_mgr_policy_def w_del_def)
  show "w_mgr_policy (w_prune seam gseam live w) = w_mgr_policy w |` live"
    using mgr_sink.prune_tracks [OF m, of seam live] by (simp add: w_mgr_policy_def w_prune_def)
  show "w_mgr_policy w [] = None" using mgr_sink.uid_nonempty [OF m] by (simp add: w_mgr_policy_def)
  assume u: "w_upd seam pods gseam ep w = Some w'"
  show "w_inv w'" using inv u by (rule w_upd_inv)
  show "w_mgr_policy w' = (if EP_UID ep = [] then w_mgr_policy w else (w_mgr_policy w)(EP_UID ep \<mapsto> ep))"
    using mgr_sink.upd_tracks [OF m, of seam pods ep "w_manager w'"] w_upd_parts(1) [OF u] by (simp add: w_mgr_policy_def)
qed

text \<open>The policies of the gateway, when there is one; without, it follows the manager's.\<close>

definition w_gw_policy :: "watcher \<Rightarrow> string \<Rightarrow> EgressPolicy option" where
  "w_gw_policy w = (case w_gateway w of None \<Rightarrow> mgr_policy (w_manager w) | Some g \<Rightarrow> gwm_policy g)"

interpretation w_gw: policy_sink "w_upd seam pods gseam" "w_del seam gseam" "w_prune seam gseam" w_gw_policy w_inv for seam pods gseam
proof unfold_locales
  fix w w' ep uid live
  assume inv: "w_inv w"
  have m: "mgr_sink_inv (w_manager w)" and g: "\<And>g. w_gateway w = Some g \<Longrightarrow> gw_sink_inv g" using inv by (simp_all add: w_inv_def)
  show "w_inv (w_del seam gseam uid w)" "w_inv (w_prune seam gseam live w)" using inv by (rule w_del_inv, rule w_prune_inv)
  show "w_gw_policy (w_del seam gseam uid w) = (w_gw_policy w)(uid := None)"
    using mgr_sink.del_tracks [OF m, of seam uid] gw_sink.del_tracks [OF g, of _ gseam uid]
    by (auto simp: w_gw_policy_def w_del_def split: option.splits)
  show "w_gw_policy (w_prune seam gseam live w) = w_gw_policy w |` live"
    using mgr_sink.prune_tracks [OF m, of seam live] gw_sink.prune_tracks [OF g, of _ gseam live]
    by (auto simp: w_gw_policy_def w_prune_def split: option.splits)
  show "w_gw_policy w [] = None"
    using mgr_sink.uid_nonempty [OF m] gw_sink.uid_nonempty [OF g] by (auto simp: w_gw_policy_def split: option.splits)
  assume u: "w_upd seam pods gseam ep w = Some w'"
  show "w_inv w'" using inv u by (rule w_upd_inv)
  show "w_gw_policy w' = (if EP_UID ep = [] then w_gw_policy w else (w_gw_policy w)(EP_UID ep \<mapsto> ep))"
  proof (cases "w_gateway w'")
    case None
    then show ?thesis
      using mgr_sink.upd_tracks [OF m, of seam pods ep "w_manager w'"] w_upd_parts(1,2) [OF u] by (simp add: w_gw_policy_def)
  next
    case (Some g')
    then obtain g0 where "w_gateway w = Some g0" "gw_OnPolicyUpdate gseam ep g0 = Some g'" using w_upd_parts(3) [OF u] by blast
    then show ?thesis using gw_sink.upd_tracks [OF g] Some by (simp add: w_gw_policy_def)
  qed
qed

text \<open>The room left for tables.\<close>

definition w_size :: "watcher \<Rightarrow> nat" where
  "w_size w = (case w_gateway w of None \<Rightarrow> 0 | Some g \<Rightarrow> length (gw_policies (fst g)))"

lemma length_mput: "length (mput k v m) \<le> Suc (length m)"
  by (induction m) (auto simp: split_paired_all)

lemma length_mdel: "length (mdel k m) \<le> length m"
  by (simp add: mdel_def)

lemma w_upd_returns:
  assumes "w_inv w" "w_size w < 2 ^ 32"
  shows "\<exists>w'. w_upd seam pods gseam ep w = Some w' \<and> w_size w' \<le> Suc (w_size w)"
proof (cases "w_gateway w")
  case None
  then show ?thesis by (simp add: w_upd_def Let_def w_size_def)
next
  case (Some g)
  have inv: "gw_inv (fst g, snd g)" using assms(1) Some by (simp add: w_inv_def gw_sink_inv_def)
  have len: "length (gw_policies (fst g)) < 2 ^ 32" using assms(2) Some by (simp add: w_size_def)
  obtain g' where g': "gw_OnPolicyUpdate gseam ep g = Some g'"
    using gw_OnPolicyUpdate_returns [OF inv len, of gseam ep] by auto
  have "length (gw_policies (fst g')) \<le> Suc (length (gw_policies (fst g)))"
  proof (cases "EP_UID ep = []")
    case True
    then show ?thesis using g' flush_policies [of gseam g] by (auto simp: gw_OnPolicyUpdate_def)
  next
    case False
    then obtain st where "gw_policies (fst g') = mput (EP_UID ep) st (gw_policies (fst g))"
      using gw_OnPolicyUpdate_policies [OF inv, of gseam ep g'] g' by auto
    then show ?thesis by (simp add: length_mput)
  qed
  then show ?thesis using Some g' by (simp add: w_upd_def Let_def w_size_def)
qed

lemma feed_list_returns:
  assumes "w_inv w" "w_size w + length items < 2 ^ 32"
  shows "\<exists>w'. feed_list (w_upd seam pods gseam) items w = Some w' \<and> w_inv w' \<and> w_size w' \<le> w_size w + length items"
  using assms
proof (induction items arbitrary: w)
  case (Cons ep items)
  obtain w1 where w1: "w_upd seam pods gseam ep w = Some w1" "w_size w1 \<le> Suc (w_size w)"
    using w_upd_returns [OF Cons.prems(1), of seam pods gseam ep] Cons.prems(2) by auto
  then show ?case using Cons.IH [OF w_upd_inv [OF Cons.prems(1) w1(1)]] Cons.prems(2) by fastforce
qed simp

lemma w_shrinks: "w_inv w \<Longrightarrow> w_size (w_del seam gseam uid w) \<le> w_size w" "w_inv w \<Longrightarrow> w_size (w_prune seam gseam live w) \<le> w_size w"
proof -
  show "w_size (w_del seam gseam uid w) \<le> w_size w"
    by (auto simp: w_size_def w_del_def gw_OnPolicyDelete_policies length_mdel split: option.splits)
  assume inv: "w_inv w"
  have "length (gw_policies (fst (gw_PruneExcept gseam live g))) \<le> length (gw_policies (fst g))" if "w_gateway w = Some g" for g
  proof (rule byUID_length)
    have "gw_sink_inv (gw_PruneExcept gseam live g)" using inv that gw_sink.prune_inv by (simp add: w_inv_def)
    then show "wf_map (gw_policies (fst (gw_PruneExcept gseam live g)))" by (simp add: gw_sink_inv_def gw_inv_def)
    show "set (mkeys (gw_policies (fst (gw_PruneExcept gseam live g)))) \<subseteq> set (mkeys (gw_policies (fst g)))"
      using gw_PruneExcept_policies [of gseam live g] by (metis mget_None_iff subsetI)
  qed
  then show "w_size (w_prune seam gseam live w) \<le> w_size w" by (auto simp: w_size_def w_prune_def split: option.splits)
qed

lemma feed_events_returns:
  assumes "w_inv w" "w_size w + length evs < 2 ^ 32"
  shows "\<exists>w'. feed_events (w_upd seam pods gseam) (w_del seam gseam) evs w = Some w'"
  using assms
proof (induction evs arbitrary: w)
  case (Cons ev evs)
  have "\<exists>w1. feed_event (w_upd seam pods gseam) (w_del seam gseam) ev w = Some w1 \<and> w_inv w1 \<and> w_size w1 \<le> Suc (w_size w)"
    using w_upd_returns [OF Cons.prems(1), of seam pods gseam] w_upd_inv [OF Cons.prems(1)] w_del_inv [OF Cons.prems(1)] w_shrinks(1) [OF Cons.prems(1), of seam gseam]
      Cons.prems
    by (cases "(w_upd seam pods gseam, w_del seam gseam, ev, w)" rule: feed_event.cases) (fastforce intro: le_SucI)+
  then show ?case using Cons.IH Cons.prems(2) by fastforce
qed simp

text \<open>C21: The watcher keeps both managers on the policies of the cluster: from any state, after listing them and
  following the events, the headend and the gateway track exactly the policies of the list with the events
  applied to it, those deleted while no watch was running included; and with fewer policies than tables
  the watcher gets there.\<close>

theorem Watch_tracks:
  assumes "w_inv w" "w_size w + length items + length evs < 2 ^ 32"
  shows "\<exists>w'. Watch seam pods gseam items evs w = Some w' \<and> w_inv w' \<and>
    mgr_policy (w_manager w') = fold after_event evs (listed items) \<and>
    (\<forall>g. w_gateway w' = Some g \<longrightarrow> gwm_policy g = fold after_event evs (listed items))"
proof -
  obtain w0 where f: "feed_list (w_upd seam pods gseam) items w = Some w0" "w_inv w0" "w_size w0 \<le> w_size w + length items"
    using feed_list_returns [OF assms(1), of items seam pods gseam] assms(2) by auto
  define w1 where "w1 = w_prune seam gseam (EP_UID ` set items) w0"
  have l: "watch_list (w_upd seam pods gseam) (w_prune seam gseam) items w = Some w1" by (simp add: watch_list_def f(1) w1_def)
  have w1: "w_inv w1" "w_size w1 \<le> w_size w0" using w_prune_inv [OF f(2)] w_shrinks(2) [OF f(2)] by (simp_all add: w1_def)
  obtain w' where e: "feed_events (w_upd seam pods gseam) (w_del seam gseam) evs w1 = Some w'"
    using feed_events_returns [OF w1(1), of evs seam pods gseam] w1(2) f(3) assms(2) by auto
  have t: "w_mgr_policy w' = fold after_event evs (listed items)" "w_gw_policy w' = fold after_event evs (listed items)" "w_inv w'"
    using w_mgr.watch_list_tracks [OF assms(1) l] w_gw.watch_list_tracks [OF assms(1) l] w_mgr.feed_events_tracks [OF w1(1) e]
      w_gw.feed_events_tracks [OF w1(1) e] by simp_all
  then show ?thesis using l e by (auto simp: Watch_def w_mgr_policy_def w_gw_policy_def)
qed

theorem Watch_tracks_witness:
  "\<exists>w'. Watch seam_ok egress_pods gseam_ok [gw_ex ''u''] [WDeleted (PolicyObject (gw_ex ''u'')), WAdded (PolicyObject (gw_ex ''v''))]
      \<lparr>w_manager = (NewManager, []), w_gateway = Some (gw_start, [])\<rparr> = Some w' \<and>
    mgr_policy (w_manager w') ''u'' = None \<and> mgr_policy (w_manager w') ''v'' = Some (gw_ex ''v'')"
proof -
  let ?w = "\<lparr>w_manager = (NewManager, []), w_gateway = Some (gw_start, [])\<rparr>"
  have "managed seam_ok (NewManager, [])" by (rule managed.start)
  then have "mgr_sink_inv (NewManager, [])" using managed_inv by (simp add: mgr_sink_inv_def NewManager_def)
  moreover have "governed gseam_ok (gw_start, [])" unfolding gw_start_def by (rule governed.start)
  then have "gw_sink_inv (gw_start, []) \<and> gw_policies gw_start = []"
    using governed_inv by (simp add: gw_sink_inv_def gw_start_def SetUpstreamSIDModes_def SetClusterReturn_def SetSIDAdvertiser_def NewGatewayManager_def)
  ultimately have w: "w_inv ?w" "w_size ?w = 0" by (simp_all add: w_inv_def w_size_def)
  show ?thesis
    using Watch_tracks [OF w(1), of "[gw_ex ''u'']" "[WDeleted (PolicyObject (gw_ex ''u'')), WAdded (PolicyObject (gw_ex ''v''))]"
        seam_ok egress_pods gseam_ok] w(2)
    by (auto simp: gw_ex_def)
qed

end
