(* ===== verification/NetPrint.thy ===== *)
theory NetPrint
  imports NetAddr
begin

text \<open>
  Printing and parsing of addresses and networks are inverse to each other. The program keys its maps by the printed
  form of an address or a network, and reads networks it printed back from text; the facts here are what makes that
  sound.
\<close>

section \<open>Numbers\<close>

lemma of_char_char_of_nat: "n < 256 \<Longrightarrow> of_char (char_of n) = (n :: nat)"
  by simp

lemma digit_char:
  assumes "n < 10"
  shows "is_digit (char_of (n + 48))" "digit_val (char_of (n + 48)) = n"
  using assms by (simp_all add: is_digit_def digit_val_def)

lemma show_nat_small: "n < 10 \<Longrightarrow> show_nat n = [char_of (n + 48)]"
  by (subst show_nat.simps) simp

lemma show_nat_step: "10 \<le> n \<Longrightarrow> show_nat n = show_nat (n div 10) @ [char_of (n mod 10 + 48)]"
  by (subst show_nat.simps) simp

lemma show_nat_digits: "list_all is_digit (show_nat n)"
  by (induction n rule: show_nat.induct) (subst show_nat.simps, auto simp: digit_char(1))

lemma show_nat_nonempty: "show_nat n \<noteq> []"
  by (subst show_nat.simps) simp

lemma digits_val_show_nat: "digits_val (show_nat n) = n"
proof (induction n rule: show_nat.induct)
  case (1 n)
  then show ?case
    by (subst show_nat.simps) (auto simp: digits_val_def digit_char(2) digit_char(2) [of "n mod 10"])
qed

lemma show_nat_inj: "show_nat m = show_nat n \<longleftrightarrow> m = n"
  by (metis digits_val_show_nat)

lemma digit_not_sep: "is_digit c \<Longrightarrow> c \<noteq> CHR ''.'' \<and> c \<noteq> CHR ''/'' \<and> c \<noteq> CHR ''%'' \<and> c \<noteq> CHR '':'' \<and> c \<noteq> CHR ''|'' \<and> c \<noteq> CHR ''#''"
  by (auto simp: is_digit_def)

lemma show_nat_not_sep:
  "c \<in> set (show_nat n) \<Longrightarrow> c \<noteq> CHR ''.'' \<and> c \<noteq> CHR ''/'' \<and> c \<noteq> CHR ''%'' \<and> c \<noteq> CHR '':'' \<and> c \<noteq> CHR ''|'' \<and> c \<noteq> CHR ''#''"
  using show_nat_digits digit_not_sep by (auto simp: list_all_iff)

section \<open>IPv4 addresses\<close>

lemma parse_byte:
  assumes "n < 256"
  shows "parseIPv4Fields 0 0 fs (show_nat n @ r) = parseIPv4Fields n (length (show_nat n)) fs r"
proof -
  consider "n < 10" | "10 \<le> n" "n < 100" | "100 \<le> n" by linarith
  then show ?thesis
  proof cases
    case 1
    then show ?thesis by (simp add: show_nat_small digit_char)
  next
    case 2
    then have s: "show_nat n = [char_of (n div 10 + 48), char_of (n mod 10 + 48)]"
      by (simp add: show_nat_step show_nat_small)
    have "10 * (n div 10) + n mod 10 = n" "0 < n div 10" "n div 10 \<le> 255" using 2 by auto
    with 2 assms show ?thesis unfolding s by (simp add: digit_char)
  next
    case 3
    then have s: "show_nat n = [char_of (n div 100 + 48), char_of (n div 10 mod 10 + 48), char_of (n mod 10 + 48)]"
      using assms by (simp add: show_nat_step [of n] show_nat_step [of "n div 10"] show_nat_small div_mult2_eq [symmetric])
    have v: "10 * (n div 100) + n div 10 mod 10 = n div 10" by (simp add: div_mult2_eq [of n 10 10, simplified])
    have "10 * (n div 10) + n mod 10 = n" "0 < n div 100" "n div 10 \<le> 255" "n div 100 < 10" using 3 assms by auto
    with 3 assms v show ?thesis unfolding s by (simp add: digit_char)
  qed
qed

lemma parse_byte_dot:
  "n < 256 \<Longrightarrow> length fs < 3 \<Longrightarrow> r \<noteq> [] \<Longrightarrow>
   parseIPv4Fields 0 0 fs (show_nat n @ CHR ''.'' # r) = parseIPv4Fields 0 0 (fs @ [of_nat n]) r"
  using show_nat_nonempty [of n] by (simp add: parse_byte is_digit_def)

lemma parse_byte_last:
  "n < 256 \<Longrightarrow> length fs = 3 \<Longrightarrow> parseIPv4Fields 0 0 fs (show_nat n) = Some (fs @ [of_nat n])"
  using parse_byte [of n fs "[]"] by simp

lemma length_4_cases: "length a = 4 \<Longrightarrow> \<exists>w x y z. a = [w, x, y, z]"
  by (auto simp: numeral_eq_Suc length_Suc_conv)

lemma show_ip4_eq:
  "show_ip4 [w, x, y, z] = show_nat (unat w) @ CHR ''.'' # show_nat (unat x) @ CHR ''.'' # show_nat (unat y) @ CHR ''.'' # show_nat (unat z)"
  by (simp add: show_ip4_def)

lemma unat_byte: "unat (b :: u8) < 256"
  using unsigned_less [of b] by simp

lemma parseIPv4_show:
  assumes "length a = 4"
  shows "parseIPv4 (show_ip4 a) = Some a"
proof -
  obtain w x y z where a: "a = [w, x, y, z]" using length_4_cases [OF assms] by blast
  show ?thesis
    unfolding a show_ip4_eq parseIPv4_def
    by (simp add: parse_byte_dot parse_byte_last unat_byte show_nat_nonempty)
qed

lemma show_ip4_chars:
  assumes "length a = 4" "c \<in> set (show_ip4 a)"
  shows "c = CHR ''.'' \<or> is_digit c"
proof -
  obtain w x y z where a: "a = [w, x, y, z]" using length_4_cases [OF assms(1)] by blast
  show ?thesis using assms(2) show_nat_digits unfolding a show_ip4_eq by (auto simp: list_all_iff)
qed

lemma dropWhile_first:
  "(\<forall>c \<in> set xs. P c) \<Longrightarrow> \<not> P d \<Longrightarrow> dropWhile P (xs @ d # ys) = d # ys"
  by (induction xs) auto

lemma takeWhile_first:
  "(\<forall>c \<in> set xs. P c) \<Longrightarrow> \<not> P d \<Longrightarrow> takeWhile P (xs @ d # ys) = xs"
  by (induction xs) auto

lemma ParseAddr_show4:
  assumes "length a = 4"
  shows "ParseAddr (show_ip4 a) = Some (Addr4 a)"
proof -
  obtain w x y z where a: "a = [w, x, y, z]" using length_4_cases [OF assms] by blast
  have "dropWhile (\<lambda>c. c \<noteq> CHR ''.'' \<and> c \<noteq> CHR '':'') (show_ip4 a) =
    CHR ''.'' # show_nat (unat x) @ CHR ''.'' # show_nat (unat y) @ CHR ''.'' # show_nat (unat z)"
    unfolding a show_ip4_eq by (rule dropWhile_first) (use show_nat_not_sep in auto)
  moreover have "CHR ''%'' \<notin> set (show_ip4 a)"
    using show_ip4_chars [OF assms] digit_not_sep by fastforce
  ultimately show ?thesis
    by (simp add: ParseAddr_def parseIPv4_show assms)
qed

section \<open>IPv6 addresses\<close>

definition hex_char :: "nat \<Rightarrow> char" where
  "hex_char k = char_of (if k < 10 then k + 48 else k + 87)"

lemma show_hex_small: "n < 16 \<Longrightarrow> show_hex n = [hex_char n]"
  by (subst show_hex.simps) (simp add: hex_char_def)

lemma show_hex_step: "16 \<le> n \<Longrightarrow> show_hex n = show_hex (n div 16) @ [hex_char (n mod 16)]"
  by (subst show_hex.simps) (simp add: hex_char_def)

lemma hex_digit:
  assumes "k < 16"
  shows "is_hex (hex_char k)" "hex_val (hex_char k) = k"
  using assms by (auto simp: is_hex_def hex_val_def is_digit_def hex_char_def)

definition hex_num :: "string \<Rightarrow> nat" where
  "hex_num ds = foldl (\<lambda>n c. 16 * n + hex_val c) 0 ds"

lemma show_hex_hex: "list_all is_hex (show_hex n)"
proof (induction n rule: show_hex.induct)
  case (1 n)
  then show ?case by (cases "n < 16") (auto simp: show_hex_small show_hex_step hex_digit)
qed

lemma hex_num_show: "hex_num (show_hex n) = n"
proof (induction n rule: show_hex.induct)
  case (1 n)
  then show ?case
    by (cases "n < 16") (auto simp: show_hex_small show_hex_step hex_digit hex_num_def)
qed

lemma show_hex_length: "n < 16 ^ Suc k \<Longrightarrow> 1 \<le> length (show_hex n) \<and> length (show_hex n) \<le> Suc k"
proof (induction k arbitrary: n)
  case 0
  then show ?case by (simp add: show_hex_small)
next
  case (Suc k)
  show ?case
  proof (cases "n < 16")
    case True
    then show ?thesis by (simp add: show_hex_small)
  next
    case False
    then have "n div 16 < 16 ^ Suc k" using Suc.prems by (simp add: div_less_iff_less_mult mult.commute)
    with Suc.IH [of "n div 16"] False show ?thesis by (simp add: show_hex_step)
  qed
qed

lemma show_hex_group: "n < 65536 \<Longrightarrow> show_hex n \<noteq> [] \<and> length (show_hex n) \<le> 4"
  using show_hex_length [of n 3] by auto

lemma hex_not_sep: "is_hex c \<Longrightarrow> c \<noteq> CHR ''.'' \<and> c \<noteq> CHR ''/'' \<and> c \<noteq> CHR ''%'' \<and> c \<noteq> CHR '':'' \<and> c \<noteq> CHR ''|'' \<and> c \<noteq> CHR ''#''"
  by (auto simp: is_hex_def is_digit_def)

lemma colon_not_hex: "\<not> is_hex CHR '':''"
  by (simp add: is_hex_def is_digit_def)

text \<open>The bytes of 16-bit groups.\<close>

definition group_bytes :: "nat list \<Rightarrow> ip" where
  "group_bytes gs = concat (map (\<lambda>n. [of_nat (n div 256), of_nat (n mod 256)]) gs)"

lemma group_bytes_simps [simp]:
  "group_bytes [] = []"
  "group_bytes (n # gs) = of_nat (n div 256) # of_nat (n mod 256) # group_bytes gs"
  "group_bytes (gs @ hs) = group_bytes gs @ group_bytes hs"
  by (simp_all add: group_bytes_def)

lemma length_group_bytes [simp]: "length (group_bytes gs) = 2 * length gs"
  by (induction gs) auto

lemma group_bytes_groups16: "even (length a) \<Longrightarrow> group_bytes (groups16 a) = a"
  by (induction a rule: groups16.induct) (auto simp: unat_byte)

lemma length_groups16: "length (groups16 a) = length a div 2"
  by (induction a rule: groups16.induct) auto

lemma groups16_bound: "n \<in> set (groups16 a) \<Longrightarrow> n < 65536"
proof (induction a rule: groups16.induct)
  case (1 a b r)
  then show ?case using unat_byte [of a] unat_byte [of b] by auto
qed auto

lemma hex_takeWhile: "takeWhile is_hex (show_hex n @ CHR '':'' # r) = show_hex n"
    "dropWhile is_hex (show_hex n @ CHR '':'' # r) = CHR '':'' # r"
    "takeWhile is_hex (show_hex n) = show_hex n" "dropWhile is_hex (show_hex n) = []"
  using show_hex_hex [of n]
  by (auto simp: list_all_iff takeWhile_first dropWhile_first colon_not_hex)

lemma loop_last:
  assumes "n < 65536" "length a < 16"
  shows "parseIPv6_loop a el (show_hex n) = Some (a @ group_bytes [n], el, [])"
  using assms show_hex_group [OF assms(1)] hex_num_show [of n]
  by (subst parseIPv6_loop.simps) (auto simp: hex_takeWhile Let_def hex_num_def)

lemma loop_colon:
  assumes "n < 65536" "length a < 16" "c \<noteq> CHR '':''"
  shows "parseIPv6_loop a el (show_hex n @ CHR '':'' # c # r) = parseIPv6_loop (a @ group_bytes [n]) el (c # r)"
  using assms show_hex_group [OF assms(1)] hex_num_show [of n]
  by (subst parseIPv6_loop.simps) (auto simp: hex_takeWhile Let_def hex_num_def)

lemma loop_double_colon:
  assumes "n < 65536" "length a < 16"
  shows "parseIPv6_loop a None (show_hex n @ CHR '':'' # CHR '':'' # r) =
    (let a' = a @ group_bytes [n] in
     if r = [] then Some (a', Some (length a'), []) else parseIPv6_loop a' (Some (length a')) r)"
  using assms show_hex_group [OF assms(1)] hex_num_show [of n]
  by (subst parseIPv6_loop.simps) (auto simp: hex_takeWhile Let_def hex_num_def)

lemma show_hex_start: "\<exists>c cs. show_hex n = c # cs \<and> is_hex c \<and> c \<noteq> CHR '':''"
proof -
  have "show_hex n \<noteq> []" by (subst show_hex.simps) (simp add: Let_def)
  then obtain c cs where "show_hex n = c # cs" by (cases "show_hex n") auto
  with show_hex_hex [of n] hex_not_sep show ?thesis by auto
qed

abbreviation show_groups :: "nat list \<Rightarrow> string" where
  "show_groups gs \<equiv> joinWith '':'' (map show_hex gs)"

lemma show_groups_start: "gs \<noteq> [] \<Longrightarrow> \<exists>c cs. show_groups gs = c # cs \<and> is_hex c \<and> c \<noteq> CHR '':''"
proof (induction gs rule: induct_list012)
  case (2 g)
  then show ?case using show_hex_start [of g] by simp
next
  case (3 g h gs)
  then show ?case using show_hex_start [of g] by auto
qed simp

lemma show_groups_Cons: "gs \<noteq> [] \<Longrightarrow> show_groups (g # gs) = show_hex g @ CHR '':'' # show_groups gs"
  by (cases gs) auto

lemma loop_groups:
  assumes "gs \<noteq> []" "list_all (\<lambda>n. n < 65536) gs" "length a + 2 * length gs \<le> 16"
  shows "parseIPv6_loop a el (show_groups gs) = Some (a @ group_bytes gs, el, [])"
  using assms
proof (induction gs arbitrary: a)
  case (Cons g gs)
  show ?case
  proof (cases "gs = []")
    case True
    with Cons.prems show ?thesis by (simp add: loop_last)
  next
    case False
    then obtain c cs where c: "show_groups gs = c # cs" "c \<noteq> CHR '':''" using show_groups_start by blast
    show ?thesis
      using Cons.prems Cons.IH [OF False, of "a @ group_bytes [g]"] loop_colon [OF _ _ c(2), of g a el cs]
      unfolding show_groups_Cons [OF False] c(1) by simp
  qed
qed simp

lemma loop_groups_ellipsis:
  assumes "gs \<noteq> []" "list_all (\<lambda>n. n < 65536) gs" "length a + 2 * length gs \<le> 16"
  shows "parseIPv6_loop a None (show_groups gs @ CHR '':'' # CHR '':'' # r) =
    (let a' = a @ group_bytes gs in
     if r = [] then Some (a', Some (length a'), []) else parseIPv6_loop a' (Some (length a')) r)"
  using assms
proof (induction gs arbitrary: a)
  case (Cons g gs)
  show ?case
  proof (cases "gs = []")
    case True
    with Cons.prems show ?thesis by (simp add: loop_double_colon)
  next
    case False
    then obtain c cs where c: "show_groups gs = c # cs" "c \<noteq> CHR '':''" using show_groups_start by blast
    show ?thesis
      using Cons.prems Cons.IH [OF False, of "a @ group_bytes [g]"]
        loop_colon [OF _ _ c(2), of g a None "cs @ CHR '':'' # CHR '':'' # r"]
      unfolding show_groups_Cons [OF False] c(1) by simp
  qed
qed simp

text \<open>The run of zeros that is printed as the ellipsis.\<close>

lemma zero_run_spec:
  assumes "zero_run g = (zs, ze)" "zs < ze"
  shows "ze \<le> length g" "zs + 2 \<le> ze" "take (ze - zs) (drop zs g) = replicate (ze - zs) 0"
proof -
  define ok where "ok = (\<lambda>(zs, ze). zs < ze \<longrightarrow> ze \<le> length g \<and> zs + 2 \<le> ze \<and>
    take (ze - zs) (drop zs g) = replicate (ze - zs) (0 :: nat))"
  define f where "f = (\<lambda>(zs, ze) i. let l = length (takeWhile (\<lambda>x. x = 0) (drop i g)) in
              if l \<ge> 2 \<and> l > ze - zs then (i, i + l) else (zs, ze))"
  have step: "ok (f z i)" if "ok z" for z i
  proof -
    let ?tw = "takeWhile (\<lambda>x. x = 0) (drop i g)"
    have "length ?tw \<le> length (drop i g)" by (rule length_takeWhile_le)
    moreover have "take (length ?tw) (drop i g) = replicate (length ?tw) 0"
      by (metis (mono_tags, lifting) replicate_eqI set_takeWhileD takeWhile_eq_take)
    ultimately show ?thesis
      using that by (cases z) (auto simp: ok_def f_def Let_def)
  qed
  have "ok (foldl f z ks)" if "ok z" for z ks
    using that by (induction ks arbitrary: z) (simp_all add: step)
  then have "ok (zero_run g)"
    unfolding zero_run_def f_def [symmetric] by (simp add: ok_def)
  with assms show "ze \<le> length g" "zs + 2 \<le> ze" "take (ze - zs) (drop zs g) = replicate (ze - zs) 0"
    by (simp_all add: ok_def)
qed

lemma parseIPv6_whole:
  assumes "length g = 8" "list_all (\<lambda>n. n < 65536) g"
  shows "parseIPv6 (show_groups g) = Some (group_bytes g)"
proof -
  have ne: "g \<noteq> []" using assms(1) by auto
  then obtain c cs where c: "show_groups g = c # cs" "c \<noteq> CHR '':''" using show_groups_start by blast
  have "parseIPv6_loop [] None (show_groups g) = Some (group_bytes g, None, [])"
    using loop_groups [OF ne assms(2), of "[]" None] assms(1) by simp
  then show ?thesis
    using c assms(1) by (simp add: parseIPv6_def Let_def expand_ellipsis_def)
qed

lemma parseIPv6_ellipsis:
  assumes "list_all (\<lambda>n. n < 65536) (gs @ hs)" "length gs + length hs < 8"
  shows "parseIPv6 (show_groups gs @ ''::'' @ show_groups hs) =
    Some (group_bytes gs @ replicate (16 - 2 * (length gs + length hs)) 0 @ group_bytes hs)"
proof -
  have hs: "hs \<noteq> [] \<Longrightarrow> parseIPv6_loop (group_bytes gs) (Some (2 * length gs)) (show_groups hs) =
    Some (group_bytes gs @ group_bytes hs, Some (2 * length gs), [])"
    using loop_groups [of hs "group_bytes gs"] assms by simp
  have he: "show_groups hs = [] \<longleftrightarrow> hs = []" using show_groups_start [of hs] by (cases "hs = []") auto
  show ?thesis
  proof (cases "gs = []")
    case True
    then show ?thesis using hs he assms by (auto simp: parseIPv6_def Let_def expand_ellipsis_def)
  next
    case False
    then obtain c cs where c: "show_groups gs = c # cs" "c \<noteq> CHR '':''" using show_groups_start by blast
    have "parseIPv6_loop [] None (show_groups gs @ ''::'' @ show_groups hs) =
      Some (group_bytes gs @ group_bytes hs, Some (2 * length gs), [])"
      using loop_groups_ellipsis [of gs "[]" "show_groups hs"] False hs he assms by (auto simp: Let_def)
    then show ?thesis
      using c assms(2) by (simp add: parseIPv6_def Let_def expand_ellipsis_def)
  qed
qed

lemma group_bytes_zeros: "group_bytes (replicate n 0) = replicate (2 * n) 0"
  by (induction n) auto

lemma parseIPv6_show:
  assumes "length a = 16"
  shows "parseIPv6 (show_ip6 a) = Some a"
proof -
  define g where "g = groups16 a"
  have g: "length g = 8" "list_all (\<lambda>n. n < 65536) g" "group_bytes g = a"
    using assms groups16_bound by (auto simp: g_def length_groups16 group_bytes_groups16 list_all_iff)
  obtain zs ze where z: "zero_run g = (zs, ze)" by (cases "zero_run g")
  show ?thesis
  proof (cases "zs < ze")
    case False
    then show ?thesis using parseIPv6_whole [OF g(1,2)] g(3) z by (simp add: show_ip6_def g_def)
  next
    case True
    note s = zero_run_spec [OF z True]
    have "g = take zs g @ take (ze - zs) (drop zs g) @ drop ze g"
      using s(2) by (metis append_take_drop_id drop_drop le_add_diff_inverse2 add_leD1)
    then have "group_bytes g = group_bytes (take zs g) @ replicate (2 * (ze - zs)) 0 @ group_bytes (drop ze g)"
      using group_bytes_zeros unfolding s(3) by (metis group_bytes_simps(3))
    moreover have "16 - 2 * (length (take zs g) + length (drop ze g)) = 2 * (ze - zs)"
      "length (take zs g) + length (drop ze g) < 8"
      using s(1,2) g(1) by auto
    moreover have "list_all (\<lambda>n. n < 65536) (take zs g @ drop ze g)"
      using g(2) by (auto simp: list_all_iff dest: in_set_takeD in_set_dropD)
    ultimately have "parseIPv6 (show_groups (take zs g) @ ''::'' @ show_groups (drop ze g)) = Some (group_bytes g)"
      using parseIPv6_ellipsis [of "take zs g" "drop ze g"] by metis
    then show ?thesis using True z g(3) by (simp add: show_ip6_def Let_def g_def)
  qed
qed

lemma show_groups_chars: "c \<in> set (show_groups gs) \<Longrightarrow> c = CHR '':'' \<or> is_hex c"
proof (induction gs rule: induct_list012)
  case (2 g)
  then show ?case using show_hex_hex [of g] by (simp add: list_all_iff)
next
  case (3 g h gs)
  then show ?case using show_hex_hex [of g] by (auto simp: list_all_iff)
qed simp

lemma show_ip6_chars: "c \<in> set (show_ip6 a) \<Longrightarrow> c = CHR '':'' \<or> is_hex c"
  using show_groups_chars by (auto simp: show_ip6_def Let_def split: prod.splits if_splits)

lemma show_ip6_colon: "length a = 16 \<Longrightarrow> CHR '':'' \<in> set (show_ip6 a)"
proof -
  assume a: "length a = 16"
  then have "length (groups16 a) = 8" by (simp add: length_groups16)
  then obtain g h gs where "groups16 a = g # h # gs" by (auto simp: numeral_eq_Suc length_Suc_conv)
  then show ?thesis by (cases "zero_run (groups16 a)") (auto simp: show_ip6_def Let_def)
qed

lemma ParseAddr_show6:
  assumes "length a = 16"
  shows "ParseAddr (show_ip6 a) = Some (Addr6 a)"
proof -
  have no: "CHR ''%'' \<notin> set (show_ip6 a)" "CHR ''.'' \<notin> set (show_ip6 a)"
    using show_ip6_chars hex_not_sep by blast+
  let ?d = "dropWhile (\<lambda>c. c \<noteq> CHR ''.'' \<and> c \<noteq> CHR '':'') (show_ip6 a)"
  have "?d \<noteq> []" using show_ip6_colon [OF assms] by auto
  then obtain c cs where c: "?d = c # cs" by (cases ?d) auto
  then have "c \<noteq> CHR ''.''" using no(2) by (metis list.set_intros(1) set_dropWhileD)
  with c no(1) show ?thesis by (simp add: ParseAddr_def parseIPv6_show assms)
qed

section \<open>Addresses and networks\<close>

text \<open>An address as the program holds it: four or sixteen bytes.\<close>

definition wf_ip :: "ip \<Rightarrow> bool" where
  "wf_ip a \<longleftrightarrow> length a = 4 \<or> length a = 16"

lemma ParseAddr_ip_String:
  assumes "wf_ip a"
  shows "ParseAddr (ip_String a) = Some (case To4 a of Some a4 \<Rightarrow> Addr4 a4 | None \<Rightarrow> Addr6 a)"
proof -
  have "To4 a = None \<Longrightarrow> length a = 16" using assms by (auto simp: wf_ip_def To4_def)
  moreover have "a \<noteq> []" "length a = 4 \<or> length a = 16" using assms by (auto simp: wf_ip_def)
  ultimately show ?thesis
    by (auto simp: ip_String_def ParseAddr_show4 ParseAddr_show6 To4_length split: option.split)
qed

lemma ParseIP_ip_String: "wf_ip a \<Longrightarrow> ParseIP (ip_String a) = To16 a"
  by (auto simp: ParseIP_def ParseAddr_ip_String To4_def To16_def wf_ip_def)
    (metis append_take_drop_id)+

lemma ip_String_chars:
  assumes "wf_ip a" "c \<in> set (ip_String a)"
  shows "c \<noteq> CHR ''/'' \<and> c \<noteq> CHR ''%'' \<and> c \<noteq> CHR ''|'' \<and> c \<noteq> CHR ''#''"
proof -
  have "a \<noteq> []" "length a = 4 \<or> length a = 16" using assms(1) by (auto simp: wf_ip_def)
  then have "c \<in> set (case To4 a of Some a4 \<Rightarrow> show_ip4 a4 | None \<Rightarrow> show_ip6 a)"
    using assms(2) by (auto simp: ip_String_def)
  then consider a4 where "To4 a = Some a4" "c \<in> set (show_ip4 a4)" | "c \<in> set (show_ip6 a)"
    by (auto split: option.splits)
  then show ?thesis
  proof cases
    case 1
    then show ?thesis using show_ip4_chars [OF To4_length] digit_not_sep by fastforce
  next
    case 2
    then show ?thesis using show_ip6_chars hex_not_sep by fastforce
  qed
qed

lemma To16_ip_Equal: "wf_ip a \<Longrightarrow> wf_ip b \<Longrightarrow> To16 a = To16 b \<longleftrightarrow> ip_Equal a b"
  by (auto simp: To16_def ip_Equal_def wf_ip_def) (metis append_take_drop_id)+

text \<open>A network with its host bits cleared, as \<open>ParseCIDR\<close> returns it, and outside the range of the IPv4-mapped
  addresses, which print as IPv4.\<close>

definition canonical_net :: "ipnet \<Rightarrow> bool" where
  "canonical_net n \<longleftrightarrow> wf_ipnet n \<and> apply_mask (IPNet_IP n) (IPNet_Mask n) = IPNet_IP n \<and>
     (length (IPNet_IP n) = 16 \<longrightarrow> To4 (IPNet_IP n) = None)"

lemma ipnet_String_canonical:
  assumes "canonical_net n"
  shows "ipnet_String n = ip_String (IPNet_IP n) @ ''/'' @ show_nat (fst (Mask_Size (IPNet_Mask n)))"
proof -
  let ?k = "fst (Mask_Size (IPNet_Mask n))"
  have w: "length (IPNet_IP n) = 4 \<or> length (IPNet_IP n) = 16"
    "IPNet_Mask n = CIDRMask ?k (8 * length (IPNet_IP n))" "?k \<le> 8 * length (IPNet_IP n)"
    using assms by (auto simp: canonical_net_def wf_ipnet_def)
  have bits: "8 * length (IPNet_IP n) = 32 \<or> 8 * length (IPNet_IP n) = 128" using w(1) by auto
  have m: "mask_bits (IPNet_Mask n) = replicate ?k True @ replicate (8 * length (IPNet_IP n) - ?k) False"
    "length (IPNet_Mask n) = length (IPNet_IP n)"
    using mask_bits_CIDRMask [OF bits w(3)] length_CIDRMask [OF bits w(3)] w(2) by auto
  have a: "(case To4 (IPNet_IP n) of Some a4 \<Rightarrow> a4 | None \<Rightarrow> IPNet_IP n) = IPNet_IP n"
    using assms w(1) by (auto simp: canonical_net_def To4_def)
  have "networkNumberAndMask n = Some (IPNet_IP n, IPNet_Mask n)"
    using w(1) m(2) a by (auto simp: networkNumberAndMask_def)
  then show ?thesis
    by (simp add: ipnet_String_def m(1) list_all_iff dropWhile_append takeWhile_append)
qed

lemma ParseCIDR_ipnet_String:
  assumes "canonical_net n"
  shows "\<exists>a. ParseCIDR (ipnet_String n) = Some (a, n)"
proof -
  let ?k = "fst (Mask_Size (IPNet_Mask n))" and ?a = "IPNet_IP n"
  have wf: "wf_ip ?a" using assms by (auto simp: canonical_net_def wf_ipnet_def wf_ip_def)
  have sl: "\<forall>c \<in> set (ip_String ?a). c \<noteq> CHR ''/''" using ip_String_chars [OF wf] by blast
  have split: "takeWhile (\<lambda>c. c \<noteq> CHR ''/'') (ipnet_String n) = ip_String ?a"
    "dropWhile (\<lambda>c. c \<noteq> CHR ''/'') (ipnet_String n) = CHR ''/'' # show_nat ?k"
    using sl by (simp_all add: ipnet_String_canonical [OF assms] takeWhile_first dropWhile_first)
  define A where "A = (case To4 ?a of Some a4 \<Rightarrow> Addr4 a4 | None \<Rightarrow> Addr6 ?a)"
  have A: "ParseAddr (ip_String ?a) = Some A" by (simp add: ParseAddr_ip_String [OF wf] A_def)
  have bl: "BitLen A = 8 * length ?a" and am: "apply_mask (As16 A) (IPNet_Mask n) = ?a"
    and k: "?k \<le> 8 * length ?a" and m: "CIDRMask ?k (8 * length ?a) = IPNet_Mask n"
  proof -
    show k: "?k \<le> 8 * length ?a" and m: "CIDRMask ?k (8 * length ?a) = IPNet_Mask n"
      using assms by (auto simp: canonical_net_def wf_ipnet_def)
    have bits: "8 * length ?a = 32 \<or> 8 * length ?a = 128" using wf by (auto simp: wf_ip_def)
    have lm: "length (IPNet_Mask n) = length ?a" using length_CIDRMask [OF bits k] m by simp
    consider "length ?a = 4" "A = Addr4 ?a" | "length ?a = 16" "A = Addr6 ?a"
      using assms wf by (auto simp: canonical_net_def wf_ip_def A_def To4_def)
    then show "BitLen A = 8 * length ?a" "apply_mask (As16 A) (IPNet_Mask n) = ?a"
      using assms lm by (cases; simp add: canonical_net_def apply_mask_def v4InV6Prefix_def)+
  qed
  show ?thesis
    using split A bl am k m show_nat_nonempty [of ?k] show_nat_digits [of ?k]
    by (simp add: ParseCIDR_def digits_val_show_nat)
qed

lemma ip_String_eq_iff:
  assumes "wf_ip a" "wf_ip b"
  shows "ip_String a = ip_String b \<longleftrightarrow> ip_Equal a b"
proof
  assume "ip_String a = ip_String b"
  then have "To16 a = To16 b" using ParseIP_ip_String assms by metis
  then show "ip_Equal a b" using To16_ip_Equal assms by blast
next
  assume "ip_Equal a b"
  then have "To16 a = To16 b" using To16_ip_Equal assms by blast
  then have t4: "To4 a = To4 b" "To4 a = None \<Longrightarrow> a = b"
    using assms by (auto simp: To16_def To4_def wf_ip_def split: if_splits)
  show "ip_String a = ip_String b"
  proof (cases "To4 a")
    case None
    then show ?thesis using t4(2) by simp
  next
    case (Some a4)
    moreover from this have "To4 b = Some a4" using t4(1) by simp
    moreover have "a \<noteq> []" "b \<noteq> []" using assms by (auto simp: wf_ip_def)
    ultimately show ?thesis using assms by (auto simp: ip_String_def wf_ip_def)
  qed
qed

lemma ipnet_String_inj: "canonical_net m \<Longrightarrow> canonical_net n \<Longrightarrow> ipnet_String m = ipnet_String n \<longleftrightarrow> m = n"
  using ParseCIDR_ipnet_String by (metis option.inject prod.inject)

lemma map2_and_idem: "length a = length (m :: u8 list) \<Longrightarrow> map2 (\<lambda>x y. x AND y) (map2 (\<lambda>x y. x AND y) a m) m = map2 (\<lambda>x y. x AND y) a m"
  by (induction a m rule: list_induct2) (auto simp: and.assoc)

lemma ParseCIDR_canonical:
  assumes "ParseCIDR s = Some (a, n)" "length (IPNet_IP n) = 16 \<longrightarrow> To4 (IPNet_IP n) = None"
  shows "canonical_net n"
proof -
  obtain addr k where addr: "ParseAddr (takeWhile (\<lambda>c. c \<noteq> CHR ''/'') s) = Some addr" "k \<le> BitLen addr"
    "n = \<lparr>IPNet_IP = apply_mask (As16 addr) (CIDRMask k (BitLen addr)), IPNet_Mask = CIDRMask k (BitLen addr)\<rparr>"
    using assms by (auto simp: ParseCIDR_def Let_def not_less split: list.splits option.splits if_splits)
  have "apply_mask (IPNet_IP n) (IPNet_Mask n) = IPNet_IP n"
  proof (cases addr)
    case (Addr4 b)
    with addr ParseAddr_length(1) have "length b = 4" by blast
    then show ?thesis
      using addr(2,3) Addr4 by (simp add: apply_mask_def length_CIDRMask map2_and_idem)
  next
    case (Addr6 b)
    with addr ParseAddr_length(2) have "length b = 16" by blast
    then show ?thesis
      using addr(2,3) Addr6 by (simp add: apply_mask_def length_CIDRMask map2_and_idem)
  qed
  with ParseCIDR_wf [OF assms(1)] assms(2) show ?thesis by (simp add: canonical_net_def)
qed

end
