(* ===== verification/VppApi.thy ===== *)
theory VppApi
  imports NetPrint Npol
begin

text \<open>
  \<open>vpplink/types/route.go\<close>, \<open>vpplink/routes.go\<close>, \<open>vpplink/types/sr.go\<close>, \<open>vpplink/srv6.go\<close>, the tunnels of
  \<open>vpplink/ipip.go\<close>, \<open>vpplink/vxlan.go\<close> and \<open>vpplink/wireguard.go\<close>, and the calls of \<open>vpplink/interfaces.go\<close>
  and \<open>vpplink/cnat.go\<close> the connectivity server makes. VPP is a service over the messages of its binary API; what
  it holds is read off the history of the calls. The theory shows that routes survive their encoding and that an
  SRv6 policy is added whole or not at all.
\<close>

section \<open>Messages\<close>

text \<open>The path of a route in the API. \<open>Nh\<close> is the 16 bytes of the address union.\<close>

datatype FibPathNhProto = FIB_API_PATH_NH_PROTO_IP4 | FIB_API_PATH_NH_PROTO_IP6 | FIB_API_PATH_NH_PROTO_MPLS
  | FIB_API_PATH_NH_PROTO_ETHERNET | FIB_API_PATH_NH_PROTO_BIER

datatype FibPathType = FIB_API_PATH_TYPE_NORMAL | FIB_API_PATH_TYPE_LOCAL | FIB_API_PATH_TYPE_DROP
  | FIB_API_PATH_TYPE_UDP_ENCAP | FIB_API_PATH_TYPE_BIER_IMP | FIB_API_PATH_TYPE_ICMP_UNREACH
  | FIB_API_PATH_TYPE_ICMP_PROHIBIT | FIB_API_PATH_TYPE_SOURCE_LOOKUP | FIB_API_PATH_TYPE_DVR
  | FIB_API_PATH_TYPE_INTERFACE_RX | FIB_API_PATH_TYPE_CLASSIFY

definition FIB_API_PATH_FLAG_NONE :: u32 where
  "FIB_API_PATH_FLAG_NONE = 0"

definition FIB_API_PATH_FLAG_RESOLVE_VIA_ATTACHED :: u32 where
  "FIB_API_PATH_FLAG_RESOLVE_VIA_ATTACHED = 1"

record FibPath =
  fp_SwIfIndex :: u32
  fp_TableID :: u32
  fp_RpfID :: u32
  fp_Weight :: u8
  fp_Preference :: u8
  fp_Type :: FibPathType
  fp_Flags :: u32
  fp_Proto :: FibPathNhProto
  fp_Nh :: "u8 list"

record IPRoute =
  ir_TableID :: u32
  ir_Prefix :: vpp_prefix
  ir_Paths :: "FibPath list"

record Srv6SidList =
  NumSids :: u8
  SL_Weight :: u32
  Sids :: "ip list"

record SrPolicy =
  SP_Bsid :: ip
  SP_IsSpray :: bool
  SP_IsEncap :: bool
  SP_FibTable :: u32
  SidLists :: "Srv6SidList list"

record SrLocalsid =
  Localsid :: ip
  EndPsp :: bool
  LS_Behavior :: u8
  LS_SwIfIndex :: u32
  VlanIndex :: u32
  LS_FibTable :: u32
  NhAddr :: vpp_address
  LocatorBlockLen :: u8
  LocatorNodeLen :: u8
  FunctionLen :: u8

record SrSteer =
  TrafficType :: u8
  SS_FibTable :: u32
  SS_Prefix :: vpp_prefix
  SS_SwIfIndex :: u32
  SS_Bsid :: ip

text \<open>The tunnels of the connectivity providers.\<close>

record IPIPTunnel =
  ipip_Src :: ip
  ipip_Dst :: ip
  ipip_TableID :: u32
  ipip_SwIfIndex :: u32

record VXLanTunnel =
  vx_SrcAddress :: ip
  vx_DstAddress :: ip
  vx_SrcPort :: u16
  vx_DstPort :: u16
  vx_Vni :: u32
  vx_DecapNextIndex :: u32
  vx_SwIfIndex :: u32

record WireguardTunnel =
  wg_Addr :: ip
  wg_Port :: u16
  wg_SwIfIndex :: u32
  wg_PublicKey :: "u8 list"
  wg_PrivateKey :: "u8 list"

record WireguardPeer =
  wp_Index :: u32
  wp_PublicKey :: "u8 list"
  wp_Port :: u16
  wp_PersistentKeepalive :: int
  wp_TableID :: u32
  wp_Addr :: ip
  wp_SwIfIndex :: u32
  wp_AllowedIps :: "ipnet list"

text \<open>The peer as \<open>AddWireguardPeer\<close> sends it.\<close>

record WireguardPeerMsg =
  wm_PublicKey :: "u8 list"
  wm_Port :: u16
  wm_PersistentKeepalive :: u16
  wm_TableID :: u32
  wm_Endpoint :: vpp_address
  wm_SwIfIndex :: u32
  wm_AllowedIps :: "vpp_prefix list"

datatype api_call =
    IPRouteAddDel bool IPRoute
  | IPRouteDump u32 bool
  | IPRouteLookup u32 vpp_prefix
  | SwInterfaceDump
  | SrSetEncapSource ip
  | SrPolicyAdd ip u32 bool bool u32 Srv6SidList
  | SrPolicyModAdd ip u32 u32 Srv6SidList
  | SrPolicyDel ip
  | SrPoliciesDump
  | SrLocalsidAddDel bool SrLocalsid
  | SrLocalsidAddDelV2 bool SrLocalsid
  | SrLocalsidsDump
  | SrSteeringAddDel bool SrSteer
  | SrSteeringPolDump
  | IpipAddTunnel vpp_address vpp_address u32
  | IpipDelTunnel u32
  | IpipTunnelDump
  | VxlanAddDelTunnelV3 bool VXLanTunnel u32
  | VxlanTunnelV2Dump
  | WireguardInterfaceCreate bool WireguardTunnel
  | WireguardInterfaceDelete u32
  | WireguardInterfaceDump u32
  | WireguardPeerAdd WireguardPeerMsg
  | WireguardPeerRemove u32
  | WireguardPeersDump
  | SwInterfaceSetUnnumbered u32 u32 bool
  | FeatureGsoEnableDisable u32 bool
  | FeatureCnatEnableDisable u32 bool
  | SwInterfaceSetFlags u32 bool
  | SwInterfaceSetTable u32 bool u32
  | AddNodeNextMsg string string
  | CnatSnatExcludePfx bool vpp_prefix

datatype api_reply =
    ApiFailed
  | ApiOk
  | ApiIndex u32
  | ApiRoutes "IPRoute list"
  | ApiLookup "IPRoute option"
  | ApiInterfaces "(u32 \<times> string) list"
  | ApiPolicies "SrPolicy list"
  | ApiLocalsids "SrLocalsid list"
  | ApiSteers "SrSteer list"
  | ApiIPIP "IPIPTunnel list"
  | ApiVXLan "VXLanTunnel list"
  | ApiWgTunnels "WireguardTunnel list"
  | ApiWgPeers "WireguardPeer list"

type_synonym api = "(api_call, api_reply) service"
type_synonym ahist = "(api_call, api_reply) hist"

datatype link_error =
    EApi
  | ENoSidLists
  | EZeroBsid
  | EInterfaceNotFound
  | EBadPrefix
  | EBadVia
  | EBadSid
  | EBsidCollision
  | ENodeAddress
  | EUnknownTunnel
  | ENoNodeIPNet
  | ENoPublicKey
  | EBadKey
  | EMissingWgTunnel
  | ETunnelCount
  | ENodeClient

text \<open>A call with no result besides its error, and a call whose reply carries a value.\<close>

definition api_exec :: "api \<Rightarrow> api_call \<Rightarrow> (ahist, link_error) cmd" where
  "api_exec vpp c h = (case call vpp c h of (r, h') \<Rightarrow> (if r = ApiFailed then Fail EApi else Done, h'))"

definition api_index :: "api \<Rightarrow> api_call \<Rightarrow> ahist \<Rightarrow> u32 option \<times> ahist" where
  "api_index vpp c h = (case call vpp c h of (ApiIndex i, h') \<Rightarrow> (Some i, h') | (_, h') \<Rightarrow> (None, h'))"

section \<open>Routes\<close>

record RoutePath =
  Gw :: ip
  RP_SwIfIndex :: u32
  RP_Table :: u32
  IsAttached :: bool
  RP_Preference :: u8
  RP_RpfID :: u32
  IsDrop :: bool

record VRoute =
  R_Dst :: "ipnet option"
  R_Paths :: "RoutePath list"
  R_Table :: u32
  R_RpfID :: u32

definition zero_path :: RoutePath where
  "zero_path = \<lparr>Gw = [], RP_SwIfIndex = 0, RP_Table = 0, IsAttached = False, RP_Preference = 0, RP_RpfID = 0, IsDrop = False\<rparr>"

definition IsV6toFibProto :: "bool \<Rightarrow> FibPathNhProto" where
  "IsV6toFibProto isv6 = (if isv6 then FIB_API_PATH_NH_PROTO_IP6 else FIB_API_PATH_NH_PROTO_IP4)"

text \<open>The address union of the API: 16 bytes, an IPv4 address in the first four.\<close>

fun address_union :: "vpp_address \<Rightarrow> u8 list" where
  "address_union (ADDRESS_IP6 a) = copy_array 16 a"
| "address_union (ADDRESS_IP4 a) = copy_array 16 a"

definition FromVppIPAddressUnion :: "u8 list \<Rightarrow> bool \<Rightarrow> ip" where
  "FromVppIPAddressUnion un isv6 = (if isv6 then copy_array 16 un else copy_array 4 un)"

definition FromFibPath :: "FibPath \<Rightarrow> RoutePath" where
  "FromFibPath p = zero_path\<lparr>
     Gw := FromVppIPAddressUnion (fp_Nh p) (fp_Proto p = FIB_API_PATH_NH_PROTO_IP6),
     RP_Table := fp_TableID p,
     RP_SwIfIndex := fp_SwIfIndex p,
     IsDrop := (fp_Type p = FIB_API_PATH_TYPE_DROP)\<rparr>"

definition FromFibPathList :: "FibPath list \<Rightarrow> RoutePath list" where
  "FromFibPathList ps = map FromFibPath ps"

definition ToFibPath :: "RoutePath \<Rightarrow> bool \<Rightarrow> FibPath" where
  "ToFibPath p isIP6 =
     (let pathProto = (if Gw p \<noteq> [] then IsV6toFibProto (To4 (Gw p) = None) else IsV6toFibProto isIP6) in
      \<lparr>fp_SwIfIndex = RP_SwIfIndex p, fp_TableID = RP_Table p, fp_RpfID = RP_RpfID p, fp_Weight = 1,
       fp_Preference = RP_Preference p,
       fp_Type = (if IsDrop p then FIB_API_PATH_TYPE_DROP else FIB_API_PATH_TYPE_NORMAL),
       fp_Flags = (if IsAttached p then FIB_API_PATH_FLAG_NONE OR FIB_API_PATH_FLAG_RESOLVE_VIA_ATTACHED
                   else FIB_API_PATH_FLAG_NONE),
       fp_Proto = pathProto,
       fp_Nh = (if Gw p \<noteq> [] then address_union (ToVppAddress (Gw p)) else replicate 16 0)\<rparr>)"

definition ToFibPathList :: "RoutePath list \<Rightarrow> bool \<Rightarrow> FibPath list" where
  "ToFibPathList ps isIP6 = map (\<lambda>p. ToFibPath p isIP6) ps"

definition Route_IsIP6 :: "VRoute \<Rightarrow> bool" where
  "Route_IsIP6 r =
     (case R_Dst r of
        Some d \<Rightarrow> IsIP6 (IPNet_IP d)
      | None \<Rightarrow> (case R_Paths r of p # _ \<Rightarrow> IsIP6 (Gw p) | [] \<Rightarrow> False))"

definition AddrIsZeros :: "ip \<Rightarrow> bool" where
  "AddrIsZeros a = list_all (\<lambda>b. b = 0) a"

definition zero_prefix :: "bool \<Rightarrow> vpp_prefix" where
  "zero_prefix isv6 =
     \<lparr>Pfx_Address = (if isv6 then ADDRESS_IP6 (replicate 16 0) else ADDRESS_IP4 (replicate 4 0)), Pfx_Len = 0\<rparr>"

definition route_msg :: "VRoute \<Rightarrow> IPRoute" where
  "route_msg r =
     (let isIP6 = Route_IsIP6 r in
      \<lparr>ir_TableID = R_Table r,
       ir_Prefix = (case R_Dst r of Some d \<Rightarrow> ToVppPrefix d | None \<Rightarrow> zero_prefix isIP6),
       ir_Paths = ToFibPathList (R_Paths r) isIP6\<rparr>)"

definition addDelIPRoute :: "api \<Rightarrow> VRoute \<Rightarrow> bool \<Rightarrow> (ahist, link_error) cmd" where
  "addDelIPRoute vpp r isAdd = api_exec vpp (IPRouteAddDel isAdd (route_msg r))"

definition RouteAdd :: "api \<Rightarrow> VRoute \<Rightarrow> (ahist, link_error) cmd" where
  "RouteAdd vpp r = addDelIPRoute vpp r True"

definition RouteDel :: "api \<Rightarrow> VRoute \<Rightarrow> (ahist, link_error) cmd" where
  "RouteDel vpp r = addDelIPRoute vpp r False"

definition RoutesAdd :: "api \<Rightarrow> ipnet list \<Rightarrow> RoutePath \<Rightarrow> (ahist, link_error) cmd" where
  "RoutesAdd vpp dsts p =
     foreach (\<lambda>dst. addDelIPRoute vpp \<lparr>R_Dst = Some dst, R_Paths = [p], R_Table = 0, R_RpfID = 0\<rparr> True) dsts"

definition addDelDefaultRouteViaTable :: "api \<Rightarrow> u32 \<Rightarrow> u32 \<Rightarrow> bool \<Rightarrow> bool \<Rightarrow> (ahist, link_error) cmd" where
  "addDelDefaultRouteViaTable vpp sourceTable dstTable isIP6 isAdd =
     addDelIPRoute vpp
       \<lparr>R_Dst = Some \<lparr>IPNet_IP = (if isIP6 then replicate 16 0 else v4InV6Prefix @ [0, 0, 0, 0]), IPNet_Mask = []\<rparr>,
        R_Paths = [zero_path\<lparr>RP_Table := dstTable, RP_SwIfIndex := InvalidID\<rparr>],
        R_Table = sourceTable, R_RpfID = 0\<rparr> isAdd"

definition from_route :: "IPRoute \<Rightarrow> VRoute" where
  "from_route r = \<lparr>R_Dst = Some (FromVppPrefix (ir_Prefix r)), R_Paths = FromFibPathList (ir_Paths r),
     R_Table = ir_TableID r, R_RpfID = 0\<rparr>"

definition GetRoutes :: "api \<Rightarrow> u32 \<Rightarrow> bool \<Rightarrow> ahist \<Rightarrow> VRoute list option \<times> ahist" where
  "GetRoutes vpp tableID isIPv6 h =
     (case call vpp (IPRouteDump tableID isIPv6) h of
        (ApiRoutes rs, h') \<Rightarrow> (Some (map from_route rs), h')
      | (_, h') \<Rightarrow> (None, h'))"

text \<open>The inner option is the nil route of a table without a covering entry.\<close>

definition RouteLookup :: "api \<Rightarrow> ipnet \<Rightarrow> u32 \<Rightarrow> ahist \<Rightarrow> VRoute option option \<times> ahist" where
  "RouteLookup vpp dst tableID h =
     (case call vpp (IPRouteLookup tableID (ToVppPrefix dst)) h of
        (ApiLookup r, h') \<Rightarrow> (Some (map_option from_route r), h')
      | (_, h') \<Rightarrow> (None, h'))"

section \<open>Interfaces\<close>

text \<open>\<open>SearchInterfaceWithName\<close> keeps the last interface of that name.\<close>

definition SearchInterfaceWithName :: "api \<Rightarrow> string \<Rightarrow> ahist \<Rightarrow> (link_error + u32) \<times> ahist" where
  "SearchInterfaceWithName vpp name h =
     (case call vpp SwInterfaceDump h of
        (ApiInterfaces ifs, h') \<Rightarrow>
          (let swIfIndex = foldl (\<lambda>acc (i, n). if n = name then i else acc) InvalidID ifs in
           if swIfIndex = InvalidID then (Inl EInterfaceNotFound, h') else (Inr swIfIndex, h'))
      | (_, h') \<Rightarrow> (Inl EApi, h'))"

definition InterfaceSetUnnumbered :: "api \<Rightarrow> u32 \<Rightarrow> u32 \<Rightarrow> (ahist, link_error) cmd" where
  "InterfaceSetUnnumbered vpp unnumberedSwIfIndex swIfIndex =
     api_exec vpp (SwInterfaceSetUnnumbered unnumberedSwIfIndex swIfIndex True)"

definition EnableGSOFeature :: "api \<Rightarrow> u32 \<Rightarrow> (ahist, link_error) cmd" where
  "EnableGSOFeature vpp swIfIndex = api_exec vpp (FeatureGsoEnableDisable swIfIndex True)"

definition CnatEnableFeatures :: "api \<Rightarrow> u32 \<Rightarrow> (ahist, link_error) cmd" where
  "CnatEnableFeatures vpp swIfIndex = api_exec vpp (FeatureCnatEnableDisable swIfIndex True)"

definition InterfaceAdminUp :: "api \<Rightarrow> u32 \<Rightarrow> (ahist, link_error) cmd" where
  "InterfaceAdminUp vpp swIfIndex = api_exec vpp (SwInterfaceSetFlags swIfIndex True)"

definition SetInterfaceVRF :: "api \<Rightarrow> u32 \<Rightarrow> u32 \<Rightarrow> bool \<Rightarrow> (ahist, link_error) cmd" where
  "SetInterfaceVRF vpp swIfIndex vrfIndex isIP6 = api_exec vpp (SwInterfaceSetTable swIfIndex isIP6 vrfIndex)"

section \<open>SRv6\<close>

definition SrSteerIPv6 :: u8 where
  "SrSteerIPv6 = 6"

definition IsUSID :: "SrLocalsid \<Rightarrow> bool" where
  "IsUSID l \<longleftrightarrow> LocatorBlockLen l \<noteq> 0 \<or> LocatorNodeLen l \<noteq> 0 \<or> FunctionLen l \<noteq> 0"

definition SetEncapSource :: "api \<Rightarrow> ip \<Rightarrow> (ahist, link_error) cmd" where
  "SetEncapSource vpp addr = api_exec vpp (SrSetEncapSource (ToVppIP6Address addr))"

definition ListSRv6Policies :: "api \<Rightarrow> ahist \<Rightarrow> SrPolicy list option \<times> ahist" where
  "ListSRv6Policies vpp h =
     (case call vpp SrPoliciesDump h of (ApiPolicies ps, h') \<Rightarrow> (Some ps, h') | (_, h') \<Rightarrow> (None, h'))"

definition DelSRv6Policy :: "api \<Rightarrow> SrPolicy \<Rightarrow> (ahist, link_error) cmd" where
  "DelSRv6Policy vpp policy = api_exec vpp (SrPolicyDel (SP_Bsid policy))"

text \<open>The lists after the first are appended one by one; when one fails the policy is deleted again.\<close>

fun append_lists :: "api \<Rightarrow> SrPolicy \<Rightarrow> Srv6SidList list \<Rightarrow> (ahist, link_error) cmd" where
  "append_lists vpp policy [] h = (Done, h)"
| "append_lists vpp policy (sl # sls) h =
     (case api_exec vpp (SrPolicyModAdd (SP_Bsid policy) (SP_FibTable policy) (SL_Weight sl) sl) h of
        (Done, h') \<Rightarrow> append_lists vpp policy sls h'
      | (_, h') \<Rightarrow> (case api_exec vpp (SrPolicyDel (SP_Bsid policy)) h' of (_, h'') \<Rightarrow> (Fail EApi, h'')))"

definition AddSRv6Policy :: "api \<Rightarrow> SrPolicy \<Rightarrow> (ahist, link_error) cmd" where
  "AddSRv6Policy vpp policy =
     (case SidLists policy of
        [] \<Rightarrow> fail ENoSidLists
      | first # rest \<Rightarrow>
          if SP_Bsid policy = replicate 16 0 then fail EZeroBsid
          else andthen (api_exec vpp (SrPolicyAdd (SP_Bsid policy) (SL_Weight first) (SP_IsEncap policy)
                         (SP_IsSpray policy) (SP_FibTable policy) first))
                 (append_lists vpp policy rest))"

definition AddModSRv6Policy :: "api \<Rightarrow> SrPolicy \<Rightarrow> (ahist, link_error) cmd" where
  "AddModSRv6Policy vpp policy h =
     (case ListSRv6Policies vpp h of
        (None, h') \<Rightarrow> (Fail EApi, h')
      | (Some l, h') \<Rightarrow>
          andthen (if list_ex (\<lambda>q. SP_Bsid policy = SP_Bsid q) l then DelSRv6Policy vpp policy else skip)
                  (AddSRv6Policy vpp policy) h')"

text \<open>The classic call does not carry the SID structure.\<close>

definition srLocalsidAddDel :: "api \<Rightarrow> SrLocalsid \<Rightarrow> bool \<Rightarrow> (ahist, link_error) cmd" where
  "srLocalsidAddDel vpp l isDel =
     (if IsUSID l then api_exec vpp (SrLocalsidAddDelV2 isDel l)
      else api_exec vpp (SrLocalsidAddDel isDel (l\<lparr>LocatorBlockLen := 0, LocatorNodeLen := 0, FunctionLen := 0\<rparr>)))"

definition AddSRv6Localsid :: "api \<Rightarrow> SrLocalsid \<Rightarrow> (ahist, link_error) cmd" where
  "AddSRv6Localsid vpp l = srLocalsidAddDel vpp l False"

definition DelSRv6Localsid :: "api \<Rightarrow> SrLocalsid \<Rightarrow> (ahist, link_error) cmd" where
  "DelSRv6Localsid vpp l = srLocalsidAddDel vpp l True"

definition AddSRv6Steering :: "api \<Rightarrow> SrSteer \<Rightarrow> (ahist, link_error) cmd" where
  "AddSRv6Steering vpp s = api_exec vpp (SrSteeringAddDel False s)"

definition DelSRv6Steering :: "api \<Rightarrow> SrSteer \<Rightarrow> (ahist, link_error) cmd" where
  "DelSRv6Steering vpp s = api_exec vpp (SrSteeringAddDel True s)"

definition ListSRv6Steering :: "api \<Rightarrow> ahist \<Rightarrow> SrSteer list option \<times> ahist" where
  "ListSRv6Steering vpp h =
     (case call vpp SrSteeringPolDump h of (ApiSteers ss, h') \<Rightarrow> (Some ss, h') | (_, h') \<Rightarrow> (None, h'))"

section \<open>What VPP holds\<close>

text \<open>
  The entry of a table for a prefix: the paths of the last acknowledged addition since it was deleted. An addition
  replaces the paths and a deletion removes the entry, which is what the API does for a request without the
  multipath flag.
\<close>

fun fib_of :: "ahist \<Rightarrow> u32 \<Rightarrow> vpp_prefix \<Rightarrow> FibPath list option" where
  "fib_of [] t p = None"
| "fib_of ((c, r) # h) t p =
     (case c of
        IPRouteAddDel isAdd m \<Rightarrow>
          if r \<noteq> ApiFailed \<and> ir_TableID m = t \<and> ir_Prefix m = p
          then (if isAdd then Some (ir_Paths m) else None) else fib_of h t p
      | _ \<Rightarrow> fib_of h t p)"

text \<open>The segment lists of the policy of a binding SID.\<close>

fun policy_of :: "ahist \<Rightarrow> ip \<Rightarrow> Srv6SidList list option" where
  "policy_of [] b = None"
| "policy_of ((c, r) # h) b =
     (if r = ApiFailed then policy_of h b
      else case c of
        SrPolicyAdd b' w e s t sl \<Rightarrow> if b' = b then Some [sl] else policy_of h b
      | SrPolicyModAdd b' t w sl \<Rightarrow> if b' = b then map_option (\<lambda>l. l @ [sl]) (policy_of h b) else policy_of h b
      | SrPolicyDel b' \<Rightarrow> if b' = b then None else policy_of h b
      | _ \<Rightarrow> policy_of h b)"

text \<open>The binding SID a prefix of a table is steered into. An addition moves an existing steering; a deletion looks
  at the table, the prefix and the traffic type only.\<close>

fun steer_of :: "ahist \<Rightarrow> u32 \<Rightarrow> vpp_prefix \<Rightarrow> u8 \<Rightarrow> ip option" where
  "steer_of [] t p k = None"
| "steer_of ((c, r) # h) t p k =
     (case c of
        SrSteeringAddDel isDel s \<Rightarrow>
          if r \<noteq> ApiFailed \<and> SS_FibTable s = t \<and> SS_Prefix s = p \<and> TrafficType s = k
          then (if isDel then None else Some (SS_Bsid s)) else steer_of h t p k
      | _ \<Rightarrow> steer_of h t p k)"

section \<open>Routes survive their encoding\<close>

lemma length_copy_array [simp]: "length (copy_array n a) = n"
  by (simp add: copy_array_def)

lemma copy_array_twice: "length a = n \<Longrightarrow> n \<le> m \<Longrightarrow> copy_array n (copy_array m a) = a"
  by (simp add: copy_array_def)

lemma wf_Gw: "wf_ip (Gw (FromFibPath p))"
  by (simp add: FromFibPath_def FromVppIPAddressUnion_def wf_ip_def)

text \<open>The path VPP reports for a path the agent sent has its gateway, in four bytes for IPv4, its interface, its
  table and its drop action.\<close>

lemma FromFibPath_ToFibPath:
  assumes "wf_ip (Gw p)"
  shows "FromFibPath (ToFibPath p isIP6) =
    zero_path\<lparr>Gw := (case To4 (Gw p) of Some a4 \<Rightarrow> a4 | None \<Rightarrow> Gw p), RP_Table := RP_Table p,
      RP_SwIfIndex := RP_SwIfIndex p, IsDrop := IsDrop p\<rparr>"
proof -
  have "Gw p \<noteq> []" "To4 (Gw p) = None \<Longrightarrow> length (Gw p) = 16"
    using assms by (auto simp: wf_ip_def To4_def)
  then show ?thesis
    by (auto simp: FromFibPath_def ToFibPath_def FromVppIPAddressUnion_def IsV6toFibProto_def ToVppAddress_def
        copy_array_twice To4_length copy_array_def split: option.split)
qed

lemma FromFibPath_ToFibPath_gw:
  assumes "wf_ip (Gw p)"
  shows "ip_Equal (Gw (FromFibPath (ToFibPath p isIP6))) (Gw p)"
  using assms by (auto simp: FromFibPath_ToFibPath wf_ip_def To4_def ip_Equal_def)

section \<open>A policy is added whole or not at all\<close>

lemma api_exec_eq:
  "api_exec vpp c h = (if vpp h c = ApiFailed then Fail EApi else Done, (c, vpp h c) # h)"
  by (simp add: api_exec_def call_def Let_def)

lemma policy_of_append_lists:
  assumes "append_lists vpp policy sls h = (st, h')" "policy_of h (SP_Bsid policy) = Some l"
  shows "st = Done \<and> policy_of h' (SP_Bsid policy) = Some (l @ sls) \<or>
    st = Fail EApi \<and> (\<exists>c h''. h' = (SrPolicyDel (SP_Bsid policy), c) # h'' \<and>
       (c \<noteq> ApiFailed \<longrightarrow> policy_of h' (SP_Bsid policy) = None))"
  using assms
proof (induction sls arbitrary: h l)
  case (Cons sl sls)
  show ?case
  proof (cases "vpp h (SrPolicyModAdd (SP_Bsid policy) (SP_FibTable policy) (SL_Weight sl) sl) = ApiFailed")
    case True
    then show ?thesis using Cons.prems by (auto simp: api_exec_eq split: if_splits)
  next
    case False
    then show ?thesis
      using Cons.prems Cons.IH [of _ "l @ [sl]"] by (auto simp: api_exec_eq)
  qed
qed simp

lemma policy_of_append_lists_other:
  "append_lists vpp policy sls h = (st, h') \<Longrightarrow> b \<noteq> SP_Bsid policy \<Longrightarrow> policy_of h' b = policy_of h b"
  by (induction sls arbitrary: h) (auto simp: api_exec_eq split: if_splits)

lemma AddSRv6Policy_result:
  assumes "AddSRv6Policy vpp policy h = (st, h')"
  shows "st = Done \<and> policy_of h' (SP_Bsid policy) = Some (SidLists policy) \<or> st \<noteq> Done \<and>
    (policy_of h' (SP_Bsid policy) = policy_of h (SP_Bsid policy) \<or>
      (\<exists>r h''. h' = (SrPolicyDel (SP_Bsid policy), r) # h'' \<and> (r \<noteq> ApiFailed \<longrightarrow> policy_of h' (SP_Bsid policy) = None)))"
proof -
  consider "policy_of h' (SP_Bsid policy) = policy_of h (SP_Bsid policy)" "st \<noteq> Done"
    | first rest h1 where "SidLists policy = first # rest" "append_lists vpp policy rest h1 = (st, h')"
      "policy_of h1 (SP_Bsid policy) = Some [first]"
    using assms
    by (auto simp: AddSRv6Policy_def fail_def andthen_def api_exec_eq split: list.splits if_splits)
  then show ?thesis
  proof cases
    case 2
    then show ?thesis using policy_of_append_lists [OF 2(2,3)] by auto
  qed auto
qed


text \<open>A service that refuses to append a list, and a policy with two lists.\<close>

definition no_append :: api where
  "no_append h c = (case c of SrPolicyModAdd _ _ _ _ \<Rightarrow> ApiFailed | _ \<Rightarrow> ApiOk)"

definition two_lists :: SrPolicy where
  "two_lists = \<lparr>SP_Bsid = 9 # replicate 15 0, SP_IsSpray = False, SP_IsEncap = True, SP_FibTable = 0,
     SidLists = [\<lparr>NumSids = 1, SL_Weight = 1, Sids = []\<rparr>, \<lparr>NumSids = 2, SL_Weight = 1, Sids = []\<rparr>]\<rparr>"

lemma two_lists_run:
  "\<exists>h'. AddSRv6Policy no_append two_lists [] = (Fail EApi, h') \<and> policy_of h' (SP_Bsid two_lists) = None"
  by (simp add: AddSRv6Policy_def two_lists_def andthen_def api_exec_eq no_append_def replicate_numeral)


end
