(* ===== verification/RouteSync.thy ===== *)
theory RouteSync
  imports VppApi "HOL-Library.List_Lexorder" "HOL-Library.Char_ord"
begin

text \<open>
  \<open>srv6egress/internal/routesync\<close>: the program that copies the routes a BGP speaker learnt from the upstream peers
  into the tables of VPP, as plain entries through the peer or, for routes with an SRv6 service SID, as steerings
  into an SRv6 policy (\<open>routesync.go\<close>, \<open>syncer.go\<close>, \<open>vpplinkprog/vpplinkprog.go\<close>,
  \<open>vpplinkprog/service.go\<close>). The routes of the speaker are a parameter, as the decoded document it prints. The
  theory shows what a pass leaves in VPP, that it deletes only entries through a peer, and that it deletes nothing
  when the tables cannot be read.
\<close>

section \<open>Configuration\<close>

record Upstream =
  Peer :: string
  U_Table :: u32
  U_Interface :: string

record Config =
  Upstreams :: "Upstream list"
  ServiceBSIDBlock :: string

datatype config_error = EBlockParse | EBlockNotV6 | EBlockMask | ENoUpstreams | EUpstreamField nat

definition ServiceBSIDNet :: "Config \<Rightarrow> config_error + ipnet option" where
  "ServiceBSIDNet c =
     (if ServiceBSIDBlock c = [] then Inr None
      else case ParseCIDR (ServiceBSIDBlock c) of
             None \<Rightarrow> Inl EBlockParse
           | Some (_, n) \<Rightarrow>
               if To4 (IPNet_IP n) \<noteq> None then Inl EBlockNotV6
               else if fst (Mask_Size (IPNet_Mask n)) > 96 then Inl EBlockMask
               else Inr (Some n))"

text \<open>\<open>LoadConfig\<close> after the document is read and decoded.\<close>

fun check_upstreams :: "nat \<Rightarrow> Upstream list \<Rightarrow> config_error option" where
  "check_upstreams i [] = None"
| "check_upstreams i (u # us) =
     (if Peer u = [] \<or> U_Table u = 0 \<or> U_Interface u = [] then Some (EUpstreamField i) else check_upstreams (Suc i) us)"

definition LoadConfig :: "Config \<Rightarrow> config_error + Config" where
  "LoadConfig c =
     (if Upstreams c = [] then Inl ENoUpstreams
      else case check_upstreams 0 (Upstreams c) of
             Some e \<Rightarrow> Inl e
           | None \<Rightarrow> (case ServiceBSIDNet c of Inl e \<Rightarrow> Inl e | Inr _ \<Rightarrow> Inr c))"

definition byPeer :: "Config \<Rightarrow> (string, Upstream) gomap" where
  "byPeer c = fold (\<lambda>u m. mput (Peer u) u m) (Upstreams c) []"

definition Tables :: "Config \<Rightarrow> u32 list" where
  "Tables c = sort (rev (fold (\<lambda>u out. if U_Table u \<in> set out then out else U_Table u # out) (Upstreams c) []))"

section \<open>Routes\<close>

record SRoute =
  SR_Prefix :: string
  SR_Table :: u32
  SR_Via :: string
  SR_Interface :: string
  SR_ServiceSID :: string

definition IsService :: "SRoute \<Rightarrow> bool" where
  "IsService r \<longleftrightarrow> SR_ServiceSID r \<noteq> []"

definition Key :: "SRoute \<Rightarrow> string" where
  "Key r = show_nat (unat (SR_Table r)) @ ''|'' @ SR_Prefix r @ ''|'' @ SR_ServiceSID r"

text \<open>\<open>fnv.New32a\<close>, \<open>Write\<close> and \<open>Sum32\<close>.\<close>

definition fnv32a :: "u8 list \<Rightarrow> u32" where
  "fnv32a bs = foldl (\<lambda>h b. (h XOR ucast b) * 16777619) 2166136261 bs"

definition DeriveServiceBSID :: "ipnet \<Rightarrow> ip \<Rightarrow> ip" where
  "DeriveServiceBSID block serviceSID =
     (let sum = fnv32a (case To16 serviceSID of None \<Rightarrow> [] | Some a \<Rightarrow> a) in
      take 12 (copy_array 16 (case To16 (IPNet_IP block) of None \<Rightarrow> [] | Some a \<Rightarrow> a)) @
      [ucast (drop_bit 24 sum), ucast (drop_bit 16 sum), ucast (drop_bit 8 sum), ucast sum])"

fun SplitServiceRoutes :: "SRoute list \<Rightarrow> SRoute list \<times> SRoute list" where
  "SplitServiceRoutes [] = ([], [])"
| "SplitServiceRoutes (r # rs) =
     (case SplitServiceRoutes rs of (plain, service) \<Rightarrow>
        if IsService r then (plain, r # service) else (r # plain, service))"

section \<open>The routing information base\<close>

record ribPrefixSIDSubTLV =
  sub_Type :: int
  sub_SID :: "u8 list"

record ribPrefixSIDTLV =
  tlv_Type :: int
  SubTLVs :: "ribPrefixSIDSubTLV list"

record ribAttr =
  attr_Type :: int
  attr_Nexthop :: string
  TLVs :: "ribPrefixSIDTLV list"

record ribPath =
  Best :: bool
  NeighborIP :: string
  Attrs :: "ribAttr list"

definition nexthop :: "ribPath \<Rightarrow> string" where
  "nexthop p =
     (case filter (\<lambda>a. attr_Type a = 14 \<and> attr_Nexthop a \<noteq> []) (Attrs p) of
        a # _ \<Rightarrow> attr_Nexthop a
      | [] \<Rightarrow> NeighborIP p)"

definition serviceSID :: "ribPath \<Rightarrow> string" where
  "serviceSID p =
     (case [sub. a \<leftarrow> Attrs p, attr_Type a = 40, tlv \<leftarrow> TLVs a, tlv_Type tlv = 5,
                 sub \<leftarrow> SubTLVs tlv, sub_Type sub = 1 \<and> length (sub_SID sub) = 16] of
        sub # _ \<Rightarrow> ip_String (sub_SID sub)
      | [] \<Rightarrow> [])"

record RIBEntry =
  Nexthop :: string
  E_ServiceSID :: string

text \<open>What the speaker printed: nothing, a text that does not decode, or a document.\<close>

datatype rib_doc = RibEmpty | RibBad | RibDoc "(string, ribPath list) gomap"

definition bestPath :: "ribPath list \<Rightarrow> ribPath option" where
  "bestPath paths =
     (case filter Best paths of
        p # _ \<Rightarrow> Some p
      | [] \<Rightarrow> (case paths of p # _ \<Rightarrow> Some p | [] \<Rightarrow> None))"

fun parse_entries :: "(string, ribPath list) gomap \<Rightarrow> (string, RIBEntry) gomap \<Rightarrow> (string, RIBEntry) gomap" where
  "parse_entries [] out = out"
| "parse_entries ((prefix, paths) # raw) out =
     parse_entries raw
       (case bestPath paths of
          None \<Rightarrow> out
        | Some best \<Rightarrow>
            if nexthop best \<noteq> [] then mput prefix \<lparr>Nexthop = nexthop best, E_ServiceSID = serviceSID best\<rparr> out
            else out)"

definition ParseRIB :: "rib_doc \<Rightarrow> (string, RIBEntry) gomap option" where
  "ParseRIB d = (case d of RibEmpty \<Rightarrow> Some [] | RibBad \<Rightarrow> None | RibDoc raw \<Rightarrow> Some (parse_entries raw []))"

fun desired_of :: "(string, Upstream) gomap \<Rightarrow> (string, RIBEntry) gomap \<Rightarrow> SRoute list" where
  "desired_of peers [] = []"
| "desired_of peers ((prefix, e) # rib) =
     (case mget peers (Nexthop e) of
        None \<Rightarrow> desired_of peers rib
      | Some up \<Rightarrow>
          \<lparr>SR_Prefix = prefix, SR_Table = U_Table up, SR_Via = Peer up, SR_Interface = U_Interface up,
           SR_ServiceSID = E_ServiceSID e\<rparr> # desired_of peers rib)"

definition DesiredRoutes :: "(string, RIBEntry) gomap \<Rightarrow> Config \<Rightarrow> SRoute list" where
  "DesiredRoutes rib cfg = sort_key Key (desired_of (byPeer cfg) rib)"

section \<open>The difference\<close>

definition by_key :: "SRoute list \<Rightarrow> (string, SRoute) gomap" where
  "by_key rs = fold (\<lambda>r m. mput (Key r) r m) rs []"

definition Reconcile :: "SRoute list \<Rightarrow> SRoute list \<Rightarrow> SRoute list \<times> SRoute list" where
  "Reconcile wanted installed =
     (let d = by_key wanted; i = by_key installed in
      (sort_key Key (map snd (filter (\<lambda>(k, r). \<not> mhas i k) d)),
       sort_key Key (map snd (filter (\<lambda>(k, r). \<not> mhas d k) i))))"

section \<open>Plain routes in VPP\<close>

record Programmer =
  installedPaths :: "(string, RoutePath) gomap"
  svc_block :: "ipnet option"

definition parsePrefix :: "string \<Rightarrow> ipnet option" where
  "parsePrefix s = map_option snd (ParseCIDR s)"

definition resolveIfIndex :: "api \<Rightarrow> string \<Rightarrow> ahist \<Rightarrow> (link_error + u32) \<times> ahist" where
  "resolveIfIndex vpp name h = SearchInterfaceWithName vpp name h"

definition prog_path :: "ip \<Rightarrow> u32 \<Rightarrow> RoutePath" where
  "prog_path gw idx = zero_path\<lparr>Gw := gw, RP_SwIfIndex := idx\<rparr>"

definition prog_Add :: "api \<Rightarrow> SRoute \<Rightarrow> (Programmer \<times> ahist, link_error) cmd" where
  "prog_Add vpp r s =
     (case parsePrefix (SR_Prefix r) of
        None \<Rightarrow> fail EBadPrefix s
      | Some dst \<Rightarrow>
          (case ParseIP (SR_Via r) of
             None \<Rightarrow> fail EBadVia s
           | Some gw \<Rightarrow>
               (case resolveIfIndex vpp (SR_Interface r) (snd s) of
                  (Inl e, h') \<Rightarrow> (Fail e, (fst s, h'))
                | (Inr idx, h') \<Rightarrow>
                    (case RouteAdd vpp \<lparr>R_Dst = Some dst, R_Paths = [prog_path gw idx], R_Table = SR_Table r, R_RpfID = 0\<rparr> h' of
                       (st, h'') \<Rightarrow> (st, (fst s, h''))))))"

definition prog_Del :: "api \<Rightarrow> SRoute \<Rightarrow> (Programmer \<times> ahist, link_error) cmd" where
  "prog_Del vpp r s =
     (case parsePrefix (SR_Prefix r) of
        None \<Rightarrow> fail EBadPrefix s
      | Some dst \<Rightarrow>
          (case (case mget (installedPaths (fst s)) (Key r) of
                   Some path \<Rightarrow> (Inr path, snd s)
                 | None \<Rightarrow>
                     (case ParseIP (SR_Via r) of
                        None \<Rightarrow> (Inl EBadVia, snd s)
                      | Some gw \<Rightarrow>
                          (case resolveIfIndex vpp (SR_Interface r) (snd s) of
                             (Inl e, h') \<Rightarrow> (Inl e, h')
                           | (Inr idx, h') \<Rightarrow> (Inr (prog_path gw idx), h')))) of
             (Inl e, h') \<Rightarrow> (Fail e, (fst s, h'))
           | (Inr path, h') \<Rightarrow>
               (case RouteDel vpp \<lparr>R_Dst = Some dst, R_Paths = [path], R_Table = SR_Table r, R_RpfID = 0\<rparr> h' of
                  (st, h'') \<Rightarrow> (st, (fst s, h'')))))"

text \<open>The first path of an entry through a peer claims the entry.\<close>

definition owned_path :: "(string, Upstream) gomap \<Rightarrow> RoutePath \<Rightarrow> bool" where
  "owned_path peers path \<longleftrightarrow> Gw path \<noteq> [] \<and> mhas peers (ip_String (Gw path))"

definition claimed_route :: "u32 \<Rightarrow> (string, Upstream) gomap \<Rightarrow> ipnet \<Rightarrow> RoutePath \<Rightarrow> SRoute" where
  "claimed_route table peers dst path =
     (let via = ip_String (Gw path) in
      \<lparr>SR_Prefix = ipnet_String dst, SR_Table = table, SR_Via = via,
       SR_Interface = (case mget peers via of Some up \<Rightarrow> U_Interface up | None \<Rightarrow> []),
       SR_ServiceSID = []\<rparr>)"

fun claim_routes :: "u32 \<Rightarrow> (string, Upstream) gomap \<Rightarrow> VRoute list \<Rightarrow> (string, RoutePath) gomap \<Rightarrow>
    SRoute list \<times> (string, RoutePath) gomap" where
  "claim_routes table peers [] paths = ([], paths)"
| "claim_routes table peers (vr # vrs) paths =
     (case (R_Dst vr, filter (owned_path peers) (R_Paths vr)) of
        (Some dst, path # _) \<Rightarrow>
          (let route = claimed_route table peers dst path in
           case claim_routes table peers vrs (mput (Key route) path paths) of
             (owned, paths') \<Rightarrow> (route # owned, paths'))
      | _ \<Rightarrow> claim_routes table peers vrs paths)"

definition HasPrefix :: "string \<Rightarrow> string \<Rightarrow> bool" where
  "HasPrefix s pre = (take (length pre) s = pre)"

definition InstalledRoutes :: "api \<Rightarrow> u32 \<Rightarrow> (string, Upstream) gomap \<Rightarrow> Programmer \<times> ahist \<Rightarrow>
    SRoute list option \<times> Programmer \<times> ahist" where
  "InstalledRoutes vpp table peers s =
     (case GetRoutes vpp table True (snd s) of
        (None, h') \<Rightarrow> (None, fst s, h')
      | (Some vppRoutes, h') \<Rightarrow>
          (let kept = filter (\<lambda>(k, _). \<not> HasPrefix k (show_nat (unat table) @ ''|'')) (installedPaths (fst s)) in
           case claim_routes table peers vppRoutes kept of
             (owned, paths) \<Rightarrow> (Some owned, (fst s)\<lparr>installedPaths := paths\<rparr>, h')))"

section \<open>Service routes in VPP\<close>

text \<open>The last segment of the first list of a policy.\<close>

definition last_sid :: "Srv6SidList list \<Rightarrow> ip option" where
  "last_sid sls =
     (case sls of
        [] \<Rightarrow> None
      | sl # _ \<Rightarrow> if NumSids sl = 0 then None else Some (Sids sl ! (unat (NumSids sl) - 1)))"

definition servicePolicies :: "api \<Rightarrow> ipnet \<Rightarrow> ahist \<Rightarrow> (string, ip) gomap option \<times> ahist" where
  "servicePolicies vpp block h =
     (case ListSRv6Policies vpp h of
        (None, h') \<Rightarrow> (None, h')
      | (Some policies, h') \<Rightarrow>
          (Some (fold (\<lambda>pol out. if \<not> Contains block (SP_Bsid pol) then out
                         else case last_sid (SidLists pol) of None \<Rightarrow> out | Some sid \<Rightarrow> mput (ip_String (SP_Bsid pol)) sid out)
                   policies []), h'))"

text \<open>The textual form of a prefix in the generated bindings (\<open>ip_types\<close>).\<close>

definition NewAddress :: "ip \<Rightarrow> vpp_address" where
  "NewAddress a =
     (case To4 a of
        None \<Rightarrow> ADDRESS_IP6 (copy_array 16 (case To16 a of None \<Rightarrow> [] | Some b \<Rightarrow> b))
      | Some a4 \<Rightarrow> ADDRESS_IP4 (copy_array 4 a4))"

definition ParsePrefix :: "string \<Rightarrow> vpp_prefix option" where
  "ParsePrefix s =
     (if CHR ''/'' \<in> set s then
        (case ParseCIDR s of
           None \<Rightarrow> None
         | Some (netIP, network) \<Rightarrow>
             map_option (\<lambda>a. \<lparr>Pfx_Address = NewAddress a, Pfx_Len = of_nat (fst (Mask_Size (IPNet_Mask network)))\<rparr>)
               (ParseIP (ip_String netIP)))
      else
        map_option (\<lambda>a. \<lparr>Pfx_Address = NewAddress a, Pfx_Len = (if To4 a = None then 128 else 32)\<rparr>) (ParseIP s))"

definition Prefix_String :: "vpp_prefix \<Rightarrow> string" where
  "Prefix_String p = ip_String (FromVppAddress (Pfx_Address p)) @ ''/'' @ show_nat (unat (Pfx_Len p))"

definition service_steer :: "u32 \<Rightarrow> vpp_prefix \<Rightarrow> ip \<Rightarrow> SrSteer" where
  "service_steer table prefix bsid =
     \<lparr>TrafficType = SrSteerIPv6, SS_FibTable = table, SS_Prefix = prefix, SS_SwIfIndex = 0, SS_Bsid = bsid\<rparr>"

definition service_policy :: "ip \<Rightarrow> ip \<Rightarrow> SrPolicy" where
  "service_policy bsid sid =
     \<lparr>SP_Bsid = bsid, SP_IsSpray = False, SP_IsEncap = True, SP_FibTable = 0,
      SidLists = [\<lparr>NumSids = 1, SL_Weight = 1, Sids = ToVppIP6Address sid # replicate 15 (replicate 16 0)\<rparr>]\<rparr>"

definition AddService :: "api \<Rightarrow> ipnet \<Rightarrow> SRoute \<Rightarrow> (ahist, link_error) cmd" where
  "AddService vpp block r h =
     (case ParseIP (SR_ServiceSID r) of
        None \<Rightarrow> fail EBadSid h
      | Some sid \<Rightarrow>
          if To4 sid \<noteq> None then fail EBadSid h
          else (case parsePrefix (SR_Prefix r) of
             None \<Rightarrow> fail EBadPrefix h
           | Some dst \<Rightarrow>
               (let bsid = DeriveServiceBSID block sid in
                case servicePolicies vpp block h of
                  (None, h') \<Rightarrow> (Fail EApi, h')
                | (Some existing, h') \<Rightarrow>
                    andthen
                      (case mget existing (ip_String bsid) of
                         Some cur \<Rightarrow> if ip_Equal cur sid then skip else fail EBsidCollision
                       | None \<Rightarrow> AddSRv6Policy vpp (service_policy (ToVppIP6Address bsid) sid))
                      (case ParsePrefix (ipnet_String dst) of
                         None \<Rightarrow> fail EBadPrefix
                       | Some prefix \<Rightarrow>
                           AddSRv6Steering vpp (service_steer (SR_Table r) prefix (ToVppIP6Address bsid))) h')))"

definition DelService :: "api \<Rightarrow> ipnet \<Rightarrow> SRoute \<Rightarrow> (ahist, link_error) cmd" where
  "DelService vpp block r h =
     (case ParseIP (SR_ServiceSID r) of
        None \<Rightarrow> fail EBadSid h
      | Some sid \<Rightarrow>
          (case parsePrefix (SR_Prefix r) of
             None \<Rightarrow> fail EBadPrefix h
           | Some dst \<Rightarrow>
               (let bsid = ToVppIP6Address (DeriveServiceBSID block sid) in
                case ParsePrefix (ipnet_String dst) of
                  None \<Rightarrow> fail EBadPrefix h
                | Some prefix \<Rightarrow>
                andthen (DelSRv6Steering vpp (service_steer (SR_Table r) prefix bsid))
                  (\<lambda>h1. case ListSRv6Steering vpp h1 of
                          (None, h2) \<Rightarrow> (Fail EApi, h2)
                        | (Some steers, h2) \<Rightarrow>
                            if list_ex (\<lambda>st. SS_Bsid st = bsid) steers then (Done, h2)
                            else DelSRv6Policy vpp (service_policy bsid sid) h2) h)))"

fun owned_services :: "ipnet \<Rightarrow> u32 \<Rightarrow> (string, ip) gomap \<Rightarrow> SrSteer list \<Rightarrow> SRoute list" where
  "owned_services block table policies [] = []"
| "owned_services block table policies (st # steers) =
     (if SS_FibTable st \<noteq> table \<or> TrafficType st \<noteq> SrSteerIPv6 \<or> \<not> Contains block (SS_Bsid st)
      then owned_services block table policies steers
      else case (mget policies (ip_String (SS_Bsid st)), parsePrefix (Prefix_String (SS_Prefix st))) of
             (Some sid, Some dst) \<Rightarrow>
               \<lparr>SR_Prefix = ipnet_String dst, SR_Table = table, SR_Via = [], SR_Interface = [],
                SR_ServiceSID = ip_String sid\<rparr> # owned_services block table policies steers
           | _ \<Rightarrow> owned_services block table policies steers)"

definition InstalledServiceRoutes :: "api \<Rightarrow> ipnet \<Rightarrow> u32 \<Rightarrow> ahist \<Rightarrow> SRoute list option \<times> ahist" where
  "InstalledServiceRoutes vpp block table h =
     (case servicePolicies vpp block h of
        (None, h') \<Rightarrow> (None, h')
      | (Some policies, h') \<Rightarrow>
          (case ListSRv6Steering vpp h' of
             (None, h'') \<Rightarrow> (None, h'')
           | (Some steers, h'') \<Rightarrow> (Some (owned_services block table policies steers), h'')))"

section \<open>A pass of the synchroniser\<close>

fun installed_tables :: "(u32 \<Rightarrow> 's \<Rightarrow> SRoute list option \<times> 's) \<Rightarrow> u32 list \<Rightarrow> 's \<Rightarrow> SRoute list option \<times> 's" where
  "installed_tables get [] s = (Some [], s)"
| "installed_tables get (t # ts) s =
     (case get t s of
        (None, s') \<Rightarrow> (None, s')
      | (Some rs, s') \<Rightarrow>
          (case installed_tables get ts s' of
             (None, s'') \<Rightarrow> (None, s'')
           | (Some rss, s'') \<Rightarrow> (Some (rs @ rss), s'')))"

text \<open>An error of one route is logged and the loop goes on.\<close>

fun each_route :: "(SRoute \<Rightarrow> ('s, link_error) cmd) \<Rightarrow> SRoute list \<Rightarrow> 's \<Rightarrow> 's" where
  "each_route f [] s = s"
| "each_route f (r # rs) s = each_route f rs (snd (f r s))"

definition installedFromVPP :: "api \<Rightarrow> Config \<Rightarrow> Programmer \<times> ahist \<Rightarrow> SRoute list option \<times> Programmer \<times> ahist" where
  "installedFromVPP vpp cfg s = installed_tables (\<lambda>t. InstalledRoutes vpp t (byPeer cfg)) (Tables cfg) s"

definition reconcileServices :: "api \<Rightarrow> Config \<Rightarrow> SRoute list \<Rightarrow> Programmer \<times> ahist \<Rightarrow> Programmer \<times> ahist" where
  "reconcileServices vpp cfg wanted s =
     (case svc_block (fst s) of
        None \<Rightarrow> s
      | Some block \<Rightarrow>
          (case installed_tables (InstalledServiceRoutes vpp block) (Tables cfg) (snd s) of
             (None, h') \<Rightarrow> (fst s, h')
           | (Some installed, h') \<Rightarrow>
               (case Reconcile wanted installed of
                  (add, del) \<Rightarrow>
                    (fst s, each_route (DelService vpp block) del (each_route (AddService vpp block) add h')))))"

text \<open>\<open>None\<close> is a fetch that failed.\<close>

definition reconcileOnce :: "api \<Rightarrow> Config \<Rightarrow> rib_doc option \<Rightarrow> Programmer \<times> ahist \<Rightarrow> Programmer \<times> ahist" where
  "reconcileOnce vpp cfg fetched s =
     (case fetched of
        None \<Rightarrow> s
      | Some raw \<Rightarrow>
          (case ParseRIB raw of
             None \<Rightarrow> s
           | Some rib \<Rightarrow>
               (case SplitServiceRoutes (DesiredRoutes rib cfg) of
                  (plain, services) \<Rightarrow>
                    (case installedFromVPP vpp cfg s of
                       (None, s') \<Rightarrow> s'
                     | (Some installed, s') \<Rightarrow>
                         (case Reconcile plain installed of
                            (add, del) \<Rightarrow>
                              reconcileServices vpp cfg services
                                (each_route (prog_Del vpp) del (each_route (prog_Add vpp) add s')))))))"

text \<open>\<open>Run\<close>: a pass at once and one at every tick.\<close>

fun sync_run :: "api \<Rightarrow> Config \<Rightarrow> rib_doc option list \<Rightarrow> Programmer \<times> ahist \<Rightarrow> Programmer \<times> ahist" where
  "sync_run vpp cfg [] s = s"
| "sync_run vpp cfg (f # fs) s = sync_run vpp cfg fs (reconcileOnce vpp cfg f s)"

section \<open>The difference is exact\<close>

lemma fold_mput_keys: "set (mkeys (fold (\<lambda>r m. mput (f r) (g r) m) rs m)) = set (mkeys m) \<union> f ` set rs"
  by (induction rs arbitrary: m) auto

lemma fold_mput_wf: "wf_map m \<Longrightarrow> wf_map (fold (\<lambda>r m. mput (f r) (g r) m) rs m)"
  by (induction rs arbitrary: m) auto

lemma fold_mput_entry:
  "mget (fold (\<lambda>r m. mput (f r) (g r) m) rs m) k = Some v \<Longrightarrow> mget m k = Some v \<or> (\<exists>r \<in> set rs. f r = k \<and> g r = v)"
proof (induction rs arbitrary: m)
  case (Cons a rs)
  then show ?case using Cons.IH [of "mput (f a) (g a) m"] by (auto split: if_splits)
qed simp

lemma by_key_props:
  "wf_map (by_key rs)" "mhas (by_key rs) k \<longleftrightarrow> k \<in> Key ` set rs"
  "(k, r) \<in> set (by_key rs) \<Longrightarrow> Key r = k \<and> r \<in> set rs"
proof -
  show w: "wf_map (by_key rs)" unfolding by_key_def by (rule fold_mput_wf) simp
  show "mhas (by_key rs) k \<longleftrightarrow> k \<in> Key ` set rs"
    unfolding by_key_def mhas_iff fold_mput_keys [where g = "\<lambda>r. r"] by simp
  show "Key r = k \<and> r \<in> set rs" if "(k, r) \<in> set (by_key rs)"
    using that w fold_mput_entry [of Key "\<lambda>r. r" rs "[]" k r] by (auto simp: wf_map_in_iff by_key_def)
qed

text \<open>The entries of one side whose key the other side does not have.\<close>

definition diff_side :: "SRoute list \<Rightarrow> SRoute list \<Rightarrow> SRoute list" where
  "diff_side xs ys = sort_key Key (map snd (filter (\<lambda>(k, r). \<not> mhas (by_key ys) k) (by_key xs)))"

lemma Reconcile_sides: "Reconcile wanted installed = (diff_side wanted installed, diff_side installed wanted)"
  by (simp add: Reconcile_def diff_side_def Let_def)

lemma diff_side_props:
  shows "set (diff_side xs ys) \<subseteq> set xs" "Key ` set (diff_side xs ys) = Key ` set xs - Key ` set ys"
    "sorted (map Key (diff_side xs ys))" "distinct (map Key (diff_side xs ys))"
proof -
  let ?m = "filter (\<lambda>(k, r). \<not> mhas (by_key ys) k) (by_key xs)"
  show "set (diff_side xs ys) \<subseteq> set xs"
    using by_key_props(3) [of _ _ xs] by (auto simp: diff_side_def)
  have "Key ` set (diff_side xs ys) = fst ` set ?m"
  proof -
    have "set (diff_side xs ys) = snd ` set ?m" by (simp add: diff_side_def)
    moreover have "Key (snd e) = fst e" if "e \<in> set ?m" for e
      using that by_key_props(3) [of "fst e" "snd e" xs] by simp
    ultimately show ?thesis by (simp add: image_image)
  qed
  also have "\<dots> = Key ` set xs - Key ` set ys"
  proof -
    have "fst ` set (by_key xs) = Key ` set xs"
      using by_key_props(2) [of xs] by (auto simp: mhas_iff mkeys_def set_eq_iff)
    moreover have "fst ` set ?m = {k \<in> fst ` set (by_key xs). \<not> mhas (by_key ys) k}"
      by (auto simp: image_iff) 
    ultimately show ?thesis by (auto simp: by_key_props(2))
  qed
  finally show "Key ` set (diff_side xs ys) = Key ` set xs - Key ` set ys" .
  show "sorted (map Key (diff_side xs ys))" by (simp add: diff_side_def)
  have "map Key (map snd ?m) = map fst ?m"
    using by_key_props(3) [of _ _ xs] by auto
  moreover have "distinct (map fst ?m)"
    using by_key_props(1) [of xs] by (simp add: wf_map_def mkeys_def distinct_map_filter)
  ultimately have "distinct (map Key (map snd ?m))" by metis
  then show "distinct (map Key (diff_side xs ys))"
    unfolding diff_side_def distinct_map [of Key] by (simp only: distinct_sort set_sort)
qed

text \<open>\<open>Reconcile\<close> computes the exact difference by key. The routes to add are wanted routes, one for each key
  that is wanted and not installed; the routes to delete are installed routes, one for each key that is installed
  and not wanted; both come in the strict order of their keys.\<close>

theorem Reconcile_exact:
  "case Reconcile wanted installed of (add, del) \<Rightarrow>
     set add \<subseteq> set wanted \<and> set del \<subseteq> set installed \<and>
     Key ` set add = Key ` set wanted - Key ` set installed \<and>
     Key ` set del = Key ` set installed - Key ` set wanted \<and>
     sorted_wrt (<) (map Key add) \<and> sorted_wrt (<) (map Key del)"
  by (simp add: Reconcile_sides diff_side_props strict_sorted_iff)

section \<open>Keys and networks\<close>

lemma append_sep_inj:
  "c \<notin> set xs \<Longrightarrow> c \<notin> set ys \<Longrightarrow> xs @ c # us = ys @ c # vs \<longleftrightarrow> xs = ys \<and> us = vs"
  by (induction xs arbitrary: ys) (case_tac ys; auto)+

lemma Key_eq_iff:
  assumes "CHR ''|'' \<notin> set (SR_Prefix r)" "CHR ''|'' \<notin> set (SR_Prefix q)"
  shows "Key r = Key q \<longleftrightarrow> SR_Table r = SR_Table q \<and> SR_Prefix r = SR_Prefix q \<and> SR_ServiceSID r = SR_ServiceSID q"
proof -
  have n: "CHR ''|'' \<notin> set (show_nat k)" for k using show_nat_not_sep by blast
  show ?thesis
    using append_sep_inj [OF n n] append_sep_inj [OF assms] by (auto simp: Key_def show_nat_inj word_unat_eq_iff)
qed

text \<open>An IPv6 network with its host bits cleared, outside the range of the IPv4-mapped addresses.\<close>

definition v6_net :: "ipnet \<Rightarrow> bool" where
  "v6_net n \<longleftrightarrow> canonical_net n \<and> length (IPNet_IP n) = 16"

lemma v6_net_String:
  assumes "v6_net n"
  shows "parsePrefix (ipnet_String n) = Some n" "CHR ''|'' \<notin> set (ipnet_String n)"
    "FromVppPrefix (ToVppPrefix n) = n" "IsIP6 (IPNet_IP n)"
proof -
  have c: "canonical_net n" "wf_ip (IPNet_IP n)" "To4 (IPNet_IP n) = None"
    using assms by (auto simp: v6_net_def canonical_net_def wf_ip_def)
  show "parsePrefix (ipnet_String n) = Some n"
    using ParseCIDR_ipnet_String [OF c(1)] by (auto simp: parsePrefix_def)
  show "CHR ''|'' \<notin> set (ipnet_String n)"
    using ip_String_chars [OF c(2)] show_nat_not_sep by (fastforce simp: ipnet_String_canonical [OF c(1)])
  show "FromVppPrefix (ToVppPrefix n) = n"
    using vpp_prefix_roundtrip c by (simp add: canonical_net_def)
  show "IsIP6 (IPNet_IP n)" using assms c by (simp add: IsIP6_def v6_net_def)
qed

lemma ipnet_String_v6_inj: "v6_net m \<Longrightarrow> v6_net n \<Longrightarrow> ipnet_String m = ipnet_String n \<longleftrightarrow> m = n"
  by (simp add: ipnet_String_inj v6_net_def)

section \<open>What the program owns in VPP\<close>

text \<open>The entries with a path through a peer, as pairs of a table and a prefix.\<close>

definition owned_entry :: "(string, Upstream) gomap \<Rightarrow> FibPath list \<Rightarrow> bool" where
  "owned_entry peers ps \<longleftrightarrow> list_ex (owned_path peers) (FromFibPathList ps)"

definition owned_fib :: "(string, Upstream) gomap \<Rightarrow> ahist \<Rightarrow> (u32 \<times> vpp_prefix) set" where
  "owned_fib peers h = {(t, p). \<exists>ps. fib_of h t p = Some ps \<and> owned_entry peers ps}"

definition rt_id :: "SRoute \<Rightarrow> u32 \<times> vpp_prefix" where
  "rt_id r = (SR_Table r, ToVppPrefix (the (parsePrefix (SR_Prefix r))))"

text \<open>A plain route whose prefix is spelt as Go prints it and whose next hop is a peer.\<close>

definition plain_ok :: "(string, Upstream) gomap \<Rightarrow> SRoute \<Rightarrow> bool" where
  "plain_ok peers r \<longleftrightarrow> (\<exists>n. v6_net n \<and> SR_Prefix r = ipnet_String n) \<and> SR_ServiceSID r = [] \<and>
     (\<exists>gw. ParseIP (SR_Via r) = Some gw \<and> mhas peers (ip_String gw))"

lemma plain_ok_Key_iff:
  assumes "plain_ok peers r" "plain_ok peers q"
  shows "Key r = Key q \<longleftrightarrow> rt_id r = rt_id q"
proof -
  obtain n m where n: "v6_net n" "SR_Prefix r = ipnet_String n" and m: "v6_net m" "SR_Prefix q = ipnet_String m"
    using assms by (auto simp: plain_ok_def)
  have "ToVppPrefix n = ToVppPrefix m \<longleftrightarrow> n = m" using v6_net_String(3) n(1) m(1) by metis
  then show ?thesis
    using assms n m Key_eq_iff [of r q] v6_net_String [OF n(1)] v6_net_String [OF m(1)] ipnet_String_v6_inj [OF n(1) m(1)]
    by (simp add: rt_id_def plain_ok_def)
qed

text \<open>
  The contract between the synchroniser and a backend for plain routes: an addition that succeeds makes the route
  owned, a deletion that succeeds takes it away, and a call that fails changes nothing.
\<close>

locale route_backend =
  fixes add del :: "SRoute \<Rightarrow> ('s, link_error) cmd"
    and owned :: "'s \<Rightarrow> (u32 \<times> vpp_prefix) set"
    and ok :: "SRoute \<Rightarrow> bool"
  assumes add_done: "add r s = (Done, s') \<Longrightarrow> ok r \<Longrightarrow> owned s' = insert (rt_id r) (owned s)"
    and add_fail: "add r s = (st, s') \<Longrightarrow> st \<noteq> Done \<Longrightarrow> owned s' = owned s"
    and del_done: "del r s = (Done, s') \<Longrightarrow> ok r \<Longrightarrow> owned s' = owned s - {rt_id r}"
    and del_fail: "del r s = (st, s') \<Longrightarrow> st \<noteq> Done \<Longrightarrow> owned s' = owned s"
begin

lemma each_add_bounds:
  "list_all ok rs \<Longrightarrow> owned s \<subseteq> owned (each_route add rs s) \<and> owned (each_route add rs s) \<subseteq> owned s \<union> rt_id ` set rs"
proof (induction rs arbitrary: s)
  case (Cons r rs)
  obtain st s' where r: "add r s = (st, s')" by (cases "add r s")
  have "owned s' = insert (rt_id r) (owned s) \<or> owned s' = owned s"
    using add_done [OF _, of r s s'] add_fail [OF r] r Cons.prems by (cases "st = Done") auto
  with Cons.IH [of s'] Cons.prems r show ?case by auto
qed simp

lemma each_add_done:
  "list_all ok rs \<Longrightarrow> (\<And>r s. r \<in> set rs \<Longrightarrow> fst (add r s) = Done) \<Longrightarrow>
   owned (each_route add rs s) = owned s \<union> rt_id ` set rs"
proof (induction rs arbitrary: s)
  case (Cons r rs)
  obtain s' where r: "add r s = (Done, s')" using Cons.prems(2) [of r s] by (cases "add r s") auto
  with Cons.IH [of s'] Cons.prems add_done [OF r] show ?case by auto
qed simp

lemma each_del_bounds:
  "list_all ok rs \<Longrightarrow> owned s - rt_id ` set rs \<subseteq> owned (each_route del rs s) \<and> owned (each_route del rs s) \<subseteq> owned s"
proof (induction rs arbitrary: s)
  case (Cons r rs)
  obtain st s' where r: "del r s = (st, s')" by (cases "del r s")
  have "owned s' = owned s - {rt_id r} \<or> owned s' = owned s"
    using del_done [OF _, of r s s'] del_fail [OF r] r Cons.prems by (cases "st = Done") auto
  with Cons.IH [of s'] Cons.prems r show ?case by auto
qed simp

lemma each_del_done:
  "list_all ok rs \<Longrightarrow> (\<And>r s. r \<in> set rs \<Longrightarrow> fst (del r s) = Done) \<Longrightarrow>
   owned (each_route del rs s) = owned s - rt_id ` set rs"
proof (induction rs arbitrary: s)
  case (Cons r rs)
  obtain s' where r: "del r s = (Done, s')" using Cons.prems(2) [of r s] by (cases "del r s") auto
  with Cons.IH [of s'] Cons.prems del_done [OF r] show ?case by auto
qed simp

end

lemma SearchInterface_fib: "SearchInterfaceWithName vpp name h = (x, h') \<Longrightarrow> fib_of h' = fib_of h"
  by (auto simp: SearchInterfaceWithName_def call_def Let_def fun_eq_iff split: api_reply.splits if_splits)

lemma RouteAdd_eq: "RouteAdd vpp r h = api_exec vpp (IPRouteAddDel True (route_msg r)) h"
  "RouteDel vpp r h = api_exec vpp (IPRouteAddDel False (route_msg r)) h"
  by (simp_all add: RouteAdd_def RouteDel_def addDelIPRoute_def)

text \<open>What an addition and a deletion do to the history.\<close>

lemma prog_Add_cases:
  assumes "prog_Add vpp r (P, h) = (st, s')"
  obtains (early) h' where "s' = (P, h')" "st \<noteq> Done" "fib_of h' = fib_of h"
  | (sent) h1 n gw idx where "parsePrefix (SR_Prefix r) = Some n" "ParseIP (SR_Via r) = Some gw" "fib_of h1 = fib_of h"
      "s' = (P, (IPRouteAddDel True (route_msg \<lparr>R_Dst = Some n, R_Paths = [prog_path gw idx], R_Table = SR_Table r, R_RpfID = 0\<rparr>),
        if st = Done then vpp h1 (IPRouteAddDel True (route_msg \<lparr>R_Dst = Some n, R_Paths = [prog_path gw idx], R_Table = SR_Table r, R_RpfID = 0\<rparr>))
        else ApiFailed) # h1)"
      "st = Done \<Longrightarrow> vpp h1 (IPRouteAddDel True (route_msg \<lparr>R_Dst = Some n, R_Paths = [prog_path gw idx], R_Table = SR_Table r, R_RpfID = 0\<rparr>)) \<noteq> ApiFailed"
  using assms SearchInterface_fib [of vpp "SR_Interface r" h]
  by (auto simp: prog_Add_def fail_def resolveIfIndex_def RouteAdd_eq api_exec_eq
      split: option.splits prod.splits sum.splits if_splits)

lemma prog_Del_cases:
  assumes "prog_Del vpp r (P, h) = (st, s')"
  obtains (early) h' where "s' = (P, h')" "st \<noteq> Done" "fib_of h' = fib_of h"
  | (sent) h1 n path where "parsePrefix (SR_Prefix r) = Some n" "fib_of h1 = fib_of h"
      "s' = (P, (IPRouteAddDel False (route_msg \<lparr>R_Dst = Some n, R_Paths = [path], R_Table = SR_Table r, R_RpfID = 0\<rparr>),
        if st = Done then vpp h1 (IPRouteAddDel False (route_msg \<lparr>R_Dst = Some n, R_Paths = [path], R_Table = SR_Table r, R_RpfID = 0\<rparr>))
        else ApiFailed) # h1)"
      "st = Done \<Longrightarrow> vpp h1 (IPRouteAddDel False (route_msg \<lparr>R_Dst = Some n, R_Paths = [path], R_Table = SR_Table r, R_RpfID = 0\<rparr>)) \<noteq> ApiFailed"
  using assms SearchInterface_fib [of vpp "SR_Interface r" h]
  by (auto simp: prog_Del_def fail_def resolveIfIndex_def RouteAdd_eq api_exec_eq
      split: option.splits prod.splits sum.splits if_splits)

lemma Gw_prog_path [simp]: "Gw (prog_path gw idx) = gw"
  by (simp add: prog_path_def)

lemma owned_prog_path:
  assumes "ParseIP via = Some gw" "mhas peers (ip_String gw)"
  shows "owned_entry peers [ToFibPath (prog_path gw idx) v6]"
proof -
  have l: "length gw = 16" using ParseIP_length assms(1) by blast
  then have wf: "wf_ip gw" by (simp add: wf_ip_def)
  let ?g = "Gw (FromFibPath (ToFibPath (prog_path gw idx) v6))"
  have g: "?g = (case To4 gw of Some a4 \<Rightarrow> a4 | None \<Rightarrow> gw)"
    using FromFibPath_ToFibPath [of "prog_path gw idx" v6] wf by (simp add: zero_path_def split: option.split)
  then have "wf_ip ?g" using wf To4_length by (auto simp: wf_ip_def split: option.splits)
  moreover have "ip_Equal ?g gw"
    using FromFibPath_ToFibPath_gw [of "prog_path gw idx" v6] wf by simp
  ultimately have "ip_String ?g = ip_String gw" "?g \<noteq> []"
    using ip_String_eq_iff wf by (auto simp: wf_ip_def)
  with assms(2) show ?thesis by (simp add: owned_entry_def FromFibPathList_def owned_path_def)
qed

lemma owned_fib_eqI: "fib_of h' = fib_of h \<Longrightarrow> owned_fib peers h' = owned_fib peers h"
  by (simp add: owned_fib_def)

interpretation plain: route_backend "prog_Add vpp" "prog_Del vpp" "\<lambda>s. owned_fib peers (snd s)" "plain_ok peers"
  for vpp :: api and peers
proof (unfold_locales, goal_cases)
  case (1 r s s')
  then obtain P h where s: "s = (P, h)" by (cases s)
  from 1(2) obtain n where n: "v6_net n" "SR_Prefix r = ipnet_String n" by (auto simp: plain_ok_def)
  from 1(2) obtain gw0 where gw0: "ParseIP (SR_Via r) = Some gw0" "mhas peers (ip_String gw0)" by (auto simp: plain_ok_def)
  from 1(1) [unfolded s] show ?case
  proof (cases rule: prog_Add_cases)
    case (sent h1 m gw idx)
    have "m = n" "gw = gw0" using sent n v6_net_String(1) gw0 by auto
    then show ?thesis
      using sent n owned_prog_path [OF gw0] v6_net_String [OF n(1)]
      by (auto simp: s owned_fib_def route_msg_def rt_id_def ToFibPathList_def Let_def Route_IsIP6_def)
  qed (auto simp: s)
next
  case (2 r s st s')
  then obtain P h where s: "s = (P, h)" by (cases s)
  from 2(1) [unfolded s] 2(2) show ?case
    by (cases rule: prog_Add_cases) (auto simp: s owned_fib_def)
next
  case (3 r s s')
  then obtain P h where s: "s = (P, h)" by (cases s)
  from 3(2) obtain n where n: "v6_net n" "SR_Prefix r = ipnet_String n" by (auto simp: plain_ok_def)
  from 3(1) [unfolded s] show ?case
  proof (cases rule: prog_Del_cases)
    case (sent h1 m path)
    have "m = n" using sent n v6_net_String(1) by auto
    then show ?thesis
      using sent n v6_net_String [OF n(1)]
      by (auto simp: s owned_fib_def route_msg_def rt_id_def Let_def)
  qed (auto simp: s)
next
  case (4 r s st s')
  then obtain P h where s: "s = (P, h)" by (cases s)
  from 4(1) [unfolded s] 4(2) show ?case
    by (cases rule: prog_Del_cases) (auto simp: s owned_fib_def)
qed

section \<open>Reading the tables\<close>

definition v6_prefix :: "vpp_prefix \<Rightarrow> bool" where
  "v6_prefix p \<longleftrightarrow> v6_net (FromVppPrefix p) \<and> ToVppPrefix (FromVppPrefix p) = p"

lemma v6_prefix_ToVpp: "v6_net n \<Longrightarrow> v6_prefix (ToVppPrefix n)"
  by (simp add: v6_prefix_def v6_net_String)

text \<open>
  What is relied on from a dump of a table: the entries through a peer it lists are those the acknowledged calls left,
  and their prefixes have their host bits cleared.
\<close>

definition honest_dump :: "(string, Upstream) gomap \<Rightarrow> ahist \<Rightarrow> u32 \<Rightarrow> IPRoute list \<Rightarrow> bool" where
  "honest_dump peers h t rs \<longleftrightarrow>
     (\<forall>r \<in> set rs. owned_entry peers (ir_Paths r) \<longrightarrow> v6_prefix (ir_Prefix r)) \<and>
     (\<forall>p ps. v6_prefix p \<longrightarrow> owned_entry peers ps \<longrightarrow>
        (\<exists>r \<in> set rs. ir_Prefix r = p \<and> ir_Paths r = ps) = (fib_of h t p = Some ps))"

definition honest_fib :: "api \<Rightarrow> (string, Upstream) gomap \<Rightarrow> bool" where
  "honest_fib vpp peers \<longleftrightarrow> (\<forall>h t rs. vpp h (IPRouteDump t True) = ApiRoutes rs \<longrightarrow> honest_dump peers h t rs)"

definition owned_in :: "(string, Upstream) gomap \<Rightarrow> u32 set \<Rightarrow> ahist \<Rightarrow> (u32 \<times> vpp_prefix) set" where
  "owned_in peers T h = {e \<in> owned_fib peers h. fst e \<in> T \<and> v6_prefix (snd e)}"

text \<open>A route the program reads back.\<close>

definition read_ok :: "(string, Upstream) gomap \<Rightarrow> SRoute \<Rightarrow> bool" where
  "read_ok peers r \<longleftrightarrow> plain_ok peers r \<and> (\<exists>u. mget peers (SR_Via r) = Some u \<and> SR_Interface r = U_Interface u)"

lemma claim_routes_set:
  assumes "claim_routes t peers vrs paths = (owned, paths')"
  shows "r \<in> set owned \<longleftrightarrow> (\<exists>vr \<in> set vrs. \<exists>dst path rest. r = claimed_route t peers dst path \<and> R_Dst vr = Some dst \<and>
    filter (owned_path peers) (R_Paths vr) = path # rest)"
  using assms
proof (induction vrs arbitrary: paths owned)
  case (Cons vr vrs)
  show ?case
  proof (cases "\<exists>dst path rest. R_Dst vr = Some dst \<and> filter (owned_path peers) (R_Paths vr) = path # rest")
    case False
    then have "claim_routes t peers vrs paths = (owned, paths')"
      using Cons.prems by (auto split: option.splits list.splits)
    with Cons.IH [OF this] False show ?thesis by auto
  next
    case True
    then obtain dst path rest where v: "R_Dst vr = Some dst" "filter (owned_path peers) (R_Paths vr) = path # rest" by blast
    then obtain owned' p' where o: "claim_routes t peers vrs p' = (owned', paths')" "owned = claimed_route t peers dst path # owned'"
      using Cons.prems by (auto simp: Let_def split: prod.splits)
    show ?thesis using Cons.IH [OF o(1)] v unfolding o(2) by auto
  qed
qed simp

lemma To16_String: "wf_ip a \<Longrightarrow> \<exists>b. To16 a = Some b \<and> ip_String b = ip_String a"
proof -
  assume a: "wf_ip a"
  then obtain b where b: "To16 a = Some b" by (auto simp: To16_def wf_ip_def)
  then have "wf_ip b" "To16 b = Some b" using a by (auto simp: To16_def wf_ip_def split: if_splits)
  with a b show ?thesis using To16_ip_Equal ip_String_eq_iff by metis
qed

lemma filter_owned_iff: "owned_entry peers ps \<longleftrightarrow> (\<exists>path rest. filter (owned_path peers) (FromFibPathList ps) = path # rest)"
  unfolding owned_entry_def neq_Nil_conv [symmetric] by (simp add: list_ex_iff filter_empty_conv)

lemma claimed_read_ok:
  assumes "honest_dump peers h t rs" "r \<in> set rs" "filter (owned_path peers) (FromFibPathList (ir_Paths r)) = path # rest"
  shows "read_ok peers (claimed_route t peers (FromVppPrefix (ir_Prefix r)) path)"
    "v6_prefix (ir_Prefix r)"
proof -
  have o: "owned_entry peers (ir_Paths r)" using assms(3) filter_owned_iff by blast
  then show v: "v6_prefix (ir_Prefix r)" using assms(1,2) by (auto simp: honest_dump_def)
  have "path \<in> set (filter (owned_path peers) (FromFibPathList (ir_Paths r)))" using assms(3) by simp
  then obtain fp where fp: "fp \<in> set (ir_Paths r)" "path = FromFibPath fp" "owned_path peers path"
    by (auto simp: FromFibPathList_def)
  then have "wf_ip (Gw path)" using wf_Gw by simp
  then obtain b where "ParseIP (ip_String (Gw path)) = Some b" "ip_String b = ip_String (Gw path)"
    using ParseIP_ip_String To16_String by metis
  moreover obtain u where "mget peers (ip_String (Gw path)) = Some u"
    using fp(3) by (auto simp: owned_path_def mhas_def)
  ultimately show "read_ok peers (claimed_route t peers (FromVppPrefix (ir_Prefix r)) path)"
    using v by (auto simp: read_ok_def plain_ok_def v6_prefix_def mhas_def claimed_route_def Let_def)
qed

lemma InstalledRoutes_reads:
  assumes "honest_fib vpp peers" "InstalledRoutes vpp t peers (P, h) = (Some rs, (P', h'))"
  shows "list_all (read_ok peers) rs" "rt_id ` set rs = owned_in peers {t} h" "fib_of h' = fib_of h"
proof -
  obtain ms where ms: "vpp h (IPRouteDump t True) = ApiRoutes ms" "h' = (IPRouteDump t True, ApiRoutes ms) # h"
    and cl: "\<exists>k k'. claim_routes t peers (map from_route ms) k = (rs, k')"
    using assms(2)
    by (auto simp: InstalledRoutes_def GetRoutes_def call_def Let_def split: api_reply.splits prod.splits)
  have hd: "honest_dump peers h t ms" using assms(1) ms(1) by (auto simp: honest_fib_def)
  have set: "r \<in> set rs \<longleftrightarrow> (\<exists>m \<in> set ms. \<exists>path rest. r = claimed_route t peers (FromVppPrefix (ir_Prefix m)) path \<and>
      filter (owned_path peers) (FromFibPathList (ir_Paths m)) = path # rest)" for r
    using cl claim_routes_set [of t peers "map from_route ms"] by (fastforce simp: from_route_def)
  show "list_all (read_ok peers) rs"
    using claimed_read_ok(1) [OF hd] by (auto simp: list_all_iff set)
  have id: "rt_id (claimed_route t peers (FromVppPrefix p) path) = (t, p)" if "v6_prefix p" for p path
    using that v6_net_String(1) by (simp add: claimed_route_def Let_def rt_id_def v6_prefix_def)
  have "x \<in> rt_id ` set rs \<longleftrightarrow> (\<exists>m \<in> set ms. x = (t, ir_Prefix m) \<and> owned_entry peers (ir_Paths m))" for x
  proof
    assume "x \<in> rt_id ` set rs"
    then obtain m path rest where m: "m \<in> set ms" "x = rt_id (claimed_route t peers (FromVppPrefix (ir_Prefix m)) path)"
      "filter (owned_path peers) (FromFibPathList (ir_Paths m)) = path # rest" by (auto simp: set)
    then have "x = (t, ir_Prefix m)" using id claimed_read_ok(2) [OF hd m(1,3)] by simp
    with m(1,3) show "\<exists>m \<in> set ms. x = (t, ir_Prefix m) \<and> owned_entry peers (ir_Paths m)"
      unfolding filter_owned_iff by blast
  next
    assume "\<exists>m \<in> set ms. x = (t, ir_Prefix m) \<and> owned_entry peers (ir_Paths m)"
    then obtain m path rest where m: "m \<in> set ms" "x = (t, ir_Prefix m)"
      "filter (owned_path peers) (FromFibPathList (ir_Paths m)) = path # rest" by (auto simp: filter_owned_iff)
    then have "claimed_route t peers (FromVppPrefix (ir_Prefix m)) path \<in> set rs" by (auto simp: set)
    moreover have "x = rt_id (claimed_route t peers (FromVppPrefix (ir_Prefix m)) path)"
      using id claimed_read_ok(2) [OF hd m(1,3)] m(2) by simp
    ultimately show "x \<in> rt_id ` set rs" by blast
  qed
  then have "rt_id ` set rs = {(t, ir_Prefix m) | m. m \<in> set ms \<and> owned_entry peers (ir_Paths m)}" by blast
  also have "\<dots> = owned_in peers {t} h"
    using hd by (fastforce simp: owned_in_def owned_fib_def honest_dump_def)
  finally show "rt_id ` set rs = owned_in peers {t} h" .
  show "fib_of h' = fib_of h" using ms(2) by (simp add: fun_eq_iff)
qed

lemma owned_in_eqI: "fib_of h' = fib_of h \<Longrightarrow> owned_in peers T h' = owned_in peers T h"
  by (simp add: owned_in_def owned_fib_def)

lemma installed_tables_reads:
  assumes "honest_fib vpp peers" "installed_tables (\<lambda>t. InstalledRoutes vpp t peers) ts (P, h) = (Some rs, (P', h'))"
  shows "list_all (read_ok peers) rs \<and> rt_id ` set rs = owned_in peers (set ts) h \<and> fib_of h' = fib_of h"
  using assms(2)
proof (induction ts arbitrary: P h rs)
  case Nil
  then show ?case by (auto simp: owned_in_def)
next
  case (Cons t ts)
  then obtain r1 P1 h1 r2 where s: "InstalledRoutes vpp t peers (P, h) = (Some r1, (P1, h1))"
    "installed_tables (\<lambda>t. InstalledRoutes vpp t peers) ts (P1, h1) = (Some r2, (P', h'))" "rs = r1 @ r2"
    by (auto split: option.splits prod.splits)
  note r1 = InstalledRoutes_reads [OF assms(1) s(1)]
  have "owned_in peers (set ts) h1 = owned_in peers (set ts) h" using r1(3) by (rule owned_in_eqI)
  moreover have "owned_in peers (set (t # ts)) h = owned_in peers {t} h \<union> owned_in peers (set ts) h"
    by (auto simp: owned_in_def)
  ultimately show ?case using Cons.IH [OF s(2)] r1 s(3) by (simp add: image_Un)
qed

section \<open>Service routes leave the tables alone\<close>

text \<open>The calls that write a route, with their replies.\<close>

definition route_writes :: "ahist \<Rightarrow> ahist" where
  "route_writes h = filter (\<lambda>(c, r). case c of IPRouteAddDel _ _ \<Rightarrow> True | _ \<Rightarrow> False) h"

lemma route_writes_simps [simp]:
  "route_writes [] = []"
  "route_writes ((c, r) # h) = (case c of IPRouteAddDel _ _ \<Rightarrow> (c, r) # route_writes h | _ \<Rightarrow> route_writes h)"
  by (simp_all add: route_writes_def split: api_call.split)

lemma fib_of_writes: "fib_of (route_writes h) t p = fib_of h t p"
  by (induction h) (auto split: api_call.split)

lemma fib_of_writes_eq: "route_writes h' = route_writes h \<Longrightarrow> fib_of h' = fib_of h"
  by (metis ext fib_of_writes)

lemma api_exec_writes:
  "(\<And>b m. c \<noteq> IPRouteAddDel b m) \<Longrightarrow> route_writes (snd (api_exec vpp c h)) = route_writes h"
  by (cases c) (auto simp: api_exec_eq)

lemma append_lists_writes: "route_writes (snd (append_lists vpp pol sls h)) = route_writes h"
  by (induction sls arbitrary: h) (auto simp: api_exec_eq)

lemma AddSRv6Policy_writes: "route_writes (snd (AddSRv6Policy vpp pol h)) = route_writes h"
  by (auto simp: AddSRv6Policy_def fail_def andthen_def api_exec_eq append_lists_writes split: list.split)

lemma servicePolicies_writes: "servicePolicies vpp block h = (x, h') \<Longrightarrow> route_writes h' = route_writes h"
  by (auto simp: servicePolicies_def ListSRv6Policies_def call_def Let_def split: api_reply.splits)

lemma andthen_writes:
  "(\<And>h. route_writes (snd (c h)) = route_writes h) \<Longrightarrow> (\<And>h. route_writes (snd (d h)) = route_writes h) \<Longrightarrow> route_writes (snd (andthen c d h)) = route_writes h"
  by (auto simp: andthen_def split: prod.split status.split) (metis snd_conv)+

lemma AddService_writes: "route_writes (snd (AddService vpp block r h)) = route_writes h"
  using servicePolicies_writes [of vpp block h]
  by (auto simp: AddService_def skip_def fail_def Let_def andthen_writes AddSRv6Policy_writes AddSRv6Steering_def api_exec_writes
      split: option.split prod.split)

lemma DelService_writes: "route_writes (snd (DelService vpp block r h)) = route_writes h"
proof -
  have "route_writes (snd (andthen (DelSRv6Steering vpp st)
      (\<lambda>h1. case ListSRv6Steering vpp h1 of (None, h2) \<Rightarrow> (Fail EApi, h2)
        | (Some steers, h2) \<Rightarrow> if list_ex P steers then (Done, h2) else DelSRv6Policy vpp pol h2) h')) = route_writes h'" for st P pol h'
    by (rule andthen_writes)
      (auto simp: DelSRv6Steering_def DelSRv6Policy_def ListSRv6Steering_def api_exec_writes call_def Let_def
        split: api_reply.split)
  then show ?thesis
    by (auto simp: DelService_def fail_def Let_def split: option.split)
qed

lemma each_route_writes: "(\<And>r h. route_writes (snd (f r h)) = route_writes h) \<Longrightarrow> route_writes (each_route f rs h) = route_writes h"
  by (induction rs arbitrary: h) auto

lemma InstalledServiceRoutes_writes: "route_writes (snd (InstalledServiceRoutes vpp block t h)) = route_writes h"
  using servicePolicies_writes [of vpp block h]
  by (auto simp: InstalledServiceRoutes_def ListSRv6Steering_def call_def Let_def
      split: option.split prod.split api_reply.split)

lemma installed_services_writes: "route_writes (snd (installed_tables (InstalledServiceRoutes vpp block) ts h)) = route_writes h"
proof (induction ts arbitrary: h)
  case (Cons t ts)
  obtain x h1 where i: "InstalledServiceRoutes vpp block t h = (x, h1)" by (cases "InstalledServiceRoutes vpp block t h")
  then have "route_writes h1 = route_writes h" using InstalledServiceRoutes_writes by (metis snd_conv)
  with Cons.IH [of h1] i show ?case by (auto split: option.split prod.split)
qed simp

lemma reconcileServices_writes: "route_writes (snd (reconcileServices vpp cfg rs s)) = route_writes (snd s)"
  using installed_services_writes
  by (auto simp: reconcileServices_def each_route_writes AddService_writes DelService_writes split: option.split prod.split)
    (metis snd_conv)+

section \<open>A pass converges\<close>

text \<open>The peers of the configuration are spelt as Go prints them.\<close>

definition cfg_ok :: "Config \<Rightarrow> bool" where
  "cfg_ok cfg \<longleftrightarrow> (\<forall>u \<in> set (Upstreams cfg). \<exists>gw. ParseIP (Peer u) = Some gw \<and> ip_String gw = Peer u)"

text \<open>The prefixes of the speaker are spelt as Go prints them.\<close>

definition rib_ok :: "(string, RIBEntry) gomap \<Rightarrow> bool" where
  "rib_ok rib \<longleftrightarrow> (\<forall>prefix \<in> set (mkeys rib). \<exists>n. v6_net n \<and> prefix = ipnet_String n)"

text \<open>VPP answers: reads succeed, the interfaces of the configuration exist, and no call fails.\<close>

definition answers :: "api \<Rightarrow> Config \<Rightarrow> bool" where
  "answers vpp cfg \<longleftrightarrow>
     (\<forall>h c. vpp h c \<noteq> ApiFailed) \<and>
     (\<forall>h t. \<exists>rs. vpp h (IPRouteDump t True) = ApiRoutes rs) \<and>
     (\<forall>h. \<forall>u \<in> set (Upstreams cfg). \<exists>i h'. SearchInterfaceWithName vpp (U_Interface u) h = (Inr i, h'))"

lemma byPeer_entry: "mget (byPeer cfg) k = Some u \<Longrightarrow> u \<in> set (Upstreams cfg) \<and> Peer u = k"
  using fold_mput_entry [of Peer "\<lambda>u. u" "Upstreams cfg" "[]" k u] by (auto simp: byPeer_def)

lemma byPeer_has: "mhas (byPeer cfg) k \<longleftrightarrow> k \<in> Peer ` set (Upstreams cfg)"
  unfolding byPeer_def mhas_iff fold_mput_keys [where g = "\<lambda>u. u"] by simp

lemma Tables_set: "set (Tables cfg) = U_Table ` set (Upstreams cfg)"
proof -
  have "set (fold (\<lambda>u out. if U_Table u \<in> set out then out else U_Table u # out) us out) = set out \<union> U_Table ` set us"
    for us :: "Upstream list" and out
    by (induction us arbitrary: out) auto
  then show ?thesis by (simp add: Tables_def)
qed

lemma desired_of_set:
  "r \<in> set (desired_of peers rib) \<longleftrightarrow> (\<exists>(prefix, e) \<in> set rib. \<exists>up. mget peers (Nexthop e) = Some up \<and>
     r = \<lparr>SR_Prefix = prefix, SR_Table = U_Table up, SR_Via = Peer up, SR_Interface = U_Interface up, SR_ServiceSID = E_ServiceSID e\<rparr>)"
  by (induction rib rule: desired_of.induct) (auto split: option.splits)

lemma Split_plain: "fst (SplitServiceRoutes rs) = filter (\<lambda>r. \<not> IsService r) rs"
  "snd (SplitServiceRoutes rs) = filter IsService rs"
  by (induction rs) (auto split: prod.splits)

lemma desired_plain_ok:
  assumes "cfg_ok cfg" "rib_ok rib" "r \<in> set (DesiredRoutes rib cfg)" "\<not> IsService r"
  shows "read_ok (byPeer cfg) r" "SR_Table r \<in> set (Tables cfg)"
proof -
  obtain prefix e up where e: "(prefix, e) \<in> set rib" "mget (byPeer cfg) (Nexthop e) = Some up"
    "r = \<lparr>SR_Prefix = prefix, SR_Table = U_Table up, SR_Via = Peer up, SR_Interface = U_Interface up, SR_ServiceSID = E_ServiceSID e\<rparr>"
    using assms(3) by (auto simp: DesiredRoutes_def desired_of_set)
  have up: "up \<in> set (Upstreams cfg)" "Peer up = Nexthop e" using byPeer_entry [OF e(2)] by auto
  then obtain gw where gw: "ParseIP (Peer up) = Some gw" "ip_String gw = Peer up" using assms(1) by (auto simp: cfg_ok_def)
  have "prefix \<in> set (mkeys rib)" using e(1) by (force simp: mkeys_def)
  then obtain n where "v6_net n" "prefix = ipnet_String n" using assms(2) by (auto simp: rib_ok_def)
  then show "read_ok (byPeer cfg) r"
    using assms(4) e(2,3) up gw by (auto simp: read_ok_def plain_ok_def IsService_def mhas_def)
  show "SR_Table r \<in> set (Tables cfg)" using up e(3) by (simp add: Tables_set)
qed

lemma answers_Add:
  assumes "answers vpp cfg" "read_ok (byPeer cfg) r"
  shows "fst (prog_Add vpp r s) = Done"
proof -
  obtain P h where s: "s = (P, h)" by (cases s)
  obtain n gw u where r: "v6_net n" "SR_Prefix r = ipnet_String n" "ParseIP (SR_Via r) = Some gw"
    "mget (byPeer cfg) (SR_Via r) = Some u" "SR_Interface r = U_Interface u"
    using assms(2) by (auto simp: read_ok_def plain_ok_def)
  obtain i h' where "SearchInterfaceWithName vpp (U_Interface u) h = (Inr i, h')"
    using assms(1) byPeer_entry [OF r(4)] unfolding answers_def by blast
  with r assms(1) v6_net_String(1) [OF r(1)] show ?thesis
    by (simp add: s prog_Add_def resolveIfIndex_def RouteAdd_eq api_exec_eq answers_def)
qed

lemma answers_Del:
  assumes "answers vpp cfg" "read_ok (byPeer cfg) r"
  shows "fst (prog_Del vpp r s) = Done"
proof -
  obtain P h where s: "s = (P, h)" by (cases s)
  obtain n gw u where r: "v6_net n" "SR_Prefix r = ipnet_String n" "ParseIP (SR_Via r) = Some gw"
    "mget (byPeer cfg) (SR_Via r) = Some u" "SR_Interface r = U_Interface u"
    using assms(2) by (auto simp: read_ok_def plain_ok_def)
  obtain i h' where "SearchInterfaceWithName vpp (U_Interface u) h = (Inr i, h')"
    using assms(1) byPeer_entry [OF r(4)] unfolding answers_def by blast
  with r assms(1) v6_net_String(1) [OF r(1)] show ?thesis
    by (auto simp: s prog_Del_def resolveIfIndex_def RouteAdd_eq api_exec_eq answers_def split: option.split)
qed

lemma answers_installed:
  assumes "answers vpp cfg"
  shows "\<exists>rs s'. installed_tables (\<lambda>t. InstalledRoutes vpp t peers) ts s = (Some rs, s')"
proof (induction ts arbitrary: s)
  case (Cons t ts)
  obtain P h where s: "s = (P, h)" by (cases s)
  obtain ms where "vpp h (IPRouteDump t True) = ApiRoutes ms" using assms unfolding answers_def by blast
  then obtain rs s1 where "InstalledRoutes vpp t peers s = (Some rs, s1)"
    by (cases "claim_routes t peers (map from_route ms) (filter (\<lambda>(k, _). \<not> HasPrefix k (show_nat (unat t) @ ''|'')) (installedPaths P))")
      (auto simp: s InstalledRoutes_def GetRoutes_def call_def Let_def)
  with Cons.IH [of s1] show ?case by auto
qed simp

lemma read_plain_ok: "read_ok peers r \<Longrightarrow> plain_ok peers r"
  by (simp add: read_ok_def)

text \<open>Which routes a pass adds and deletes, and what it leaves.\<close>

lemma pass_plan:
  assumes ok: "list_all (plain_ok peers) wanted" "list_all (plain_ok peers) installed"
    and plan: "Reconcile wanted installed = (add, del)"
  shows "list_all (plain_ok peers) add" "list_all (plain_ok peers) del"
    "rt_id ` set add = rt_id ` set wanted - rt_id ` set installed"
    "rt_id ` set del = rt_id ` set installed - rt_id ` set wanted"
proof -
  have e: "add = diff_side wanted installed" "del = diff_side installed wanted" using plan by (simp_all add: Reconcile_sides)
  have side: "rt_id ` set (diff_side xs ys) = rt_id ` set xs - rt_id ` set ys"
    if x: "list_all (plain_ok peers) xs" and y: "list_all (plain_ok peers) ys" for xs ys
  proof -
    have inj: "Key a = Key b \<longleftrightarrow> rt_id a = rt_id b" if "a \<in> set xs \<union> set ys" "b \<in> set xs \<union> set ys" for a b
      by (rule plain_ok_Key_iff [of peers]) (use that x y in \<open>auto simp: list_all_iff\<close>)
    have sub: "set (diff_side xs ys) \<subseteq> set xs" and keys: "Key ` set (diff_side xs ys) = Key ` set xs - Key ` set ys"
      by (simp_all add: diff_side_props)
    show ?thesis
    proof (intro set_eqI iffI)
      fix i assume "i \<in> rt_id ` set (diff_side xs ys)"
      then obtain a where a: "a \<in> set (diff_side xs ys)" "i = rt_id a" by blast
      then have "Key a \<notin> Key ` set ys" "a \<in> set xs" using keys sub by blast+
      then show "i \<in> rt_id ` set xs - rt_id ` set ys" using a(2) inj by (auto simp: image_iff)
    next
      fix i assume "i \<in> rt_id ` set xs - rt_id ` set ys"
      then obtain a where a: "a \<in> set xs" "i = rt_id a" "rt_id a \<notin> rt_id ` set ys" by blast
      then have "Key a \<in> Key ` set xs - Key ` set ys" using inj by (auto simp: image_iff)
      then obtain b where b: "b \<in> set (diff_side xs ys)" "Key b = Key a" using keys by (metis imageE)
      then have "rt_id b = rt_id a" using inj a(1) sub by blast
      with a(2) b(1) show "i \<in> rt_id ` set (diff_side xs ys)" by (metis imageI)
    qed
  qed
  show "list_all (plain_ok peers) add" "list_all (plain_ok peers) del"
    using ok diff_side_props(1) unfolding e by (fastforce simp: list_all_iff)+
  show "rt_id ` set add = rt_id ` set wanted - rt_id ` set installed"
    "rt_id ` set del = rt_id ` set installed - rt_id ` set wanted"
    using side ok unfolding e by blast+
qed

text \<open>The plain routes a routing information base asks for.\<close>

definition wanted_plain :: "Config \<Rightarrow> (string, RIBEntry) gomap \<Rightarrow> SRoute list" where
  "wanted_plain cfg rib = filter (\<lambda>r. \<not> IsService r) (DesiredRoutes rib cfg)"

lemma reconcileOnce_eq:
  assumes "ParseRIB raw = Some rib" "installedFromVPP vpp cfg s = (Some installed, s1)"
    "Reconcile (wanted_plain cfg rib) installed = (add, del)"
  shows "reconcileOnce vpp cfg (Some raw) s =
    reconcileServices vpp cfg (filter IsService (DesiredRoutes rib cfg))
      (each_route (prog_Del vpp) del (each_route (prog_Add vpp) add s1))"
proof -
  have "SplitServiceRoutes (DesiredRoutes rib cfg) = (wanted_plain cfg rib, filter IsService (DesiredRoutes rib cfg))"
    using Split_plain by (metis wanted_plain_def prod.collapse)
  then show ?thesis using assms by (simp add: reconcileOnce_def)
qed

lemma diff_algebra:
  "I = {x \<in> F. Q x} \<Longrightarrow> A = W - I \<Longrightarrow> D = I - W \<Longrightarrow> W \<subseteq> {x. Q x} \<Longrightarrow> {x \<in> F \<union> A - D. Q x} = W"
  by auto

lemma pass_converges:
  assumes "answers vpp cfg" "honest_fib vpp (byPeer cfg)" "cfg_ok cfg" "ParseRIB raw = Some rib" "rib_ok rib"
  shows "owned_in (byPeer cfg) (set (Tables cfg)) (snd (reconcileOnce vpp cfg (Some raw) s)) =
    rt_id ` set (wanted_plain cfg rib)"
proof -
  let ?peers = "byPeer cfg" and ?T = "set (Tables cfg)"
  obtain P h where s: "s = (P, h)" by (cases s)
  obtain installed P1 h1 where inst: "installedFromVPP vpp cfg s = (Some installed, (P1, h1))"
    using answers_installed [OF assms(1), of ?peers "Tables cfg" s] by (auto simp: installedFromVPP_def)
  note reads = installed_tables_reads [OF assms(2), of "Tables cfg" P h installed P1 h1, folded s installedFromVPP_def, OF inst]
  obtain add del where plan: "Reconcile (wanted_plain cfg rib) installed = (add, del)" by fastforce
  have w: "list_all (read_ok ?peers) (wanted_plain cfg rib)" "rt_id ` set (wanted_plain cfg rib) \<subseteq> {e. fst e \<in> ?T \<and> v6_prefix (snd e)}"
  proof -
    have r: "read_ok ?peers r \<and> SR_Table r \<in> ?T" if "r \<in> set (wanted_plain cfg rib)" for r
      using that desired_plain_ok [OF assms(3,5)] by (auto simp: wanted_plain_def)
    then show "list_all (read_ok ?peers) (wanted_plain cfg rib)" by (simp add: list_all_iff)
    show "rt_id ` set (wanted_plain cfg rib) \<subseteq> {e. fst e \<in> ?T \<and> v6_prefix (snd e)}"
      using r v6_net_String(1) v6_prefix_ToVpp by (fastforce simp: rt_id_def read_ok_def plain_ok_def)
  qed
  have lists: "list_all (plain_ok ?peers) (wanted_plain cfg rib)" "list_all (plain_ok ?peers) installed"
    using w(1) reads read_plain_ok by (auto simp: list_all_iff)
  note plan' = pass_plan [OF lists plan]
  have ad: "set add \<subseteq> set (wanted_plain cfg rib)" "set del \<subseteq> set installed"
    using plan diff_side_props(1) by (auto simp: Reconcile_sides)
  have fin: "owned_fib ?peers (snd (each_route (prog_Del vpp) del (each_route (prog_Add vpp) add (P1, h1)))) =
    owned_fib ?peers h1 \<union> rt_id ` set add - rt_id ` set del"
  proof -
    have d: "fst (prog_Add vpp r s) = Done" if "r \<in> set add" for r s
      by (rule answers_Add [OF assms(1)]) (use that ad(1) w(1) in \<open>auto simp: list_all_iff\<close>)
    have e: "fst (prog_Del vpp r s) = Done" if "r \<in> set del" for r s
      by (rule answers_Del [OF assms(1)]) (use that ad(2) reads in \<open>auto simp: list_all_iff\<close>)
    show ?thesis
      using plain.each_del_done [OF plan'(2) e, of "each_route (prog_Add vpp) add (P1, h1)"]
        plain.each_add_done [OF plan'(1) d, of "(P1, h1)"] by simp
  qed
  have "owned_in ?peers ?T (snd (reconcileOnce vpp cfg (Some raw) s)) =
    {e \<in> owned_fib ?peers h1 \<union> rt_id ` set add - rt_id ` set del. fst e \<in> ?T \<and> v6_prefix (snd e)}"
    unfolding reconcileOnce_eq [OF assms(4) inst plan] owned_in_def owned_fib_eqI [OF fib_of_writes_eq [OF reconcileServices_writes]] fin ..
  moreover have i: "rt_id ` set installed = {e \<in> owned_fib ?peers h1. fst e \<in> ?T \<and> v6_prefix (snd e)}"
    using reads owned_fib_eqI [of h1 h ?peers] by (simp add: owned_in_def)
  ultimately show ?thesis using diff_algebra [OF i plan'(3,4) w(2)] by metis
qed

section \<open>What a pass writes\<close>

lemma InstalledRoutes_writes: "route_writes (snd (snd (InstalledRoutes vpp t peers s))) = route_writes (snd s)"
  by (auto simp: InstalledRoutes_def GetRoutes_def call_def Let_def split: api_reply.split prod.split)

lemma installed_tables_writes:
  "route_writes (snd (snd (installed_tables (\<lambda>t. InstalledRoutes vpp t peers) ts s))) = route_writes (snd s)"
proof (induction ts arbitrary: s)
  case (Cons t ts)
  obtain x s1 where i: "InstalledRoutes vpp t peers s = (x, s1)" by (cases "InstalledRoutes vpp t peers s")
  then have "route_writes (snd s1) = route_writes (snd s)" using InstalledRoutes_writes by (metis snd_conv)
  with Cons.IH [of s1] i show ?case by (auto split: option.split prod.split)
qed simp

text \<open>The identity of a written route.\<close>

definition msg_id :: "IPRoute \<Rightarrow> u32 \<times> vpp_prefix" where
  "msg_id m = (ir_TableID m, ir_Prefix m)"

lemma SearchInterface_writes: "SearchInterfaceWithName vpp name h = (x, h') \<Longrightarrow> route_writes h' = route_writes h"
  by (auto simp: SearchInterfaceWithName_def call_def Let_def split: api_reply.splits if_splits)

lemma prog_Add_writes:
  "\<exists>ws. route_writes (snd (snd (prog_Add vpp r s))) = ws @ route_writes (snd s) \<and>
     (\<forall>(c, x) \<in> set ws. \<exists>m. c = IPRouteAddDel True m \<and> msg_id m = rt_id r)"
proof -
  obtain P h where s: "s = (P, h)" by (cases s)
  show ?thesis
    using SearchInterface_writes [of vpp "SR_Interface r" h]
    by (auto simp: s prog_Add_def fail_def resolveIfIndex_def RouteAdd_eq api_exec_eq msg_id_def rt_id_def route_msg_def Let_def
        split: option.split prod.split sum.split)
qed

lemma prog_Del_writes:
  "\<exists>ws. route_writes (snd (snd (prog_Del vpp r s))) = ws @ route_writes (snd s) \<and>
     (\<forall>(c, x) \<in> set ws. \<exists>m. c = IPRouteAddDel False m \<and> msg_id m = rt_id r)"
proof -
  obtain P h where s: "s = (P, h)" by (cases s)
  show ?thesis
    using SearchInterface_writes [of vpp "SR_Interface r" h]
    by (auto simp: s prog_Del_def fail_def resolveIfIndex_def RouteAdd_eq api_exec_eq msg_id_def rt_id_def route_msg_def Let_def
        split: option.split prod.split sum.split)
qed

lemma each_route_writes_in:
  assumes "\<And>r s. \<exists>ws. route_writes (snd (snd (f r s))) = ws @ route_writes (snd s) \<and> (\<forall>(c, x) \<in> set ws. \<exists>m. c = IPRouteAddDel b m \<and> msg_id m = rt_id r)"
  shows "\<exists>ws. route_writes (snd (each_route f rs s)) = ws @ route_writes (snd s) \<and>
    (\<forall>(c, x) \<in> set ws. \<exists>m. c = IPRouteAddDel b m \<and> msg_id m \<in> rt_id ` set rs)"
proof (induction rs arbitrary: s)
  case (Cons r rs)
  obtain ws where ws: "route_writes (snd (snd (f r s))) = ws @ route_writes (snd s)"
    "\<forall>(c, x) \<in> set ws. \<exists>m. c = IPRouteAddDel b m \<and> msg_id m = rt_id r" using assms by blast
  obtain vs where vs: "route_writes (snd (each_route f rs (snd (f r s)))) = vs @ route_writes (snd (snd (f r s)))"
    "\<forall>(c, x) \<in> set vs. \<exists>m. c = IPRouteAddDel b m \<and> msg_id m \<in> rt_id ` set rs" using Cons.IH by blast
  have "\<forall>(c, x) \<in> set (vs @ ws). \<exists>m. c = IPRouteAddDel b m \<and> msg_id m \<in> rt_id ` set (r # rs)"
    using ws(2) vs(2) by fastforce
  moreover have "route_writes (snd (each_route f (r # rs) s)) = (vs @ ws) @ route_writes (snd s)"
    using ws(1) vs(1) by simp
  ultimately show ?case by blast
qed simp

text \<open>A pass that reads all tables writes additions of wanted routes that are not owned and deletions of owned routes
  that are not wanted; any other pass writes nothing.\<close>

lemma pass_writes:
  assumes "honest_fib vpp (byPeer cfg)" "cfg_ok cfg" "ParseRIB raw = Some rib" "rib_ok rib"
    "installedFromVPP vpp cfg s = (Some installed, s1)"
  shows "\<exists>dels adds. route_writes (snd (reconcileOnce vpp cfg (Some raw) s)) = dels @ adds @ route_writes (snd s) \<and>
    (\<forall>(c, x) \<in> set adds. \<exists>m. c = IPRouteAddDel True m \<and>
       msg_id m \<in> rt_id ` set (wanted_plain cfg rib) - owned_in (byPeer cfg) (set (Tables cfg)) (snd s)) \<and>
    (\<forall>(c, x) \<in> set dels. \<exists>m. c = IPRouteAddDel False m \<and>
       msg_id m \<in> owned_in (byPeer cfg) (set (Tables cfg)) (snd s) - rt_id ` set (wanted_plain cfg rib))"
proof -
  let ?peers = "byPeer cfg"
  obtain P h P1 h1 where s: "s = (P, h)" "s1 = (P1, h1)" by (cases s, cases s1)
  note inst = assms(5) [unfolded s]
  note reads = installed_tables_reads [OF assms(1), of "Tables cfg" P h installed P1 h1, folded installedFromVPP_def, OF inst]
  obtain add del where plan: "Reconcile (wanted_plain cfg rib) installed = (add, del)" by fastforce
  have ok: "list_all (plain_ok ?peers) (wanted_plain cfg rib)" "list_all (plain_ok ?peers) installed"
    using desired_plain_ok(1) [OF assms(2,4)] reads read_plain_ok by (auto simp: wanted_plain_def list_all_iff)
  note plan' = pass_plan [OF ok plan]
  obtain adds where adds: "route_writes (snd (each_route (prog_Add vpp) add (P1, h1))) = adds @ route_writes h1"
    "\<forall>(c, x) \<in> set adds. \<exists>m. c = IPRouteAddDel True m \<and> msg_id m \<in> rt_id ` set add"
    using each_route_writes_in [where f = "prog_Add vpp", OF prog_Add_writes, of add "(P1, h1)"] by auto
  obtain dels where dels: "route_writes (snd (each_route (prog_Del vpp) del (each_route (prog_Add vpp) add (P1, h1)))) =
      dels @ route_writes (snd (each_route (prog_Add vpp) add (P1, h1)))"
    "\<forall>(c, x) \<in> set dels. \<exists>m. c = IPRouteAddDel False m \<and> msg_id m \<in> rt_id ` set del"
    using each_route_writes_in [where f = "prog_Del vpp", OF prog_Del_writes, of del "each_route (prog_Add vpp) add (P1, h1)"] by auto
  have "route_writes h1 = route_writes h"
    using installed_tables_writes [of vpp ?peers "Tables cfg" "(P, h)"] inst by (simp add: installedFromVPP_def)
  then have "route_writes (snd (reconcileOnce vpp cfg (Some raw) s)) = dels @ adds @ route_writes h"
    unfolding s reconcileOnce_eq [OF assms(3) inst plan] by (simp add: reconcileServices_writes adds(1) dels(1))
  moreover have "rt_id ` set installed = owned_in ?peers (set (Tables cfg)) h" using reads by blast
  ultimately show ?thesis
    using adds(2) dels(2) unfolding s plan'(3,4) by auto
qed

lemma pass_skipped:
  assumes "fetched = None \<or> ParseRIB (the fetched) = None \<or> fst (installedFromVPP vpp cfg s) = None"
  shows "route_writes (snd (reconcileOnce vpp cfg fetched s)) = route_writes (snd s)"
proof -
  have "snd (installedFromVPP vpp cfg s) = s1 \<Longrightarrow> route_writes (snd s1) = route_writes (snd s)" for s1
    using installed_tables_writes [of vpp "byPeer cfg" "Tables cfg" s] by (auto simp: installedFromVPP_def)
  with assms show ?thesis
    by (cases "installedFromVPP vpp cfg s") (auto simp: reconcileOnce_def split: option.split prod.split)
qed

section \<open>A VPP that keeps what it acknowledged\<close>

fun written_prefixes :: "ahist \<Rightarrow> vpp_prefix list" where
  "written_prefixes [] = []"
| "written_prefixes ((c, r) # h) = (case c of IPRouteAddDel _ m \<Rightarrow> ir_Prefix m # written_prefixes h | _ \<Rightarrow> written_prefixes h)"

definition table_dump :: "ahist \<Rightarrow> u32 \<Rightarrow> IPRoute list" where
  "table_dump h t = map (\<lambda>p. \<lparr>ir_TableID = t, ir_Prefix = p, ir_Paths = the (fib_of h t p)\<rparr>)
     (filter (\<lambda>p. v6_prefix p \<and> fib_of h t p \<noteq> None) (written_prefixes h))"

fun written_bsids :: "ahist \<Rightarrow> ip list" where
  "written_bsids [] = []"
| "written_bsids ((c, r) # h) = (case c of SrPolicyAdd b _ _ _ _ _ \<Rightarrow> b # written_bsids h | _ \<Rightarrow> written_bsids h)"

definition policy_dump :: "ahist \<Rightarrow> SrPolicy list" where
  "policy_dump h = map (\<lambda>b. \<lparr>SP_Bsid = b, SP_IsSpray = False, SP_IsEncap = True, SP_FibTable = 0, SidLists = the (policy_of h b)\<rparr>)
     (filter (\<lambda>b. length b = 16 \<and> policy_of h b \<noteq> None) (written_bsids h))"

fun written_steers :: "ahist \<Rightarrow> SrSteer list" where
  "written_steers [] = []"
| "written_steers ((c, r) # h) = (case c of SrSteeringAddDel _ s \<Rightarrow> s # written_steers h | _ \<Rightarrow> written_steers h)"

definition steer_dump :: "ahist \<Rightarrow> SrSteer list" where
  "steer_dump h = filter (\<lambda>s. steer_of h (SS_FibTable s) (SS_Prefix s) (TrafficType s) = Some (SS_Bsid s)) (written_steers h)"

definition table_vpp :: api where
  "table_vpp h c =
     (case c of
        IPRouteDump t _ \<Rightarrow> ApiRoutes (table_dump h t)
      | SwInterfaceDump \<Rightarrow> ApiInterfaces [(7, ''eth0'')]
      | SrPoliciesDump \<Rightarrow> ApiPolicies (policy_dump h)
      | SrSteeringPolDump \<Rightarrow> ApiSteers (steer_dump h)
      | _ \<Rightarrow> ApiOk)"

lemma fib_of_written: "fib_of h t p = Some ps \<Longrightarrow> p \<in> set (written_prefixes h)"
  by (induction h) (auto split: api_call.splits if_splits)

lemma table_vpp_honest: "honest_fib table_vpp peers"
proof -
  have "honest_dump peers h t (table_dump h t)" for h t
    using fib_of_written by (force simp: honest_dump_def table_dump_def)
  then show ?thesis by (simp add: honest_fib_def table_vpp_def)
qed

text \<open>Two peers of one table behind one interface.\<close>

definition two_peers :: Config where
  "two_peers = \<lparr>Upstreams = [\<lparr>Peer = ip_String (253 # 161 # replicate 13 0 @ [1]), U_Table = 100, U_Interface = ''eth0''\<rparr>,
       \<lparr>Peer = ip_String (253 # 161 # replicate 13 0 @ [2]), U_Table = 100, U_Interface = ''eth0''\<rparr>], ServiceBSIDBlock = []\<rparr>"

lemma table_vpp_answers: "answers table_vpp two_peers"
  by (auto simp: answers_def table_vpp_def two_peers_def SearchInterfaceWithName_def call_def Let_def InvalidID_def split: api_call.split)

lemma cfg_ok_two_peers: "cfg_ok two_peers"
proof -
  have "ParseIP (ip_String a) = Some a" if "length a = 16" for a
    using that ParseIP_ip_String [of a] by (simp add: wf_ip_def To16_def)
  then show ?thesis by (auto simp: cfg_ok_def two_peers_def)
qed

text \<open>The network \<open>2001:db8::/32\<close>.\<close>

definition net_db8 :: ipnet where
  "net_db8 = \<lparr>IPNet_IP = [32, 1, 13, 184] @ replicate 12 0, IPNet_Mask = CIDRMask 32 128\<rparr>"

lemma v6_net_db8: "v6_net net_db8"
proof -
  have m: "CIDRMask 32 128 = replicate 4 255 @ replicate 12 0"
    by (simp add: CIDRMask_def upt_rec Let_def replicate_numeral)
  have "Mask_Size (CIDRMask 32 128) = (32, 128)" by (rule Mask_Size_CIDRMask) simp_all
  moreover have "apply_mask (IPNet_IP net_db8) (IPNet_Mask net_db8) = IPNet_IP net_db8"
    by (simp add: net_db8_def m apply_mask_def replicate_numeral)
  ultimately show ?thesis
    by (simp add: v6_net_def canonical_net_def wf_ipnet_def net_db8_def To4_def v4InV6Prefix_def replicate_numeral)
qed

text \<open>The speaker's document with one prefix, learnt from the peer with the last byte \<open>k\<close>.\<close>

definition one_route :: "u8 \<Rightarrow> rib_doc" where
  "one_route k = RibDoc [(ipnet_String net_db8,
     [\<lparr>Best = True, NeighborIP = ip_String (253 # 161 # replicate 13 0 @ [k]), Attrs = []\<rparr>])]"

definition one_rib :: "u8 \<Rightarrow> (string, RIBEntry) gomap" where
  "one_rib k = [(ipnet_String net_db8, \<lparr>Nexthop = ip_String (253 # 161 # replicate 13 0 @ [k]), E_ServiceSID = []\<rparr>)]"

lemma ip_String_nonempty: "wf_ip a \<Longrightarrow> ip_String a \<noteq> []"
proof
  assume a: "wf_ip a" "ip_String a = []"
  have "ParseIP [] = None" by (simp add: ParseIP_def ParseAddr_def)
  then show False using a ParseIP_ip_String [of a] by (auto simp: wf_ip_def To16_def)
qed

lemma one_route_rib: "ParseRIB (one_route k) = Some (one_rib k)" "rib_ok (one_rib k)"
proof -
  have "ip_String (253 # 161 # replicate 13 0 @ [k]) \<noteq> []" by (rule ip_String_nonempty) (simp add: wf_ip_def)
  then show "ParseRIB (one_route k) = Some (one_rib k)"
    by (simp add: ParseRIB_def one_route_def one_rib_def bestPath_def nexthop_def serviceSID_def)
  show "rib_ok (one_rib k)" using v6_net_db8 by (auto simp: rib_ok_def one_rib_def)
qed

section \<open>Properties of the synchroniser\<close>


lemma one_rib_desired: "r \<in> set (DesiredRoutes (one_rib k) two_peers) \<longleftrightarrow>
    (\<exists>up. mget (byPeer two_peers) (ip_String (253 # 161 # replicate 13 0 @ [k])) = Some up \<and>
      r = \<lparr>SR_Prefix = ipnet_String net_db8, SR_Table = U_Table up, SR_Via = Peer up, SR_Interface = U_Interface up, SR_ServiceSID = []\<rparr>)"
  by (auto simp: DesiredRoutes_def one_rib_def split: option.split)

lemma two_peers_tables: "100 \<in> set (Tables two_peers)"
  by (simp add: Tables_set two_peers_def)






text \<open>No write of a pass is about an entry that is owned and still wanted.\<close>

lemma owned_wanted_unwritten:
  assumes "honest_fib vpp (byPeer cfg)" "cfg_ok cfg" "ParseRIB raw = Some rib" "rib_ok rib"
    and "installedFromVPP vpp cfg s = (Some installed, s1)"
    and own: "k \<in> owned_in (byPeer cfg) (set (Tables cfg)) (snd s)" "k \<in> rt_id ` set (wanted_plain cfg rib)"
  obtains ws where "route_writes (snd (reconcileOnce vpp cfg (Some raw) s)) = ws @ route_writes (snd s)"
    "\<forall>e \<in> set ws. \<exists>b m. fst e = IPRouteAddDel b m \<and> msg_id m \<noteq> k"
proof -
  from pass_writes [OF assms(1-5)] obtain dels adds where
    w: "route_writes (snd (reconcileOnce vpp cfg (Some raw) s)) = (dels @ adds) @ route_writes (snd s)"
    and a: "\<forall>(c, x) \<in> set adds. \<exists>m. c = IPRouteAddDel True m \<and>
       msg_id m \<in> rt_id ` set (wanted_plain cfg rib) - owned_in (byPeer cfg) (set (Tables cfg)) (snd s)"
    and d: "\<forall>(c, x) \<in> set dels. \<exists>m. c = IPRouteAddDel False m \<and>
       msg_id m \<in> owned_in (byPeer cfg) (set (Tables cfg)) (snd s) - rt_id ` set (wanted_plain cfg rib)"
    by auto
  have "\<exists>b m. fst e = IPRouteAddDel b m \<and> msg_id m \<noteq> k" if "e \<in> set dels \<or> e \<in> set adds" for e
  proof (cases e)
    case (Pair c x)
    from that show ?thesis
    proof
      assume "e \<in> set dels"
      with d Pair obtain m where "c = IPRouteAddDel False m" "msg_id m \<notin> rt_id ` set (wanted_plain cfg rib)" by blast
      with own(2) Pair show ?thesis by auto
    next
      assume "e \<in> set adds"
      with a Pair obtain m where "c = IPRouteAddDel True m"
        "msg_id m \<notin> owned_in (byPeer cfg) (set (Tables cfg)) (snd s)" by blast
      with own(1) Pair show ?thesis by auto
    qed
  qed
  then have "\<forall>e \<in> set (dels @ adds). \<exists>b m. fst e = IPRouteAddDel b m \<and> msg_id m \<noteq> k" by simp
  with w that show ?thesis by blast
qed

text \<open>C30: A change of the next hop is not followed. An entry that is already owned and still wanted in its table is never
  written, because the key of a route leaves out the next hop: when the speaker moves a prefix from one peer to
  another peer of the same table, the entry keeps the paths through the old peer.\<close>

theorem next_hop_change_ignored:
  assumes "honest_fib vpp (byPeer cfg)" "cfg_ok cfg" "ParseRIB raw = Some rib" "rib_ok rib"
    and "r \<in> set (DesiredRoutes rib cfg)" "\<not> IsService r" "rt_id r \<in> owned_fib (byPeer cfg) (snd s)"
  shows "fib_of (snd (reconcileOnce vpp cfg (Some raw) s)) (fst (rt_id r)) (snd (rt_id r)) =
    fib_of (snd s) (fst (rt_id r)) (snd (rt_id r))"
proof (cases "fst (installedFromVPP vpp cfg s)")
  case None
  then show ?thesis using fib_of_writes_eq [OF pass_skipped [of "Some raw" vpp cfg s]] by simp
next
  case (Some installed)
  then obtain s1 where i: "installedFromVPP vpp cfg s = (Some installed, s1)" by (cases "installedFromVPP vpp cfg s") auto
  note ok = desired_plain_ok [OF assms(2,4,5,6)]
  obtain n where n: "v6_net n" "SR_Prefix r = ipnet_String n" using ok(1) by (auto simp: read_ok_def plain_ok_def)
  have own: "rt_id r \<in> owned_in (byPeer cfg) (set (Tables cfg)) (snd s)" "rt_id r \<in> rt_id ` set (wanted_plain cfg rib)"
    using assms(5-7) ok(2) n v6_net_String(1) v6_prefix_ToVpp by (auto simp: owned_in_def wanted_plain_def rt_id_def)
  from owned_wanted_unwritten [OF assms(1-4) i own] obtain ws where
    ws: "route_writes (snd (reconcileOnce vpp cfg (Some raw) s)) = ws @ route_writes (snd s)"
    "\<forall>e \<in> set ws. \<exists>b m. fst e = IPRouteAddDel b m \<and> msg_id m \<noteq> rt_id r" .
  have "fib_of (ws @ h) (fst (rt_id r)) (snd (rt_id r)) = fib_of h (fst (rt_id r)) (snd (rt_id r))" for h
    using ws(2) by (induction ws) (auto simp: msg_id_def prod_eq_iff)
  then show ?thesis using ws(1) fib_of_writes by metis
qed

text \<open>VPP with the prefix through the first peer while the speaker has it through the second one.\<close>

definition stale_entry :: ahist where
  "stale_entry = [(IPRouteAddDel True \<lparr>ir_TableID = 100, ir_Prefix = ToVppPrefix net_db8,
     ir_Paths = [ToFibPath (prog_path (253 # 161 # replicate 13 0 @ [1]) 7) True]\<rparr>, ApiOk)]"

lemma stale_entry_owned: "(100, ToVppPrefix net_db8) \<in> owned_fib (byPeer two_peers) stale_entry"
proof -
  let ?a = "253 # 161 # replicate 13 0 @ [1] :: ip"
  have "ParseIP (ip_String ?a) = Some ?a" using ParseIP_ip_String [of ?a] by (simp add: wf_ip_def To16_def)
  moreover have "mhas (byPeer two_peers) (ip_String ?a)" by (simp add: byPeer_has two_peers_def)
  ultimately have "owned_entry (byPeer two_peers) [ToFibPath (prog_path ?a 7) True]" by (rule owned_prog_path)
  then show ?thesis by (simp add: owned_fib_def stale_entry_def)
qed

theorem next_hop_change_ignored_witness:
  "fib_of (snd (reconcileOnce table_vpp two_peers (Some (one_route 2)) (\<lparr>installedPaths = [], svc_block = None\<rparr>, stale_entry)))
     100 (ToVppPrefix net_db8) = Some [ToFibPath (prog_path (253 # 161 # replicate 13 0 @ [1]) 7) True]"
proof -
  obtain up where up: "mget (byPeer two_peers) (ip_String (253 # 161 # replicate 13 0 @ [2])) = Some up" "U_Table up = 100"
    by (auto simp: byPeer_def two_peers_def)
  let ?r = "\<lparr>SR_Prefix = ipnet_String net_db8, SR_Table = U_Table up, SR_Via = Peer up, SR_Interface = U_Interface up, SR_ServiceSID = []\<rparr>"
  have r: "?r \<in> set (DesiredRoutes (one_rib 2) two_peers)" "\<not> IsService ?r" "rt_id ?r = (100, ToVppPrefix net_db8)"
    using up v6_net_String(1) [OF v6_net_db8] by (auto simp: one_rib_desired IsService_def rt_id_def)
  then show ?thesis
    using next_hop_change_ignored [OF table_vpp_honest cfg_ok_two_peers one_route_rib r(1,2),
        of "(\<lparr>installedPaths = [], svc_block = None\<rparr>, stale_entry)"] stale_entry_owned
    by (simp add: stale_entry_def)
qed

section \<open>Service routes\<close>

lemma mask_byte_0: "mask_byte 0 = 0"
  by (simp add: mask_byte_def)

lemma block_shape:
  assumes "ServiceBSIDNet c = Inr (Some block)"
  shows "length (IPNet_IP block) = 16" "take 12 (IPNet_IP block) \<noteq> v4InV6Prefix" "length (IPNet_Mask block) = 16"
    "\<And>i. 12 \<le> i \<Longrightarrow> i < 16 \<Longrightarrow> IPNet_Mask block ! i = 0"
proof -
  let ?k = "fst (Mask_Size (IPNet_Mask block))"
  obtain a where a: "ParseCIDR (ServiceBSIDBlock c) = Some (a, block)" "To4 (IPNet_IP block) = None" "?k \<le> 96"
    using assms by (auto simp: ServiceBSIDNet_def not_less split: if_splits option.splits)
  have wf: "wf_ipnet block" using ParseCIDR_wf [OF a(1)] .
  then show l: "length (IPNet_IP block) = 16" using a(2) by (auto simp: wf_ipnet_def To4_def)
  then show "take 12 (IPNet_IP block) \<noteq> v4InV6Prefix" using a(2) by (auto simp: To4_def)
  have m: "IPNet_Mask block = CIDRMask ?k 128" using wf l by (simp add: wf_ipnet_def)
  then show "length (IPNet_Mask block) = 16" using length_CIDRMask [of 128 ?k] a(3) by simp
  show "IPNet_Mask block ! i = 0" if "12 \<le> i" "i < 16" for i
    using that a(3) by (subst m) (simp add: CIDRMask_bytes mask_byte_0)
qed

lemma length_DeriveServiceBSID [simp]: "length (DeriveServiceBSID block sid) = 16"
  by (simp add: DeriveServiceBSID_def Let_def)

lemma take_DeriveServiceBSID:
  "length (IPNet_IP block) = 16 \<Longrightarrow> take 12 (DeriveServiceBSID block sid) = take 12 (IPNet_IP block)"
  by (simp add: DeriveServiceBSID_def Let_def To16_def copy_array_def)

text \<open>C29: The binding SID of a service lies inside the configured block, for every block the configuration accepts and
  every service SID, so the program recognises what it installed as its own.\<close>

theorem DeriveServiceBSID_inside:
  assumes "ServiceBSIDNet c = Inr (Some block)"
  shows "length (DeriveServiceBSID block sid) = 16 \<and> Contains block (DeriveServiceBSID block sid)"
proof -
  note b = block_shape [OF assms]
  let ?x = "DeriveServiceBSID block sid"
  have nn: "networkNumberAndMask block = Some (IPNet_IP block, IPNet_Mask block)"
    using b(1,2,3) by (simp add: networkNumberAndMask_def To4_def)
  have x: "(case To4 ?x of Some x4 \<Rightarrow> x4 | None \<Rightarrow> ?x) = ?x"
    using take_DeriveServiceBSID [OF b(1)] b(2) by (simp add: To4_def)
  have "IPNet_IP block ! i AND IPNet_Mask block ! i = ?x ! i AND IPNet_Mask block ! i" if "i < 16" for i
  proof (cases "i < 12")
    case True
    then have "take 12 (IPNet_IP block) ! i = take 12 ?x ! i" using take_DeriveServiceBSID [OF b(1)] by simp
    with True show ?thesis by simp
  next
    case False
    then show ?thesis using b(4) that by simp
  qed
  then show ?thesis using b(1,3) by (simp add: Contains_def nn x list_all_length)
qed

text \<open>The block \<open>fcbb::/64\<close>.\<close>

definition bsid_block :: ipnet where
  "bsid_block = \<lparr>IPNet_IP = [252, 187] @ replicate 14 0, IPNet_Mask = replicate 8 255 @ replicate 8 0\<rparr>"

lemma bsid_block_ok:
  "ServiceBSIDNet \<lparr>Upstreams = [], ServiceBSIDBlock = ''fcbb::/64''\<rparr> = Inr (Some bsid_block)"
  by (simp add: ServiceBSIDNet_def bsid_block_def net_eval Let_def upt_rec)

theorem DeriveServiceBSID_inside_witness:
  "Contains bsid_block (DeriveServiceBSID bsid_block ([32, 1, 13, 184] @ replicate 11 0 @ [5]))"
  using DeriveServiceBSID_inside [OF bsid_block_ok] by simp

lemma ParsePrefix_v6:
  assumes "v6_net n"
  shows "ParsePrefix (ipnet_String n) = Some (ToVppPrefix n)"
proof -
  have c: "canonical_net n" "length (IPNet_IP n) = 16" "To4 (IPNet_IP n) = None"
    using assms by (auto simp: v6_net_def canonical_net_def)
  have wf: "wf_ip (IPNet_IP n)" using c(2) by (simp add: wf_ip_def)
  have s: "ipnet_String n = ip_String (IPNet_IP n) @ CHR ''/'' # show_nat (fst (Mask_Size (IPNet_Mask n)))"
    using ipnet_String_canonical [OF c(1)] by simp
  obtain a where a: "ParseCIDR (ipnet_String n) = Some (a, n)" using ParseCIDR_ipnet_String [OF c(1)] by blast
  have tw: "takeWhile (\<lambda>c. c \<noteq> CHR ''/'') (ipnet_String n) = ip_String (IPNet_IP n)"
    unfolding s by (rule takeWhile_first) (use ip_String_chars [OF wf] in auto)
  have "a = IPNet_IP n"
    using a ParseAddr_ip_String [OF wf] c(3) tw
    by (auto simp: ParseCIDR_def Let_def split: list.splits if_splits)
  then show ?thesis
    using a c ParseIP_ip_String [OF wf]
    by (simp add: ParsePrefix_def s To16_def NewAddress_def ToVppPrefix_def ToVppAddress_def)
qed

text \<open>What is relied on from a dump of the policies.\<close>

definition honest_policies :: "api \<Rightarrow> bool" where
  "honest_policies vpp \<longleftrightarrow> (\<forall>h ps. vpp h SrPoliciesDump = ApiPolicies ps \<longrightarrow>
     (\<forall>pol \<in> set ps. length (SP_Bsid pol) = 16) \<and>
     (\<forall>b sls. length b = 16 \<longrightarrow> (\<exists>pol \<in> set ps. SP_Bsid pol = b \<and> SidLists pol = sls) = (policy_of h b = Some sls)))"

lemma fold_policies_entry:
  assumes "mget (fold (\<lambda>pol out. if \<not> Contains block (SP_Bsid pol) then out
      else case last_sid (SidLists pol) of None \<Rightarrow> out | Some sid \<Rightarrow> mput (ip_String (SP_Bsid pol)) sid out) ps out) k = Some cur"
  shows "mget out k = Some cur \<or> (\<exists>pol \<in> set ps. ip_String (SP_Bsid pol) = k \<and> last_sid (SidLists pol) = Some cur)"
  using assms
proof (induction ps arbitrary: out)
  case (Cons pol ps)
  from Cons.IH [OF Cons.prems [simplified]] show ?case by (auto split: if_splits option.splits)
qed simp

lemma servicePolicies_entry:
  assumes "honest_policies vpp" "servicePolicies vpp block h = (Some existing, h')" "mget existing (ip_String b) = Some cur"
    "length b = 16"
  shows "\<exists>sls. policy_of h b = Some sls \<and> last_sid sls = Some cur"
proof -
  obtain ps where ps: "vpp h SrPoliciesDump = ApiPolicies ps"
    "existing = fold (\<lambda>pol out. if \<not> Contains block (SP_Bsid pol) then out
      else case last_sid (SidLists pol) of None \<Rightarrow> out | Some sid \<Rightarrow> mput (ip_String (SP_Bsid pol)) sid out) ps []"
    using assms(2)
    by (auto simp: servicePolicies_def ListSRv6Policies_def call_def Let_def split: api_reply.splits)
  then obtain pol where pol: "pol \<in> set ps" "ip_String (SP_Bsid pol) = ip_String b" "last_sid (SidLists pol) = Some cur"
    using fold_policies_entry [of block ps "[]"] assms(3) by auto
  have "length (SP_Bsid pol) = 16" using assms(1) ps(1) pol(1) by (auto simp: honest_policies_def)
  then have "SP_Bsid pol = b"
    using pol(2) ip_String_eq_iff [of "SP_Bsid pol" b] assms(4) by (simp add: wf_ip_def ip_Equal_def)
  then show ?thesis using assms(1,4) ps(1) pol(1,3) unfolding honest_policies_def by blast
qed

lemma servicePolicies_hist: "servicePolicies vpp block h = (x, h') \<Longrightarrow> policy_of h' = policy_of h"
  by (auto simp: servicePolicies_def ListSRv6Policies_def call_def Let_def fun_eq_iff split: api_reply.splits)

text \<open>C27: A service route that is added is steered into its service. When \<open>AddService\<close> succeeds the prefix of the
  route is steered, in the table of the route, into the binding SID of the service, and VPP holds a policy for that
  binding SID whose last segment is the service SID, also when the policy was there before.\<close>

theorem AddService_steers:
  assumes "honest_policies vpp" "v6_net n" "SR_Prefix r = ipnet_String n" "AddService vpp block r h = (Done, h')"
  shows "\<exists>sid. ParseIP (SR_ServiceSID r) = Some sid \<and>
    steer_of h' (SR_Table r) (ToVppPrefix n) SrSteerIPv6 = Some (DeriveServiceBSID block sid) \<and>
    (\<exists>sls. policy_of h' (DeriveServiceBSID block sid) = Some sls \<and> last_sid sls = Some sid)"
proof -
  obtain sid existing h1 h2 where sid: "ParseIP (SR_ServiceSID r) = Some sid" "To4 sid = None"
    and ex: "servicePolicies vpp block h = (Some existing, h1)"
    and pol: "(case mget existing (ip_String (DeriveServiceBSID block sid)) of
         Some cur \<Rightarrow> if ip_Equal cur sid then skip else fail EBsidCollision
       | None \<Rightarrow> AddSRv6Policy vpp (service_policy (ToVppIP6Address (DeriveServiceBSID block sid)) sid)) h1 = (Done, h2)"
    and st: "AddSRv6Steering vpp (service_steer (SR_Table r) (ToVppPrefix n) (ToVppIP6Address (DeriveServiceBSID block sid))) h2 = (Done, h')"
    using assms(4) v6_net_String(1) [OF assms(2)] ParsePrefix_v6 [OF assms(2)]
    by (auto simp: AddService_def assms(3) fail_def andthen_Done Let_def split: option.splits if_splits prod.splits)
  let ?b = "DeriveServiceBSID block sid"
  have l: "length sid = 16" using ParseIP_length [OF sid(1)] .
  have b: "ToVppIP6Address ?b = ?b" "ToVppIP6Address sid = sid" using l by (simp_all add: ToVppIP6Address_def copy_array_def)
  have "\<exists>sls. policy_of h2 ?b = Some sls \<and> last_sid sls = Some sid"
  proof (cases "mget existing (ip_String ?b)")
    case None
    then have "policy_of h2 ?b = Some (SidLists (service_policy ?b sid))"
      using AddSRv6Policy_result [of vpp "service_policy ?b sid" h1 Done h2] pol b by (simp add: service_policy_def)
    then show ?thesis using b by (simp add: service_policy_def last_sid_def)
  next
    case (Some cur)
    then have c: "ip_Equal cur sid" "h2 = h1" using pol by (auto simp: skip_def fail_def split: if_splits)
    obtain sls where sls: "policy_of h ?b = Some sls" "last_sid sls = Some cur"
      using servicePolicies_entry [OF assms(1) ex Some] by auto
    have "cur = sid" using c(1) l sid(2) by (auto simp: ip_Equal_def To4_def split: if_splits)
    then show ?thesis using sls servicePolicies_hist [OF ex] c(2) by auto
  qed
  moreover have "h' = (SrSteeringAddDel False (service_steer (SR_Table r) (ToVppPrefix n) ?b),
      vpp h2 (SrSteeringAddDel False (service_steer (SR_Table r) (ToVppPrefix n) ?b))) # h2"
    "vpp h2 (SrSteeringAddDel False (service_steer (SR_Table r) (ToVppPrefix n) ?b)) \<noteq> ApiFailed"
    using st b by (auto simp: AddSRv6Steering_def api_exec_eq split: if_splits)
  ultimately show ?thesis using sid by (auto simp: service_steer_def)
qed

lemma policy_of_written: "policy_of h b = Some sls \<Longrightarrow> b \<in> set (written_bsids h)"
  by (induction h arbitrary: sls) (auto split: api_call.splits if_splits)

lemma table_vpp_policies: "honest_policies table_vpp"
proof -
  have "(\<exists>pol \<in> set (policy_dump h). SP_Bsid pol = b \<and> SidLists pol = sls) = (policy_of h b = Some sls)"
    if "length b = 16" for h b sls
    using that policy_of_written [of h b sls] by (auto simp: policy_dump_def image_iff)
  then show ?thesis by (auto simp: honest_policies_def table_vpp_def policy_dump_def)
qed

text \<open>A service with the SID whose last byte is \<open>k\<close>.\<close>

definition service_sid :: "u8 \<Rightarrow> ip" where
  "service_sid k = [32, 1, 13, 184] @ replicate 11 0 @ [k]"

definition service_route :: "u8 \<Rightarrow> SRoute" where
  "service_route k = \<lparr>SR_Prefix = ipnet_String net_db8, SR_Table = 100, SR_Via = [], SR_Interface = [],
     SR_ServiceSID = ip_String (service_sid k)\<rparr>"

lemma service_sid_parse: "ParseIP (ip_String (service_sid k)) = Some (service_sid k)" "To4 (service_sid k) = None"
  "length (service_sid k) = 16"
  using ParseIP_ip_String [of "service_sid k"]
  by (simp_all add: service_sid_def wf_ip_def To16_def To4_def v4InV6Prefix_def replicate_numeral)

theorem AddService_steers_witness:
  "\<exists>h'. AddService table_vpp bsid_block (service_route 5) [] = (Done, h') \<and>
     steer_of h' 100 (ToVppPrefix net_db8) SrSteerIPv6 = Some (DeriveServiceBSID bsid_block (service_sid 5))"
proof -
  let ?b = "DeriveServiceBSID bsid_block (service_sid 5)"
  have "take 12 ?b = take 12 (IPNet_IP bsid_block)" by (rule take_DeriveServiceBSID) (simp add: bsid_block_def)
  then have "?b \<noteq> replicate 16 0" by (auto simp: bsid_block_def replicate_numeral)
  moreover have "ToVppIP6Address ?b = ?b" by (simp add: ToVppIP6Address_def copy_array_def)
  ultimately have "\<exists>h'. AddService table_vpp bsid_block (service_route 5) [] = (Done, h')"
    using v6_net_String(1) [OF v6_net_db8] ParsePrefix_v6 [OF v6_net_db8]
    by (simp add: AddService_def service_route_def service_sid_parse servicePolicies_def ListSRv6Policies_def call_def Let_def
        table_vpp_def policy_dump_def andthen_def AddSRv6Policy_def service_policy_def AddSRv6Steering_def api_exec_eq)
  then obtain h' where h: "AddService table_vpp bsid_block (service_route 5) [] = (Done, h')" by blast
  have "SR_Prefix (service_route 5) = ipnet_String net_db8" by (simp add: service_route_def)
  from AddService_steers [OF table_vpp_policies v6_net_db8 this h] h show ?thesis
    by (auto simp: service_route_def service_sid_parse)
qed

text \<open>A service whose SID changes loses its route. When the speaker announces the same prefix in the same table
  with another service SID, the pass adds the new steering and then deletes the old route; the deletion removes the
  steering of that prefix, which is the new one. After the pass the prefix is not steered at all, although every call
  succeeded.\<close>

theorem service_sid_change_lost:
  assumes "svc_block P = Some block"
    and "installed_tables (InstalledServiceRoutes vpp block) (Tables cfg) h = (Some [old], h1)"
    and "SR_Table new = SR_Table old" "SR_Prefix new = SR_Prefix old" "SR_ServiceSID new \<noteq> SR_ServiceSID old"
    and "v6_net n" "SR_Prefix old = ipnet_String n" "ParseIP (SR_ServiceSID old) = Some sid"
    and "\<And>h c. vpp h c \<noteq> ApiFailed"
  shows "steer_of (snd (reconcileServices vpp cfg [new] (P, h))) (SR_Table old) (ToVppPrefix n) SrSteerIPv6 = None"
proof -
  have "Key new \<noteq> Key old"
    using Key_eq_iff [of new old] assms(4,5,7) v6_net_String(2) [OF assms(6)] by simp
  then have plan: "Reconcile [new] [old] = ([new], [old])"
    by (auto simp: Reconcile_def by_key_def mhas_def)
  have "steer_of (snd (DelService vpp block old h2)) (SR_Table old) (ToVppPrefix n) SrSteerIPv6 = None" for h2
    using assms(7,8) assms(9) v6_net_String(1) [OF assms(6)] ParsePrefix_v6 [OF assms(6)]
    by (auto simp: DelService_def Let_def andthen_def DelSRv6Steering_def DelSRv6Policy_def ListSRv6Steering_def
        api_exec_eq call_def service_steer_def split: api_reply.split)
  then show ?thesis using assms(1,2) plan by (simp add: reconcileServices_def)
qed

text \<open>VPP with the prefix steered into the service with the SID 5.\<close>

definition service_bsid :: ip where
  "service_bsid = [252, 187] @ replicate 13 0 @ [1]"

definition steered :: ahist where
  "steered =
     [(SrSteeringAddDel False (service_steer 100 (ToVppPrefix net_db8) service_bsid), ApiOk),
      (SrPolicyAdd service_bsid 1 True False 0 \<lparr>NumSids = 1, SL_Weight = 1, Sids = service_sid 5 # replicate 15 (replicate 16 0)\<rparr>, ApiOk)]"

lemma Prefix_String_v6:
  assumes "v6_net n"
  shows "Prefix_String (ToVppPrefix n) = ipnet_String n"
proof -
  have c: "canonical_net n" "length (IPNet_IP n) = 16" "To4 (IPNet_IP n) = None"
    using assms by (auto simp: v6_net_def canonical_net_def)
  have "fst (Mask_Size (IPNet_Mask n)) < 256" using c(1,2) by (simp add: canonical_net_def wf_ipnet_def)
  then show ?thesis
    using c by (simp add: ipnet_String_canonical Prefix_String_def ToVppPrefix_def ToVppAddress_def copy_array_def unat_of_nat)
qed

lemma service_bsid_inside: "Contains bsid_block service_bsid"
  by (simp add: bsid_block_def service_bsid_def net_eval Let_def)

lemma steered_installed:
  "\<exists>h1. installed_tables (InstalledServiceRoutes table_vpp bsid_block) (Tables two_peers) steered = (Some [service_route 5], h1)"
proof -
  have tables: "Tables two_peers = [100]" by (simp add: Tables_def two_peers_def)
  have l: "length service_bsid = 16" by (simp add: service_bsid_def)
  have pol: "policy_dump steered = [\<lparr>SP_Bsid = service_bsid, SP_IsSpray = False, SP_IsEncap = True, SP_FibTable = 0,
      SidLists = [\<lparr>NumSids = 1, SL_Weight = 1, Sids = service_sid 5 # replicate 15 (replicate 16 0)\<rparr>]\<rparr>]"
    by (simp add: policy_dump_def steered_def l)
  have st: "steer_dump ((SrPoliciesDump, x) # steered) = [service_steer 100 (ToVppPrefix net_db8) service_bsid]" for x
    by (simp add: steer_dump_def steered_def service_steer_def)
  show ?thesis
    using v6_net_String(1) [OF v6_net_db8]
    by (simp add: tables InstalledServiceRoutes_def servicePolicies_def ListSRv6Policies_def ListSRv6Steering_def call_def Let_def
        table_vpp_def pol st service_bsid_inside last_sid_def service_steer_def Prefix_String_v6 [OF v6_net_db8] service_route_def)
qed

theorem service_sid_change_lost_witness:
  "steer_of steered 100 (ToVppPrefix net_db8) SrSteerIPv6 = Some service_bsid \<and>
   steer_of (snd (reconcileServices table_vpp two_peers [service_route 6]
       (\<lparr>installedPaths = [], svc_block = Some bsid_block\<rparr>, steered))) 100 (ToVppPrefix net_db8) SrSteerIPv6 = None"
proof -
  obtain h1 where h1: "installed_tables (InstalledServiceRoutes table_vpp bsid_block) (Tables two_peers) steered =
    (Some [service_route 5], h1)" using steered_installed by blast
  have sids: "ip_String (service_sid 6) \<noteq> ip_String (service_sid 5)"
  proof
    assume "ip_String (service_sid 6) = ip_String (service_sid 5)"
    then have "service_sid 6 = service_sid 5" using service_sid_parse(1) by (metis option.inject)
    then show False by (simp add: service_sid_def)
  qed
  show ?thesis
    using service_sid_change_lost [of "\<lparr>installedPaths = [], svc_block = Some bsid_block\<rparr>" bsid_block table_vpp two_peers steered
        "service_route 5" h1 "service_route 6" net_db8 "service_sid 5", OF _ h1 _ _ _ v6_net_db8] sids service_sid_parse(1)
    by (simp add: service_route_def steered_def service_steer_def table_vpp_def split: api_call.split)
qed

end
