(* ===== verification/ConnProviders.thy ===== *)
theory ConnProviders
  imports VppApi FelixSync RouteSync
begin

text \<open>
  \<open>calico-vpp-agent/connectivity\<close>, the providers: each carries the traffic to the pods of another node in its own
  way, over a plain route (\<open>flat.go\<close>), an IP-in-IP tunnel (\<open>ipip.go\<close>), a VXLAN tunnel (\<open>vxlan.go\<close>) or a
  WireGuard tunnel (\<open>wireguard.go\<close>), with the calls of \<open>vpplink/ipip.go\<close>, \<open>vpplink/vxlan.go\<close> and
  \<open>vpplink/wireguard.go\<close>, and the base64 the keys travel in.
\<close>

section \<open>State\<close>

record NodeConnectivity =
  cn_Dst :: ipnet
  cn_NextHop :: ip
  cn_ResolvedProvider :: string
  cn_Vni :: u32

definition NodeConnectivity_String :: "NodeConnectivity \<Rightarrow> string" where
  "NodeConnectivity_String cn =
     ipnet_String (cn_Dst cn) @ ''-'' @ ip_String (cn_NextHop cn) @ ''-'' @ show_nat (unat (cn_Vni cn))"

text \<open>The fields of a network and of Felix's configuration this component reads.\<close>

record Network = NetworkDefinition +
  VRF_Tables :: "u32 \<times> u32"
  ND_Vni :: u32
  PhysicalNetworkName :: string

record ConnConfig = FelixConfig +
  VXLANVNI :: int
  VXLANPort :: int
  WireguardEnabled :: bool
  WireguardListeningPort :: int

record UplinkStatus =
  UL_SwIfIndex :: u32
  UL_IsMain :: bool
  UL_PhysicalNetworkName :: string

datatype tunnel_event = TunnelAdded u32 | TunnelDeleted u32

text \<open>
  The server with the maps of its providers. \<open>conn_events\<close> are the events it sent and \<open>conn_published\<close> the keys it
  stored in the status of its node, oldest first.
\<close>

record ConnectivityServer =
  ipipIfs :: "(string, IPIPTunnel) gomap"
  ipipRoutes :: "(u32, (string, unit) gomap) gomap"
  vxlanIfs :: "(string, VXLanTunnel) gomap"
  vxlanRoutes :: "(u32, (string, unit) gomap) gomap"
  ip4NodeIndex :: u32
  ip6NodeIndex :: u32
  wireguardTunnels :: "(string, WireguardTunnel) gomap"
  wireguardPeers :: "(string, WireguardPeer) gomap"
  nodesToWGPublicKey :: "(string, string) gomap"
  connectivityMap :: "(string, NodeConnectivity) gomap"
  nodeBGPSpec :: "LocalNodeSpec option"
  conn_felixConfig :: ConnConfig
  nodeByAddr :: "(string, LocalNodeSpec) gomap"
  networks :: "(u32, Network) gomap"
  conn_events :: "tunnel_event list"
  conn_published :: "string list"

type_synonym cstate = "ConnectivityServer \<times> ahist"
type_synonym ccmd = "(cstate, link_error) cmd"

text \<open>
  What the providers use from elsewhere: VPP, the uplinks of the VPP manager, the methods of the WireGuard peers (a
  package outside the repository), the client of the Calico nodes and the order in which the loop over the two node
  addresses runs; for the server, the Felix server that knows the address pools, the feature gates, the names of the encapsulation modes and
  the two providers modelled elsewhere or not at all.
\<close>

record conn_env =
  ce_vpp :: api
  ce_uplinks :: "UplinkStatus list"
  ce_peerEqual :: "WireguardPeer \<Rightarrow> WireguardPeer \<Rightarrow> bool"
  ce_AddAllowedIp :: "ipnet \<Rightarrow> WireguardPeer \<Rightarrow> WireguardPeer"
  ce_DelAllowedIp :: "ipnet \<Rightarrow> WireguardPeer \<Rightarrow> WireguardPeer"
  ce_nodeGet :: bool
  ce_nodeUpdate :: "string \<Rightarrow> bool"
  ce_ip6First :: bool
  ce_ipam :: Server
  ce_SRv6Enabled :: bool
  ce_IPSecEnabled :: bool
  ce_Always :: string
  ce_CrossSubnet :: string
  ce_otherAdd :: "string \<Rightarrow> NodeConnectivity \<Rightarrow> (ahist, link_error) cmd"
  ce_otherDel :: "string \<Rightarrow> NodeConnectivity \<Rightarrow> (ahist, link_error) cmd"
  ce_otherRescan :: "string \<Rightarrow> (ahist, link_error) cmd"

definition GetMainSwIfIndex :: "conn_env \<Rightarrow> u32" where
  "GetMainSwIfIndex env = (case find UL_IsMain (ce_uplinks env) of None \<Rightarrow> InvalidID | Some u \<Rightarrow> UL_SwIfIndex u)"

section \<open>Commands\<close>

definition on_link :: "(ahist, link_error) cmd \<Rightarrow> ccmd" where
  [go_defs]: "on_link c s = (case c (snd s) of (st, h') \<Rightarrow> (st, (fst s, h')))"

definition on_conn :: "(ConnectivityServer \<Rightarrow> ConnectivityServer) \<Rightarrow> ccmd" where
  [go_defs]: "on_conn f s = (Done, (f (fst s), snd s))"

text \<open>A step after whose error a cleanup runs; the error is returned.\<close>

definition or_cleanup :: "('s, 'e) cmd \<Rightarrow> ('s, 'e) cmd \<Rightarrow> ('s, 'e) cmd" where
  "or_cleanup cl c s = (case c s of (Fail e, s') \<Rightarrow> (Fail e, snd (cl s')) | r \<Rightarrow> r)"

definition send_tunnel :: "tunnel_event \<Rightarrow> ccmd" where
  "send_tunnel e = on_conn (\<lambda>c. c\<lparr>conn_events := conn_events c @ [e]\<rparr>)"

definition PodVRFIndex :: u32 where
  "PodVRFIndex = 2"

definition ToMaxLenCIDR :: "ip \<Rightarrow> ipnet" where
  "ToMaxLenCIDR addr = \<lparr>IPNet_IP = addr, IPNet_Mask = GetMaxCIDRMask addr\<rparr>"

definition sw_path :: "u32 \<Rightarrow> ip \<Rightarrow> RoutePath" where
  "sw_path swIfIndex gw = zero_path\<lparr>Gw := gw, RP_SwIfIndex := swIfIndex\<rparr>"

definition sw_route :: "ipnet \<Rightarrow> u32 \<Rightarrow> ip \<Rightarrow> u32 \<Rightarrow> VRoute" where
  "sw_route dst swIfIndex gw table =
     \<lparr>R_Dst = Some dst, R_Paths = [sw_path swIfIndex gw], R_Table = table, R_RpfID = 0\<rparr>"

text \<open>The inner pair is the result; \<open>None\<close> is the panic while the node's own addresses are not known.\<close>

definition GetNodeIPs :: "ConnectivityServer \<Rightarrow> (ip option \<times> ip option) option" where
  "GetNodeIPs c = map_option (\<lambda>n. (map_option IPNet_IP (IPv4Address n), map_option IPNet_IP (IPv6Address n))) (nodeBGPSpec c)"

text \<open>The node's address of the family of the next hop.\<close>

definition getNodeIPForConnectivity :: "NodeConnectivity \<Rightarrow> ip option \<times> ip option \<Rightarrow> ip option" where
  "getNodeIPForConnectivity cn ips =
     (case ips of (a4, a6) \<Rightarrow>
        if IsIP6 (cn_NextHop cn) \<and> a6 \<noteq> None then a6
        else if \<not> IsIP6 (cn_NextHop cn) \<and> a4 \<noteq> None then a4
        else None)"

text \<open>\<open>m[i][k] = true\<close> with the inner map made when it is missing, and \<open>delete(m[i], k)\<close>.\<close>

definition mark_route :: "u32 \<Rightarrow> string \<Rightarrow> (u32, (string, unit) gomap) gomap \<Rightarrow> (u32, (string, unit) gomap) gomap" where
  "mark_route i k m = mput i (mput k () (case mget m i of None \<Rightarrow> [] | Some r \<Rightarrow> r)) m"

definition unmark_route :: "u32 \<Rightarrow> string \<Rightarrow> (u32, (string, unit) gomap) gomap \<Rightarrow> (u32, (string, unit) gomap) gomap" where
  "unmark_route i k m = (case mget m i of None \<Rightarrow> m | Some r \<Rightarrow> mput i (mdel k r) m)"

definition no_routes :: "u32 \<Rightarrow> (u32, (string, unit) gomap) gomap \<Rightarrow> bool" where
  "no_routes i m = (case mget m i of None \<Rightarrow> True | Some r \<Rightarrow> r = [])"

section \<open>Plain routes\<close>

definition getRoutePaths :: "ip \<Rightarrow> RoutePath list" where
  "getRoutePaths addr = [zero_path\<lparr>Gw := addr, RP_SwIfIndex := InvalidID, RP_Table := 0\<rparr>]"

definition flat_AddConnectivity :: "conn_env \<Rightarrow> NodeConnectivity \<Rightarrow> ccmd" where
  "flat_AddConnectivity env cn =
     on_link (RouteAdd (ce_vpp env) \<lparr>R_Dst = Some (cn_Dst cn), R_Paths = getRoutePaths (cn_NextHop cn), R_Table = 0, R_RpfID = 0\<rparr>)"

definition flat_DelConnectivity :: "conn_env \<Rightarrow> NodeConnectivity \<Rightarrow> ccmd" where
  "flat_DelConnectivity env cn =
     on_link (RouteDel (ce_vpp env) \<lparr>R_Dst = Some (cn_Dst cn), R_Paths = getRoutePaths (cn_NextHop cn), R_Table = 0, R_RpfID = 0\<rparr>)"

section \<open>IP-in-IP tunnels\<close>

definition ListIPIPTunnels :: "api \<Rightarrow> ahist \<Rightarrow> IPIPTunnel list option \<times> ahist" where
  "ListIPIPTunnels vpp h =
     (case call vpp IpipTunnelDump h of (ApiIPIP ts, h') \<Rightarrow> (Some ts, h') | (_, h') \<Rightarrow> (None, h'))"

definition AddIPIPTunnel :: "api \<Rightarrow> IPIPTunnel \<Rightarrow> ahist \<Rightarrow> u32 option \<times> ahist" where
  "AddIPIPTunnel vpp t h = api_index vpp (IpipAddTunnel (NewAddress (ipip_Src t)) (NewAddress (ipip_Dst t)) (ipip_TableID t)) h"

definition DelIPIPTunnel :: "api \<Rightarrow> IPIPTunnel \<Rightarrow> (ahist, link_error) cmd" where
  "DelIPIPTunnel vpp t = api_exec vpp (IpipDelTunnel (ipip_SwIfIndex t))"

text \<open>The settings of a new tunnel interface, each with the cleanup after an error.\<close>

definition tunnel_setup :: "conn_env \<Rightarrow> u32 \<Rightarrow> ccmd \<Rightarrow> ccmd" where
  "tunnel_setup env swIfIndex cl =
     andthen (or_cleanup cl (on_link (InterfaceSetUnnumbered (ce_vpp env) swIfIndex (GetMainSwIfIndex env))))
     (andthen (or_cleanup cl (on_link (EnableGSOFeature (ce_vpp env) swIfIndex)))
     (andthen (or_cleanup cl (on_link (CnatEnableFeatures (ce_vpp env) swIfIndex)))
              (or_cleanup cl (on_link (InterfaceAdminUp (ce_vpp env) swIfIndex)))))"

definition ipip_create :: "conn_env \<Rightarrow> NodeConnectivity \<Rightarrow> ccmd" where
  "ipip_create env cn s =
     (case GetNodeIPs (fst s) of
        None \<Rightarrow> panic s
      | Some ips \<Rightarrow>
          (case getNodeIPForConnectivity cn ips of
             None \<Rightarrow> fail ENodeAddress s
           | Some src \<Rightarrow>
               (let tunnel = \<lparr>ipip_Src = src, ipip_Dst = cn_NextHop cn, ipip_TableID = 0, ipip_SwIfIndex = 0\<rparr> in
                case AddIPIPTunnel (ce_vpp env) tunnel (snd s) of
                  (None, h') \<Rightarrow> (Fail EApi, (fst s, h'))
                | (Some swIfIndex, h') \<Rightarrow>
                    (let tunnel = tunnel\<lparr>ipip_SwIfIndex := swIfIndex\<rparr>;
                         cl = on_link (DelIPIPTunnel (ce_vpp env) tunnel) in
                     andthen (tunnel_setup env swIfIndex cl)
                     (andthen (or_cleanup cl (on_link (RouteAdd (ce_vpp env)
                                  (sw_route (ToMaxLenCIDR (cn_NextHop cn)) swIfIndex [] PodVRFIndex))))
                     (andthen (on_conn (\<lambda>c. c\<lparr>ipipIfs := mput (ip_String (cn_NextHop cn)) tunnel (ipipIfs c)\<rparr>))
                              (send_tunnel (TunnelAdded swIfIndex)))) (fst s, h')))))"

definition ipip_route :: "conn_env \<Rightarrow> NodeConnectivity \<Rightarrow> ccmd" where
  "ipip_route env cn s =
     (case mget (ipipIfs (fst s)) (ip_String (cn_NextHop cn)) of
        None \<Rightarrow> panic s
      | Some tunnel \<Rightarrow>
          andthen (on_link (RouteAdd (ce_vpp env) (sw_route (cn_Dst cn) (ipip_SwIfIndex tunnel) [] 0)))
            (on_conn (\<lambda>c. c\<lparr>ipipRoutes := mark_route (ipip_SwIfIndex tunnel) (ipnet_String (cn_Dst cn)) (ipipRoutes c)\<rparr>)) s)"

definition ipip_AddConnectivity :: "conn_env \<Rightarrow> NodeConnectivity \<Rightarrow> ccmd" where
  "ipip_AddConnectivity env cn s =
     andthen (if mhas (ipipIfs (fst s)) (ip_String (cn_NextHop cn)) then skip else ipip_create env cn) (ipip_route env cn) s"

definition ipip_drop_tunnel :: "conn_env \<Rightarrow> NodeConnectivity \<Rightarrow> IPIPTunnel \<Rightarrow> ccmd" where
  "ipip_drop_tunnel env cn tunnel =
     andthen (attempt (on_link (RouteDel (ce_vpp env) (sw_route (ToMaxLenCIDR (cn_NextHop cn)) (ipip_SwIfIndex tunnel) [] PodVRFIndex))))
     (andthen (attempt (on_link (DelIPIPTunnel (ce_vpp env) tunnel)))
     (andthen (on_conn (\<lambda>c. c\<lparr>ipipIfs := mdel (ip_String (cn_NextHop cn)) (ipipIfs c)\<rparr>))
              (send_tunnel (TunnelDeleted (ipip_SwIfIndex tunnel)))))"

definition ipip_DelConnectivity :: "conn_env \<Rightarrow> NodeConnectivity \<Rightarrow> ccmd" where
  "ipip_DelConnectivity env cn s =
     (case mget (ipipIfs (fst s)) (ip_String (cn_NextHop cn)) of
        None \<Rightarrow> fail EUnknownTunnel s
      | Some tunnel \<Rightarrow>
          andthen (on_link (RouteDel (ce_vpp env) (sw_route (cn_Dst cn) (ipip_SwIfIndex tunnel) [] 0)))
          (andthen (on_conn (\<lambda>c. c\<lparr>ipipRoutes := unmark_route (ipip_SwIfIndex tunnel) (ipnet_String (cn_Dst cn)) (ipipRoutes c)\<rparr>))
            (\<lambda>s. if no_routes (ipip_SwIfIndex tunnel) (ipipRoutes (fst s)) then ipip_drop_tunnel env cn tunnel s else skip s)) s)"

text \<open>The tunnels of this node, and the routes through an interface of a set.\<close>

definition own_address :: "ip option \<times> ip option \<Rightarrow> ip \<Rightarrow> bool" where
  "own_address ips a =
     (case ips of (a4, a6) \<Rightarrow>
        (case a4 of None \<Rightarrow> False | Some x \<Rightarrow> ip_Equal a x) \<or> (case a6 of None \<Rightarrow> False | Some x \<Rightarrow> ip_Equal a x))"

definition routes_through :: "u32 list \<Rightarrow> VRoute list \<Rightarrow> (u32, (string, unit) gomap) gomap" where
  "routes_through sws routes =
     fold (\<lambda>route m. fold (\<lambda>p m. if RP_SwIfIndex p \<in> set sws
              then mark_route (RP_SwIfIndex p) (case R_Dst route of None \<Rightarrow> ''<nil>'' | Some d \<Rightarrow> ipnet_String d) m else m)
            (R_Paths route) m) routes []"

definition ipip_RescanState :: "conn_env \<Rightarrow> ccmd" where
  "ipip_RescanState env s =
     (case ListIPIPTunnels (ce_vpp env) (snd s) of (ts, h1) \<Rightarrow>
        (case GetNodeIPs (fst s) of
           None \<Rightarrow> panic ((fst s)\<lparr>ipipIfs := []\<rparr>, h1)
         | Some ips \<Rightarrow>
             (let tunnels = (case ts of None \<Rightarrow> [] | Some l \<Rightarrow> l);
                  ifs = fold (\<lambda>t m. if own_address ips (ipip_Src t) then mput (ip_String (ipip_Dst t)) t m else m) tunnels []
              in case GetRoutes (ce_vpp env) 0 False h1 of (rs, h2) \<Rightarrow>
                   (Done, ((fst s)\<lparr>ipipIfs := ifs,
                      ipipRoutes := routes_through (map ipip_SwIfIndex (mvals ifs)) (case rs of None \<Rightarrow> [] | Some l \<Rightarrow> l)\<rparr>, h2)))))"

section \<open>VXLAN tunnels\<close>

definition ListVXLanTunnels :: "api \<Rightarrow> ahist \<Rightarrow> VXLanTunnel list option \<times> ahist" where
  "ListVXLanTunnels vpp h =
     (case call vpp VxlanTunnelV2Dump h of (ApiVXLan ts, h') \<Rightarrow> (Some ts, h') | (_, h') \<Rightarrow> (None, h'))"

text \<open>The message has no interface index.\<close>

definition addDelVXLanTunnel :: "api \<Rightarrow> VXLanTunnel \<Rightarrow> bool \<Rightarrow> u32 \<Rightarrow> ahist \<Rightarrow> u32 option \<times> ahist" where
  "addDelVXLanTunnel vpp tunnel isAdd encapVrfID h = 
     api_index vpp (VxlanAddDelTunnelV3 isAdd (tunnel\<lparr>vx_SwIfIndex := 0\<rparr>) encapVrfID) h"

definition AddVXLanTunnel :: "api \<Rightarrow> VXLanTunnel \<Rightarrow> u32 \<Rightarrow> ahist \<Rightarrow> u32 option \<times> ahist" where
  "AddVXLanTunnel vpp tunnel encapVrfID h = addDelVXLanTunnel vpp tunnel True encapVrfID h"

definition DelVXLanTunnel :: "api \<Rightarrow> VXLanTunnel \<Rightarrow> u32 \<Rightarrow> (ahist, link_error) cmd" where
  "DelVXLanTunnel vpp tunnel encapVrfID h =
     (case addDelVXLanTunnel vpp tunnel False encapVrfID h of (None, h') \<Rightarrow> (Fail EApi, h') | (Some _, h') \<Rightarrow> (Done, h'))"

definition AddNodeNext :: "api \<Rightarrow> string \<Rightarrow> string \<Rightarrow> ahist \<Rightarrow> u32 option \<times> ahist" where
  "AddNodeNext vpp name nxt h = api_index vpp (AddNodeNextMsg name nxt) h"

text \<open>A failed call leaves the index 0.\<close>

definition configureVXLANNodes :: "conn_env \<Rightarrow> ccmd" where
  "configureVXLANNodes env s =
     (case AddNodeNext (ce_vpp env) ''vxlan4-input'' ''ip4-input'' (snd s) of
        (None, h1) \<Rightarrow> (Fail EApi, ((fst s)\<lparr>ip4NodeIndex := 0\<rparr>, h1))
      | (Some i4, h1) \<Rightarrow>
          (case AddNodeNext (ce_vpp env) ''vxlan6-input'' ''ip6-input'' h1 of
             (None, h2) \<Rightarrow> (Fail EApi, ((fst s)\<lparr>ip4NodeIndex := i4, ip6NodeIndex := 0\<rparr>, h2))
           | (Some i6, h2) \<Rightarrow> (Done, ((fst s)\<lparr>ip4NodeIndex := i4, ip6NodeIndex := i6\<rparr>, h2))))"

definition DefaultVXLANVni :: int where
  "DefaultVXLANVni = 4096"

definition DefaultVXLANPort :: int where
  "DefaultVXLANPort = 4789"

definition getVXLANVNI :: "ConnectivityServer \<Rightarrow> u32" where
  "getVXLANVNI c = word_of_int (if VXLANVNI (conn_felixConfig c) = 0 then DefaultVXLANVni else VXLANVNI (conn_felixConfig c))"

definition getVXLANPort :: "ConnectivityServer \<Rightarrow> u16" where
  "getVXLANPort c = word_of_int (if VXLANPort (conn_felixConfig c) = 0 then DefaultVXLANPort else VXLANPort (conn_felixConfig c))"

text \<open>The tables of the network of a VNI; a missing network reads as the zero value.\<close>

definition network_tables :: "ConnectivityServer \<Rightarrow> u32 \<Rightarrow> u32 \<times> u32" where
  "network_tables c vni = (case mget (networks c) vni of None \<Rightarrow> (0, 0) | Some n \<Rightarrow> VRF_Tables n)"

definition network_physical :: "ConnectivityServer \<Rightarrow> u32 \<Rightarrow> string" where
  "network_physical c vni = (case mget (networks c) vni of None \<Rightarrow> [] | Some n \<Rightarrow> PhysicalNetworkName n)"

definition getEncapVrfID :: "ConnectivityServer \<Rightarrow> NodeConnectivity \<Rightarrow> u32" where
  "getEncapVrfID c cn =
     (if cn_Vni cn \<noteq> 0 then (case mget (networks c) (cn_Vni cn) of Some n \<Rightarrow> fst (VRF_Tables n) | None \<Rightarrow> 0) else 0)"

definition vxlan_key :: "ip \<Rightarrow> u32 \<Rightarrow> string" where
  "vxlan_key addr vni = ip_String addr @ ''-'' @ show_nat (unat vni)"

text \<open>The tunnels of this node with the configured VNI and port, filed under the VNI they have.\<close>

definition vxlan_found :: "ConnectivityServer \<Rightarrow> ip option \<times> ip option \<Rightarrow> VXLanTunnel list \<Rightarrow> (string, VXLanTunnel) gomap" where
  "vxlan_found c ips tunnels =
     fold (\<lambda>t m. if own_address ips (vx_SrcAddress t) \<and> vx_Vni t = getVXLANVNI c \<and>
                  vx_DstPort t = getVXLANPort c \<and> vx_SrcPort t = getVXLANPort c
               then mput (vxlan_key (vx_DstAddress t) (vx_Vni t)) t m else m) tunnels []"

definition vxlan_rescan_tunnels :: "conn_env \<Rightarrow> ccmd" where
  "vxlan_rescan_tunnels env s =
     (case ListVXLanTunnels (ce_vpp env) (snd s) of (ts, h1) \<Rightarrow>
        (case GetNodeIPs (fst s) of
           None \<Rightarrow> panic ((fst s)\<lparr>vxlanIfs := []\<rparr>, h1)
         | Some ips \<Rightarrow>
             (let ifs = vxlan_found (fst s) ips (case ts of None \<Rightarrow> [] | Some l \<Rightarrow> l)
              in case GetRoutes (ce_vpp env) 0 False h1 of (rs, h2) \<Rightarrow>
                   (Done, ((fst s)\<lparr>vxlanIfs := ifs,
                      vxlanRoutes := routes_through (map vx_SwIfIndex (mvals ifs)) (case rs of None \<Rightarrow> [] | Some l \<Rightarrow> l)\<rparr>, h2)))))"

definition vxlan_RescanState :: "conn_env \<Rightarrow> ccmd" where
  "vxlan_RescanState env = andthen (attempt (configureVXLANNodes env)) (vxlan_rescan_tunnels env)"

text \<open>The table of the family of the destination, for a secondary network.\<close>

definition vxlan_table :: "ConnectivityServer \<Rightarrow> NodeConnectivity \<Rightarrow> u32" where
  "vxlan_table c cn =
     (if cn_Vni cn = 0 then 0
      else (case network_tables c (cn_Vni cn) of (t4, t6) \<Rightarrow> if To4 (IPNet_IP (cn_Dst cn)) = None then t6 else t4))"

text \<open>The steps a new tunnel to a secondary network goes through after it is on record.\<close>

definition vxlan_attach :: "conn_env \<Rightarrow> NodeConnectivity \<Rightarrow> u32 \<Rightarrow> ccmd" where
  "vxlan_attach env cn swIfIndex s =
     (let c = fst s; vpp = ce_vpp env;
          uplinkToUse = (case find (\<lambda>u. UL_PhysicalNetworkName u = network_physical c (cn_Vni cn)) (ce_uplinks env) of
                           None \<Rightarrow> 0 | Some u \<Rightarrow> UL_SwIfIndex u)
      in andthen (on_link (SetInterfaceVRF vpp swIfIndex (fst (network_tables c (cn_Vni cn))) False))
         (andthen (on_link (SetInterfaceVRF vpp swIfIndex (snd (network_tables c (cn_Vni cn))) True))
                  (on_link (InterfaceSetUnnumbered vpp swIfIndex uplinkToUse))) s)"

definition vxlan_tunnel :: "ConnectivityServer \<Rightarrow> NodeConnectivity \<Rightarrow> ip \<Rightarrow> VXLanTunnel" where
  "vxlan_tunnel c cn nodeIP =
     \<lparr>vx_SrcAddress = nodeIP, vx_DstAddress = cn_NextHop cn, vx_SrcPort = getVXLANPort c, vx_DstPort = getVXLANPort c,
      vx_Vni = (if cn_Vni cn \<noteq> 0 then cn_Vni cn else getVXLANVNI c),
      vx_DecapNextIndex = (if IsIP6 (cn_NextHop cn) then ip6NodeIndex c else ip4NodeIndex c), vx_SwIfIndex = 0\<rparr>"

definition vxlan_create :: "conn_env \<Rightarrow> NodeConnectivity \<Rightarrow> ip \<Rightarrow> ccmd" where
  "vxlan_create env cn nodeIP s =
     (let vpp = ce_vpp env; tunnel = vxlan_tunnel (fst s) cn nodeIP in
      case AddVXLanTunnel vpp tunnel (getEncapVrfID (fst s) cn) (snd s) of
        (None, h') \<Rightarrow> (Fail EApi, (fst s, h'))
      | (Some swIfIndex, h') \<Rightarrow>
          andthen (if cn_Vni cn = 0 then on_link (InterfaceSetUnnumbered vpp swIfIndex (GetMainSwIfIndex env)) else skip)
          (andthen (on_link (EnableGSOFeature vpp swIfIndex))
          (andthen (on_link (CnatEnableFeatures vpp swIfIndex))
          (andthen (on_link (InterfaceAdminUp vpp swIfIndex))
          (andthen (if cn_Vni cn = 0
                    then on_link (RouteAdd vpp (sw_route (ToMaxLenCIDR (cn_NextHop cn)) swIfIndex [] PodVRFIndex)) else skip)
          (andthen (on_conn (\<lambda>c. c\<lparr>vxlanIfs := mput (vxlan_key (cn_NextHop cn) (cn_Vni cn)) (tunnel\<lparr>vx_SwIfIndex := swIfIndex\<rparr>) (vxlanIfs c)\<rparr>))
          (andthen (send_tunnel (TunnelAdded swIfIndex))
                   (if cn_Vni cn \<noteq> 0 then vxlan_attach env cn swIfIndex else skip))))))) (fst s, h'))"

text \<open>The route is noted before it is added.\<close>

definition vxlan_route :: "conn_env \<Rightarrow> NodeConnectivity \<Rightarrow> ccmd" where
  "vxlan_route env cn s =
     (let swIfIndex = (case mget (vxlanIfs (fst s)) (vxlan_key (cn_NextHop cn) (cn_Vni cn)) of
                         None \<Rightarrow> 0 | Some t \<Rightarrow> vx_SwIfIndex t) in
      andthen (on_conn (\<lambda>c. c\<lparr>vxlanRoutes := mark_route swIfIndex (ipnet_String (cn_Dst cn)) (vxlanRoutes c)\<rparr>))
        (on_link (RouteAdd (ce_vpp env) (sw_route (cn_Dst cn) swIfIndex (cn_NextHop cn) (vxlan_table (fst s) cn)))) s)"

definition vxlan_AddConnectivity :: "conn_env \<Rightarrow> NodeConnectivity \<Rightarrow> ccmd" where
  "vxlan_AddConnectivity env cn s =
     (case GetNodeIPs (fst s) of
        None \<Rightarrow> panic s
      | Some ips \<Rightarrow>
          (case getNodeIPForConnectivity cn ips of
             None \<Rightarrow> fail ENodeAddress s
           | Some nodeIP \<Rightarrow>
               andthen (if mhas (vxlanIfs (fst s)) (vxlan_key (cn_NextHop cn) (cn_Vni cn)) then skip
                        else vxlan_create env cn nodeIP)
                 (vxlan_route env cn) s))"

definition vxlan_drop_tunnel :: "conn_env \<Rightarrow> NodeConnectivity \<Rightarrow> VXLanTunnel \<Rightarrow> ccmd" where
  "vxlan_drop_tunnel env cn tunnel s =
     andthen (if cn_Vni cn = 0
              then attempt (on_link (RouteDel (ce_vpp env) (sw_route (ToMaxLenCIDR (cn_NextHop cn)) (vx_SwIfIndex tunnel) [] PodVRFIndex)))
              else skip)
     (andthen (attempt (on_link (DelVXLanTunnel (ce_vpp env) tunnel (getEncapVrfID (fst s) cn))))
     (andthen (on_conn (\<lambda>c. c\<lparr>vxlanIfs := mdel (vxlan_key (cn_NextHop cn) (cn_Vni cn)) (vxlanIfs c)\<rparr>))
              (send_tunnel (TunnelDeleted (vx_SwIfIndex tunnel))))) s"

definition vxlan_DelConnectivity :: "conn_env \<Rightarrow> NodeConnectivity \<Rightarrow> ccmd" where
  "vxlan_DelConnectivity env cn s =
     (case mget (vxlanIfs (fst s)) (vxlan_key (cn_NextHop cn) (cn_Vni cn)) of
        None \<Rightarrow> fail EUnknownTunnel s
      | Some tunnel \<Rightarrow>
          andthen (on_link (RouteDel (ce_vpp env) (sw_route (cn_Dst cn) (vx_SwIfIndex tunnel) (cn_NextHop cn) (vxlan_table (fst s) cn))))
          (andthen (on_conn (\<lambda>c. c\<lparr>vxlanRoutes := unmark_route (vx_SwIfIndex tunnel) (ipnet_String (cn_Dst cn)) (vxlanRoutes c)\<rparr>))
            (\<lambda>s. if no_routes (vx_SwIfIndex tunnel) (vxlanRoutes (fst s)) then vxlan_drop_tunnel env cn tunnel s else skip s)) s)"

section \<open>Base64\<close>

definition b64_alphabet :: string where
  "b64_alphabet = ''ABCDEFGHIJKLMNOPQRSTUVWXYZabcdefghijklmnopqrstuvwxyz0123456789+/''"

definition b64_char :: "nat \<Rightarrow> char" where
  "b64_char n = b64_alphabet ! n"

definition b64_value :: "char \<Rightarrow> nat option" where
  "b64_value c = map_of (zip b64_alphabet [0..<64]) c"

fun b64_EncodeToString :: "u8 list \<Rightarrow> string" where
  "b64_EncodeToString [] = []"
| "b64_EncodeToString [a] =
     (let x = unat a in [b64_char (x div 4), b64_char (x mod 4 * 16), CHR ''='', CHR ''=''])"
| "b64_EncodeToString [a, b] =
     (let x = unat a; y = unat b in
      [b64_char (x div 4), b64_char (x mod 4 * 16 + y div 16), b64_char (y mod 16 * 4), CHR ''=''])"
| "b64_EncodeToString (a # b # c # rest) =
     (let x = unat a; y = unat b; z = unat c in
      [b64_char (x div 4), b64_char (x mod 4 * 16 + y div 16), b64_char (y mod 16 * 4 + z div 64), b64_char (z mod 64)] @
      b64_EncodeToString rest)"

text \<open>A quantum of four characters; padding ends the text.\<close>

fun b64_quanta :: "string \<Rightarrow> u8 list option" where
  "b64_quanta [] = Some []"
| "b64_quanta (p # q # r # t # rest) =
     (case (b64_value p, b64_value q) of
        (Some i, Some j) \<Rightarrow>
          (let first = of_nat (i * 4 + j div 16) in
           if t = CHR ''='' then
             (if rest \<noteq> [] then None
              else if r = CHR ''='' then Some [first]
              else (case b64_value r of None \<Rightarrow> None
                    | Some k \<Rightarrow> Some [first, of_nat (j mod 16 * 16 + k div 4)]))
           else (case (b64_value r, b64_value t) of
                   (Some k, Some l) \<Rightarrow>
                     map_option (\<lambda>bs. first # of_nat (j mod 16 * 16 + k div 4) # of_nat (k mod 4 * 64 + l) # bs) (b64_quanta rest)
                 | _ \<Rightarrow> None))
      | _ \<Rightarrow> None)"
| "b64_quanta _ = None"

definition b64_DecodeString :: "string \<Rightarrow> u8 list option" where
  "b64_DecodeString s = b64_quanta (filter (\<lambda>c. c \<noteq> CHR 0x0A \<and> c \<noteq> CHR 0x0D) s)"

section \<open>WireGuard tunnels\<close>

definition DefaultWireguardPort :: int where
  "DefaultWireguardPort = 51820"

definition getWireguardPort :: "ConnectivityServer \<Rightarrow> u16" where
  "getWireguardPort c =
     word_of_int (if WireguardListeningPort (conn_felixConfig c) = 0 then DefaultWireguardPort
                  else WireguardListeningPort (conn_felixConfig c))"

definition listWireguardTunnels :: "api \<Rightarrow> u32 \<Rightarrow> ahist \<Rightarrow> WireguardTunnel list option \<times> ahist" where
  "listWireguardTunnels vpp swIfIndex h =
     (case call vpp (WireguardInterfaceDump swIfIndex) h of (ApiWgTunnels ts, h') \<Rightarrow> (Some ts, h') | (_, h') \<Rightarrow> (None, h'))"

definition ListWireguardTunnels :: "api \<Rightarrow> ahist \<Rightarrow> WireguardTunnel list option \<times> ahist" where
  "ListWireguardTunnels vpp h = listWireguardTunnels vpp InvalidID h"

definition GetWireguardTunnel :: "api \<Rightarrow> u32 \<Rightarrow> ahist \<Rightarrow> (link_error + WireguardTunnel) \<times> ahist" where
  "GetWireguardTunnel vpp swIfIndex h =
     (case listWireguardTunnels vpp swIfIndex h of
        (None, h') \<Rightarrow> (Inl EApi, h')
      | (Some [t], h') \<Rightarrow> (Inr t, h')
      | (Some _, h') \<Rightarrow> (Inl ETunnelCount, h'))"

definition AddWireguardTunnel :: "api \<Rightarrow> WireguardTunnel \<Rightarrow> bool \<Rightarrow> ahist \<Rightarrow> u32 option \<times> ahist" where
  "AddWireguardTunnel vpp tunnel generateKey h =
     api_index vpp (WireguardInterfaceCreate generateKey (tunnel\<lparr>wg_SwIfIndex := InvalidID\<rparr>)) h"

definition DelWireguardTunnel :: "api \<Rightarrow> WireguardTunnel \<Rightarrow> (ahist, link_error) cmd" where
  "DelWireguardTunnel vpp tunnel = api_exec vpp (WireguardInterfaceDelete (wg_SwIfIndex tunnel))"

text \<open>The index of the peer in the reply is not copied.\<close>

definition ListWireguardPeers :: "api \<Rightarrow> ahist \<Rightarrow> WireguardPeer list option \<times> ahist" where
  "ListWireguardPeers vpp h =
     (case call vpp WireguardPeersDump h of
        (ApiWgPeers ps, h') \<Rightarrow> (Some (map (\<lambda>p. p\<lparr>wp_Index := 0\<rparr>) ps), h') | (_, h') \<Rightarrow> (None, h'))"

definition peer_msg :: "WireguardPeer \<Rightarrow> WireguardPeerMsg" where
  "peer_msg p =
     (let ka = word_of_int (wp_PersistentKeepalive p) in
      \<lparr>wm_PublicKey = wp_PublicKey p, wm_Port = wp_Port p, wm_PersistentKeepalive = (if ka = 0 then 1 else ka),
       wm_TableID = wp_TableID p, wm_Endpoint = NewAddress (wp_Addr p), wm_SwIfIndex = wp_SwIfIndex p,
       wm_AllowedIps = map ToVppPrefix (wp_AllowedIps p)\<rparr>)"

definition AddWireguardPeer :: "api \<Rightarrow> WireguardPeer \<Rightarrow> ahist \<Rightarrow> u32 option \<times> ahist" where
  "AddWireguardPeer vpp p h = api_index vpp (WireguardPeerAdd (peer_msg p)) h"

definition DelWireguardPeer :: "api \<Rightarrow> WireguardPeer \<Rightarrow> (ahist, link_error) cmd" where
  "DelWireguardPeer vpp p = api_exec vpp (WireguardPeerRemove (wp_Index p))"

definition GetNodeByIP :: "ConnectivityServer \<Rightarrow> ip \<Rightarrow> LocalNodeSpec option" where
  "GetNodeByIP c addr = mget (nodeByAddr c) (ip_String addr)"

definition node_key :: "ConnectivityServer \<Rightarrow> string \<Rightarrow> string" where
  "node_key c name = (case mget (nodesToWGPublicKey c) name of None \<Rightarrow> [] | Some k \<Rightarrow> k)"

text \<open>A node that is not known is a nil pointer, whose name is read.\<close>

definition wireguard_Enabled :: "ConnectivityServer \<Rightarrow> NodeConnectivity \<Rightarrow> bool outcome" where
  "wireguard_Enabled c cn =
     (if \<not> WireguardEnabled (conn_felixConfig c) then Ret False
      else (case GetNodeByIP c (cn_NextHop cn) of None \<Rightarrow> Crash | Some node \<Rightarrow> Ret (node_key c (LN_Name node) \<noteq> [])))"

text \<open>A function that may return an error or dereference nil.\<close>

datatype 'a lookup = Found 'a | Refused link_error | NilDeref

definition getNodePublicKey :: "ConnectivityServer \<Rightarrow> NodeConnectivity \<Rightarrow> u8 list lookup" where
  "getNodePublicKey c cn =
     (case GetNodeByIP c (cn_NextHop cn) of
        None \<Rightarrow> NilDeref
      | Some node \<Rightarrow>
          if node_key c (LN_Name node) = [] then Refused ENoPublicKey
          else (case b64_DecodeString (node_key c (LN_Name node)) of None \<Rightarrow> Refused EBadKey | Some key \<Rightarrow> Found key))"

definition publishWireguardPublicKey :: "conn_env \<Rightarrow> string \<Rightarrow> ccmd" where
  "publishWireguardPublicKey env pubKey =
     (if \<not> ce_nodeGet env \<or> \<not> ce_nodeUpdate env pubKey then fail ENodeClient
      else on_conn (\<lambda>c. c\<lparr>conn_published := conn_published c @ [pubKey]\<rparr>))"

definition wireguard_RescanState :: "conn_env \<Rightarrow> ccmd" where
  "wireguard_RescanState env s =
     (case ListWireguardTunnels (ce_vpp env) (snd s) of (ts, h1) \<Rightarrow>
        (case GetNodeIPs (fst s) of
           None \<Rightarrow> panic ((fst s)\<lparr>wireguardPeers := [], wireguardTunnels := []\<rparr>, h1)
         | Some (a4, a6) \<Rightarrow>
             (let is_own = (\<lambda>own a. case own of None \<Rightarrow> False | Some x \<Rightarrow> ip_Equal a x);
                  tuns = fold (\<lambda>t m.
                    (let m4 = (if is_own a4 (wg_Addr t) then mput ''ip4'' t m else m)
                     in if is_own a6 (wg_Addr t) then mput ''ip6'' t m4 else m4)) (case ts of None \<Rightarrow> [] | Some l \<Rightarrow> l) []
              in case ListWireguardPeers (ce_vpp env) h1 of (ps, h2) \<Rightarrow>
                   (Done, ((fst s)\<lparr>wireguardTunnels := tuns,
                      wireguardPeers := fold (\<lambda>p m. mput (ip_String (wp_Addr p)) p m) (case ps of None \<Rightarrow> [] | Some l \<Rightarrow> l) []\<rparr>, h2)))))"

text \<open>One iteration of the loop over the node's addresses. The cleanup after a failed creation is given the zero
  index the tunnel still has.\<close>

definition create_one :: "conn_env \<Rightarrow> string \<times> ip \<Rightarrow> ccmd" where
  "create_one env = (\<lambda>(ipfamily, nodeIP) s.
     (let vpp = ce_vpp env; c = fst s;
          tunnel = \<lparr>wg_Addr = nodeIP, wg_Port = getWireguardPort c, wg_SwIfIndex = 0, wg_PublicKey = [],
                    wg_PrivateKey = (case wireguardTunnels c of [] \<Rightarrow> [] | (_, tun) # _ \<Rightarrow> wg_PrivateKey tun)\<rparr>
      in case AddWireguardTunnel vpp tunnel (wireguardTunnels c = []) (snd s) of
           (None, h1) \<Rightarrow> (Fail EApi, (c, snd (DelWireguardTunnel vpp tunnel h1)))
         | (Some swIfIndex, h1) \<Rightarrow>
             (let tunnel = tunnel\<lparr>wg_SwIfIndex := swIfIndex\<rparr>; cl = on_link (DelWireguardTunnel vpp tunnel) in
              case GetWireguardTunnel vpp swIfIndex h1 of
                (Inl e, h2) \<Rightarrow> (Fail e, (c, snd (DelWireguardTunnel vpp tunnel h2)))
              | (Inr created, h2) \<Rightarrow>
                  andthen (tunnel_setup env swIfIndex cl)
                  (andthen (send_tunnel (TunnelAdded swIfIndex))
                           (on_conn (\<lambda>c. c\<lparr>wireguardTunnels := mput ipfamily
                              (tunnel\<lparr>wg_PublicKey := wg_PublicKey created, wg_PrivateKey := wg_PrivateKey created\<rparr>) (wireguardTunnels c)\<rparr>)))
                  (c, h2))))"

definition createWireguardTunnels :: "conn_env \<Rightarrow> ccmd" where
  "createWireguardTunnels env s =
     (case GetNodeIPs (fst s) of
        None \<Rightarrow> panic s
      | Some (None, a6) \<Rightarrow> fail ENodeAddress s
      | Some (Some nodeIP4, a6) \<Rightarrow>
          (let l4 = (if nodeIP4 = [] then [] else [(''ip4'', nodeIP4)]);
               l6 = (case a6 of None \<Rightarrow> [] | Some a \<Rightarrow> if a = [] then [] else [(''ip6'', a)])
           in foreach (create_one env) (if ce_ip6First env then l6 @ l4 else l4 @ l6) s))"

definition wireguard_EnableDisable :: "conn_env \<Rightarrow> bool \<Rightarrow> ccmd" where
  "wireguard_EnableDisable env isEnable s =
     (if isEnable then
        (case (if wireguardTunnels (fst s) = [] then createWireguardTunnels env s else skip s) of
           (Done, s1) \<Rightarrow>
             (case wireguardTunnels (fst s1) of
                [] \<Rightarrow> skip s1
              | (_, tun) # _ \<Rightarrow> attempt (publishWireguardPublicKey env (b64_EncodeToString (wg_PublicKey tun))) s1)
         | (Fail _, s1) \<Rightarrow> skip s1
         | (Panicked, s1) \<Rightarrow> panic s1)
      else attempt (publishWireguardPublicKey env []) s)"

definition wg_family :: "NodeConnectivity \<Rightarrow> string" where
  "wg_family cn = (if To4 (cn_NextHop cn) = None then ''ip6'' else ''ip4'')"

text \<open>Installing a peer, which gets the index of the reply.\<close>

definition put_peer :: "conn_env \<Rightarrow> NodeConnectivity \<Rightarrow> WireguardPeer \<Rightarrow> ccmd \<Rightarrow> ccmd" where
  "put_peer env cn peer between s =
     (case AddWireguardPeer (ce_vpp env) peer (snd s) of
        (None, h') \<Rightarrow> (Fail EApi, (fst s, h'))
      | (Some i, h') \<Rightarrow>
          andthen between
            (on_conn (\<lambda>c. c\<lparr>wireguardPeers := mput (ip_String (cn_NextHop cn)) (peer\<lparr>wp_Index := i\<rparr>) (wireguardPeers c)\<rparr>)) (fst s, h'))"

definition wireguard_peer :: "conn_env \<Rightarrow> NodeConnectivity \<Rightarrow> WireguardTunnel \<Rightarrow> u8 list \<Rightarrow> ccmd" where
  "wireguard_peer env cn tun key s =
     (let vpp = ce_vpp env;
          peer = \<lparr>wp_Index = 0, wp_PublicKey = key, wp_Port = getWireguardPort (fst s), wp_PersistentKeepalive = 0,
                  wp_TableID = 0, wp_Addr = cn_NextHop cn, wp_SwIfIndex = wg_SwIfIndex tun,
                  wp_AllowedIps = [cn_Dst cn, ToMaxLenCIDR (cn_NextHop cn)]\<rparr>
      in case mget (wireguardPeers (fst s)) (ip_String (cn_NextHop cn)) of
           Some existing \<Rightarrow>
             (let peer = ce_AddAllowedIp env (cn_Dst cn) (peer\<lparr>wp_AllowedIps := wp_AllowedIps existing\<rparr>) in
              if ce_peerEqual env existing peer
              then on_conn (\<lambda>c. c\<lparr>wireguardPeers := mput (ip_String (cn_NextHop cn)) peer (wireguardPeers c)\<rparr>) s
              else andthen (on_link (DelWireguardPeer vpp existing)) (put_peer env cn peer skip) s)
         | None \<Rightarrow>
             put_peer env cn peer (on_link (RouteAdd vpp (sw_route (ToMaxLenCIDR (cn_NextHop cn)) (wg_SwIfIndex tun) [] PodVRFIndex))) s)"

definition wireguard_AddConnectivity :: "conn_env \<Rightarrow> NodeConnectivity \<Rightarrow> ccmd" where
  "wireguard_AddConnectivity env cn s =
     (case mget (wireguardTunnels (fst s)) (wg_family cn) of
        None \<Rightarrow> fail EMissingWgTunnel s
      | Some tun \<Rightarrow>
          (case getNodePublicKey (fst s) cn of
             NilDeref \<Rightarrow> panic s
           | Refused e \<Rightarrow> fail e s
           | Found key \<Rightarrow>
               andthen (wireguard_peer env cn tun key)
                 (on_link (RouteAdd (ce_vpp env) (sw_route (cn_Dst cn) (wg_SwIfIndex tun) (IPNet_IP (cn_Dst cn)) 0))) s))"

definition wireguard_DelConnectivity :: "conn_env \<Rightarrow> NodeConnectivity \<Rightarrow> ccmd" where
  "wireguard_DelConnectivity env cn s =
     (let vpp = ce_vpp env in
      case mget (wireguardTunnels (fst s)) (wg_family cn) of
        None \<Rightarrow> fail EMissingWgTunnel s
      | Some tun \<Rightarrow>
          (case mget (wireguardPeers (fst s)) (ip_String (cn_NextHop cn)) of
             None \<Rightarrow> fail EUnknownTunnel s
           | Some old \<Rightarrow>
               (let peer = ce_DelAllowedIp env (cn_Dst cn) old in
                andthen (on_link (DelWireguardPeer vpp peer))
                (andthen
                  (if length (wp_AllowedIps peer) = 1
                   then andthen (on_link (RouteDel vpp (sw_route (ToMaxLenCIDR (cn_NextHop cn)) (wg_SwIfIndex tun) [] PodVRFIndex)))
                          (on_conn (\<lambda>c. c\<lparr>wireguardPeers := mdel (ip_String (cn_NextHop cn)) (wireguardPeers c)\<rparr>))
                   else put_peer env cn peer skip)
                  (on_link (RouteDel vpp (sw_route (cn_Dst cn) (wp_SwIfIndex peer) (IPNet_IP (cn_Dst cn)) 0)))) s)))"

end
