(* ===== verification/ConnContract.thy ===== *)
theory ConnContract
  imports ConnProviders
begin

text \<open>
  The contract of the connectivity providers: what the server relies on when it calls one of them. It is a locale,
  interpreted on the plain, the IP-in-IP, the VXLAN and the WireGuard provider.
\<close>

section \<open>What the server relies on\<close>

text \<open>The fields no provider writes.\<close>

definition server_part :: "ConnectivityServer \<Rightarrow> (string, NodeConnectivity) gomap \<times> LocalNodeSpec option \<times> ConnConfig \<times>
    (string, LocalNodeSpec) gomap \<times> (u32, Network) gomap \<times> (string, string) gomap" where
  "server_part c = (connectivityMap c, nodeBGPSpec c, conn_felixConfig c, nodeByAddr c, networks c, nodesToWGPublicKey c)"

definition entry_of :: "cstate \<Rightarrow> u32 \<Rightarrow> NodeConnectivity \<Rightarrow> FibPath list option" where
  "entry_of s table cn = fib_of (snd s) table (ToVppPrefix (cn_Dst cn))"

text \<open>
  The contract of \<open>ConnectivityProvider\<close>: a successful addition leaves the destination routed over the path the
  provider has for the next hop, a successful deletion leaves it without a route, and neither touches what belongs to
  the server.
\<close>

locale connectivity_provider =
  fixes add del :: "NodeConnectivity \<Rightarrow> ccmd"
    and table :: "ConnectivityServer \<Rightarrow> NodeConnectivity \<Rightarrow> u32"
    and path :: "ConnectivityServer \<Rightarrow> NodeConnectivity \<Rightarrow> RoutePath option"
  assumes add_installs: "add cn s = (Done, s') \<Longrightarrow>
      \<exists>p. path (fst s') cn = Some p \<and> entry_of s' (table (fst s') cn) cn = Some [ToFibPath p (IsIP6 (IPNet_IP (cn_Dst cn)))]"
    and del_withdraws: "del cn s = (Done, s') \<Longrightarrow> entry_of s' (table (fst s') cn) cn = None"
    and add_server: "add cn s = (st, s') \<Longrightarrow> server_part (fst s') = server_part (fst s)"
    and del_server: "del cn s = (st, s') \<Longrightarrow> server_part (fst s') = server_part (fst s)"
begin

lemma replaced_installs:
  assumes "andthen (attempt (old cn)) (add cn) s = (Done, s')"
  shows "\<exists>p. path (fst s') cn = Some p \<and> entry_of s' (table (fst s') cn) cn = Some [ToFibPath p (IsIP6 (IPNet_IP (cn_Dst cn)))]"
  using assms by (auto simp: andthen_Done intro: add_installs)

lemma map_kept:
  "add cn s = (st, s') \<Longrightarrow> connectivityMap (fst s') = connectivityMap (fst s)"
  "del cn s = (st, s') \<Longrightarrow> connectivityMap (fst s') = connectivityMap (fst s)"
  using add_server [of cn s st s'] del_server [of cn s st s'] by (auto simp: server_part_def)

end

subsection \<open>Commands that keep the server's part\<close>

definition keeps :: "ConnectivityServer \<Rightarrow> 'e status \<times> cstate \<Rightarrow> bool" where
  "keeps c r \<longleftrightarrow> server_part (fst (snd r)) = server_part c"

named_theorems keep \<open>rules that reduce what a command keeps to its parts\<close>

abbreviation same_server :: "ConnectivityServer \<Rightarrow> cstate \<Rightarrow> bool" where
  "same_server c s \<equiv> server_part (fst s) = server_part c"

lemma keeps_pair [keep]: "server_part (fst s) = server_part c \<Longrightarrow> keeps c (st, s)"
  by (simp add: keeps_def)

lemma keeps_simple [keep]:
  "same_server c s \<Longrightarrow> keeps c (skip s)" "same_server c s \<Longrightarrow> keeps c (fail e s)" "same_server c s \<Longrightarrow> keeps c (panic s)"
  "same_server c s \<Longrightarrow> keeps c (on_link a s)" "same_server c s \<Longrightarrow> keeps c (send_tunnel ev s)"
  by (simp_all add: keeps_def skip_def fail_def panic_def on_link_def send_tunnel_def on_conn_def server_part_def split: prod.split)

lemma keeps_on_conn [keep]: "server_part (f (fst s)) = server_part c \<Longrightarrow> keeps c (on_conn f s)"
  by (simp add: keeps_def on_conn_def)

lemma keeps_andthen [keep]:
  "keeps c (a s) \<Longrightarrow> (\<And>s'. same_server c s' \<Longrightarrow> keeps c (b s')) \<Longrightarrow> keeps c (andthen a b s)"
  by (auto simp: keeps_def andthen_def split: prod.split status.split)

lemma keeps_attempt [keep]: "keeps c (a s) \<Longrightarrow> keeps c (attempt a s)"
  by (auto simp: keeps_def attempt_def split: prod.split status.split)

lemma keeps_or_cleanup [keep]:
  "keeps c (a s) \<Longrightarrow> (\<And>s'. same_server c s' \<Longrightarrow> keeps c (cl s')) \<Longrightarrow> keeps c (or_cleanup cl a s)"
  by (auto simp: keeps_def or_cleanup_def split: prod.split status.split)

lemma keeps_if [keep]:
  "(b \<Longrightarrow> keeps c (a s)) \<Longrightarrow> (\<not> b \<Longrightarrow> keeps c (d s)) \<Longrightarrow> keeps c ((if b then a else d) s)"
  "(b \<Longrightarrow> keeps c r) \<Longrightarrow> (\<not> b \<Longrightarrow> keeps c r') \<Longrightarrow> keeps c (if b then r else r')"
  by simp_all

lemma keeps_foreach [keep]:
  assumes "same_server c s" "\<And>y s'. y \<in> set ys \<Longrightarrow> same_server c s' \<Longrightarrow> keeps c (f y s')"
  shows "keeps c (foreach f ys s)"
  using assms
proof (induction ys arbitrary: s)
  case (Cons y ys)
  obtain st s' where f: "f y s = (st, s')" by (cases "f y s")
  with Cons.prems(2) [of y s] Cons.prems(1) have "same_server c s'" by (simp add: keeps_def)
  with f Cons.IH [of s'] Cons.prems(2) show ?case by (cases st) (auto intro: keep)
qed (simp add: keep)

lemma keeps_outcome: "keeps c r \<Longrightarrow> r = (st, s') \<Longrightarrow> server_part (fst s') = server_part c"
  by (simp add: keeps_def)

lemma server_part_provider [simp]:
  "server_part (c\<lparr>ipipIfs := a\<rparr>) = server_part c" "server_part (c\<lparr>ipipRoutes := b\<rparr>) = server_part c"
  "server_part (c\<lparr>vxlanIfs := d\<rparr>) = server_part c" "server_part (c\<lparr>vxlanRoutes := b\<rparr>) = server_part c"
  "server_part (c\<lparr>wireguardPeers := e\<rparr>) = server_part c" "server_part (c\<lparr>wireguardTunnels := f\<rparr>) = server_part c"
  "server_part (c\<lparr>conn_events := g\<rparr>) = server_part c" "server_part (c\<lparr>conn_published := h\<rparr>) = server_part c"
  "server_part (c\<lparr>ip4NodeIndex := i\<rparr>) = server_part c" "server_part (c\<lparr>ip6NodeIndex := j\<rparr>) = server_part c"
  by (simp_all add: server_part_def)

lemma keeps_tunnel_setup [keep]:
  "same_server c s \<Longrightarrow> (\<And>s'. same_server c s' \<Longrightarrow> keeps c (cl s')) \<Longrightarrow> keeps c (tunnel_setup env i cl s)"
  unfolding tunnel_setup_def by (intro keep)

lemma keeps_ipip_Add [keep]: "same_server c s \<Longrightarrow> keeps c (ipip_AddConnectivity env cn s)"
  unfolding ipip_AddConnectivity_def ipip_create_def ipip_route_def Let_def
  by (auto split: option.split prod.split intro!: keep)

lemma keeps_ipip_Del [keep]: "same_server c s \<Longrightarrow> keeps c (ipip_DelConnectivity env cn s)"
  unfolding ipip_DelConnectivity_def ipip_drop_tunnel_def
  by (auto split: option.split intro!: keep)

lemma keeps_vxlan_Add [keep]: "same_server c s \<Longrightarrow> keeps c (vxlan_AddConnectivity env cn s)"
  unfolding vxlan_AddConnectivity_def vxlan_create_def vxlan_route_def vxlan_attach_def Let_def
  by (auto split: option.split prod.split intro!: keep)

lemma keeps_vxlan_Del [keep]: "same_server c s \<Longrightarrow> keeps c (vxlan_DelConnectivity env cn s)"
  unfolding vxlan_DelConnectivity_def vxlan_drop_tunnel_def
  by (auto split: option.split intro!: keep)

lemma keeps_put_peer [keep]:
  "same_server c s \<Longrightarrow> (\<And>s'. same_server c s' \<Longrightarrow> keeps c (b s')) \<Longrightarrow> keeps c (put_peer env cn p b s)"
  unfolding put_peer_def by (auto split: option.split prod.split intro!: keep)

lemma keeps_wireguard_Add [keep]: "same_server c s \<Longrightarrow> keeps c (wireguard_AddConnectivity env cn s)"
  unfolding wireguard_AddConnectivity_def wireguard_peer_def Let_def
  by (auto split: option.split lookup.split intro!: keep)

lemma keeps_wireguard_Del [keep]: "same_server c s \<Longrightarrow> keeps c (wireguard_DelConnectivity env cn s)"
  unfolding wireguard_DelConnectivity_def Let_def
  by (auto split: option.split intro!: keep)

lemma keeps_publish [keep]: "same_server c s \<Longrightarrow> keeps c (publishWireguardPublicKey env k s)"
  unfolding publishWireguardPublicKey_def by (auto intro!: keep)

lemma keeps_create_one [keep]: "same_server c s \<Longrightarrow> keeps c (create_one env x s)"
  unfolding create_one_def Let_def
  by (auto split: option.split prod.split sum.split intro!: keep)

lemma keeps_create [keep]: "same_server c s \<Longrightarrow> keeps c (createWireguardTunnels env s)"
  unfolding createWireguardTunnels_def Let_def
  by (auto simp del: foreach.simps split: option.split prod.split intro!: keep)

lemma keeps_wireguard_EnableDisable [keep]:
  assumes "same_server c s"
  shows "keeps c (wireguard_EnableDisable env b s)"
proof -
  let ?r = "if wireguardTunnels (fst s) = [] then createWireguardTunnels env s else skip s"
  have "keeps c ?r" using assms by (intro keep)
  then obtain st s1 where "?r = (st, s1)" "same_server c s1" by (cases ?r) (simp add: keeps_def)
  then show ?thesis
    using assms unfolding wireguard_EnableDisable_def by (cases st) (auto split: list.split intro!: keep)
qed

lemma keeps_Rescan [keep]:
  "same_server c s \<Longrightarrow> keeps c (ipip_RescanState env s)"
  "same_server c s \<Longrightarrow> keeps c (wireguard_RescanState env s)"
  by (auto simp: ipip_RescanState_def wireguard_RescanState_def Let_def split: prod.split option.split intro!: keep)

lemma keeps_vxlan_Rescan [keep]: "same_server c s \<Longrightarrow> keeps c (vxlan_RescanState env s)"
proof -
  assume "same_server c s"
  then have "keeps c (configureVXLANNodes env s)"
    unfolding configureVXLANNodes_def by (auto split: prod.split option.split intro!: keep)
  then show ?thesis
    unfolding vxlan_RescanState_def vxlan_rescan_tunnels_def Let_def by (auto split: prod.split option.split intro!: keep)
qed

section \<open>The providers keep the contract\<close>

lemma ir_sw_route [simp]:
  "ir_TableID (route_msg (sw_route d i gw t)) = t" "ir_Prefix (route_msg (sw_route d i gw t)) = ToVppPrefix d"
  "ir_Paths (route_msg (sw_route d i gw t)) = [ToFibPath (sw_path i gw) (IsIP6 (IPNet_IP d))]"
  by (simp_all add: route_msg_def sw_route_def Let_def Route_IsIP6_def ToFibPathList_def)

lemma on_link_api: "on_link (api_exec vpp c) s = (if vpp (snd s) c = ApiFailed then Fail EApi else Done, (fst s, (c, vpp (snd s) c) # snd s))"
  by (simp add: on_link_def api_exec_eq)

lemmas link_defs = RouteAdd_def RouteDel_def addDelIPRoute_def InterfaceSetUnnumbered_def EnableGSOFeature_def
  CnatEnableFeatures_def InterfaceAdminUp_def SetInterfaceVRF_def DelIPIPTunnel_def DelWireguardTunnel_def DelWireguardPeer_def

lemma on_link_RouteAdd: "on_link (RouteAdd vpp r) s = (Done, s') \<Longrightarrow>
  fst s' = fst s \<and> fib_of (snd s') (ir_TableID (route_msg r)) (ir_Prefix (route_msg r)) = Some (ir_Paths (route_msg r))"
  by (auto simp: link_defs on_link_api split: if_splits)

lemma on_link_RouteDel: "on_link (RouteDel vpp r) s = (Done, s') \<Longrightarrow>
  fst s' = fst s \<and> fib_of (snd s') (ir_TableID (route_msg r)) (ir_Prefix (route_msg r)) = None"
  by (auto simp: link_defs on_link_api split: if_splits)

definition flat_path :: "ConnectivityServer \<Rightarrow> NodeConnectivity \<Rightarrow> RoutePath option" where
  "flat_path c cn = Some (zero_path\<lparr>Gw := cn_NextHop cn, RP_SwIfIndex := InvalidID, RP_Table := 0\<rparr>)"

definition ipip_path :: "ConnectivityServer \<Rightarrow> NodeConnectivity \<Rightarrow> RoutePath option" where
  "ipip_path c cn = map_option (\<lambda>t. sw_path (ipip_SwIfIndex t) []) (mget (ipipIfs c) (ip_String (cn_NextHop cn)))"

definition vxlan_path :: "ConnectivityServer \<Rightarrow> NodeConnectivity \<Rightarrow> RoutePath option" where
  "vxlan_path c cn = map_option (\<lambda>t. sw_path (vx_SwIfIndex t) (cn_NextHop cn)) (mget (vxlanIfs c) (vxlan_key (cn_NextHop cn) (cn_Vni cn)))"

definition wireguard_path :: "ConnectivityServer \<Rightarrow> NodeConnectivity \<Rightarrow> RoutePath option" where
  "wireguard_path c cn = map_option (\<lambda>t. sw_path (wg_SwIfIndex t) (IPNet_IP (cn_Dst cn))) (mget (wireguardTunnels c) (wg_family cn))"

text \<open>A route of another table.\<close>

lemma fib_other_table:
  assumes "attempt (on_link (RouteDel vpp (sw_route d i gw t'))) s = (st, s')" "t' \<noteq> t"
  shows "fst s' = fst s" "fib_of (snd s') t p = fib_of (snd s) t p"
  using assms by (auto simp: link_defs on_link_api attempt_def split: if_splits)

lemma PodVRF_other [simp]: "PodVRFIndex \<noteq> 0"
  by (simp add: PodVRFIndex_def)

lemma flat_add: "flat_AddConnectivity env cn s = (Done, s') \<Longrightarrow>
  \<exists>p. flat_path (fst s') cn = Some p \<and> entry_of s' 0 cn = Some [ToFibPath p (IsIP6 (IPNet_IP (cn_Dst cn)))]"
  unfolding flat_AddConnectivity_def
  by (drule on_link_RouteAdd)
    (simp add: flat_path_def entry_of_def route_msg_def Let_def Route_IsIP6_def ToFibPathList_def getRoutePaths_def)

lemma flat_del: "flat_DelConnectivity env cn s = (Done, s') \<Longrightarrow> entry_of s' 0 cn = None"
  unfolding flat_DelConnectivity_def by (drule on_link_RouteDel) (simp add: entry_of_def route_msg_def Let_def)

lemma ipip_add:
  assumes "ipip_AddConnectivity env cn s = (Done, s')"
  shows "\<exists>p. ipip_path (fst s') cn = Some p \<and> entry_of s' 0 cn = Some [ToFibPath p (IsIP6 (IPNet_IP (cn_Dst cn)))]"
proof -
  obtain s1 where "ipip_route env cn s1 = (Done, s')"
    using assms by (auto simp: ipip_AddConnectivity_def andthen_Done)
  then obtain t s2 where t: "mget (ipipIfs (fst s1)) (ip_String (cn_NextHop cn)) = Some t"
    and r: "on_link (RouteAdd (ce_vpp env) (sw_route (cn_Dst cn) (ipip_SwIfIndex t) [] 0)) s1 = (Done, s2)"
    and s': "s' = (fst s2\<lparr>ipipRoutes := mark_route (ipip_SwIfIndex t) (ipnet_String (cn_Dst cn)) (ipipRoutes (fst s2))\<rparr>, snd s2)"
    by (auto simp: ipip_route_def andthen_Done panic_def on_conn_def split: option.splits)
  from on_link_RouteAdd [OF r] t show ?thesis by (simp add: s' ipip_path_def entry_of_def)
qed

lemma ipip_drop_fib:
  "ipip_drop_tunnel env cn t s = (st, s') \<Longrightarrow> fib_of (snd s') 0 p = fib_of (snd s) 0 p"
  by (auto simp: ipip_drop_tunnel_def andthen_def attempt_def on_conn_def send_tunnel_def link_defs on_link_api split: if_splits)

lemma ipip_del:
  assumes "ipip_DelConnectivity env cn s = (Done, s')"
  shows "entry_of s' 0 cn = None"
proof -
  obtain t s1 where t: "mget (ipipIfs (fst s)) (ip_String (cn_NextHop cn)) = Some t"
    and r: "on_link (RouteDel (ce_vpp env) (sw_route (cn_Dst cn) (ipip_SwIfIndex t) [] 0)) s = (Done, s1)"
    and d: "snd s' = snd s1 \<or> (\<exists>s2. snd s2 = snd s1 \<and> ipip_drop_tunnel env cn t s2 = (Done, s'))"
    using assms by (fastforce simp: ipip_DelConnectivity_def andthen_Done fail_def skip_def on_conn_def split: option.splits if_splits)
  with on_link_RouteDel [OF r] show ?thesis by (auto simp: entry_of_def ipip_drop_fib)
qed

lemma vxlan_table_kept: "server_part c = server_part c' \<Longrightarrow> vxlan_table c cn = vxlan_table c' cn"
  by (simp add: vxlan_table_def network_tables_def server_part_def)

lemma on_link_fst: "on_link c s = (st, s') \<Longrightarrow> fst s' = fst s"
  by (auto simp: on_link_def split: prod.splits)

lemma vxlan_create_records:
  assumes "vxlan_create env cn ip s = (Done, s')"
  shows "mhas (vxlanIfs (fst s')) (vxlan_key (cn_NextHop cn) (cn_Vni cn))"
  using assms by (auto simp: vxlan_create_def vxlan_attach_def Let_def andthen_Done on_conn_def send_tunnel_def skip_def
      mhas_def dest!: on_link_fst split: option.splits prod.splits if_splits)

lemma vxlan_add:
  assumes "vxlan_AddConnectivity env cn s = (Done, s')"
  shows "\<exists>p. vxlan_path (fst s') cn = Some p \<and> entry_of s' (vxlan_table (fst s') cn) cn = Some [ToFibPath p (IsIP6 (IPNet_IP (cn_Dst cn)))]"
proof -
  obtain s1 where "vxlan_route env cn s1 = (Done, s')" "mhas (vxlanIfs (fst s1)) (vxlan_key (cn_NextHop cn) (cn_Vni cn))"
    using assms by (auto simp: vxlan_AddConnectivity_def andthen_Done panic_def fail_def skip_def
        dest: vxlan_create_records split: option.splits if_splits)
  then obtain t s2 where t: "mget (vxlanIfs (fst s1)) (vxlan_key (cn_NextHop cn) (cn_Vni cn)) = Some t"
    and s2: "fst s2 = fst s1\<lparr>vxlanRoutes := mark_route (vx_SwIfIndex t) (ipnet_String (cn_Dst cn)) (vxlanRoutes (fst s1))\<rparr>"
    and r: "on_link (RouteAdd (ce_vpp env) (sw_route (cn_Dst cn) (vx_SwIfIndex t) (cn_NextHop cn) (vxlan_table (fst s1) cn))) s2 = (Done, s')"
    by (fastforce simp: vxlan_route_def Let_def andthen_Done on_conn_def mhas_def)
  from on_link_RouteAdd [OF r] t show ?thesis
    by (simp add: s2 vxlan_path_def entry_of_def vxlan_table_kept [of "_\<lparr>vxlanRoutes := _\<rparr>" "fst s1"])
qed

lemma vxlan_drop_fib:
  assumes "vxlan_drop_tunnel env cn tn s = (st, s')" "cn_Vni cn = 0 \<longrightarrow> t = 0"
  shows "fib_of (snd s') t p = fib_of (snd s) t p"
  using assms by (auto simp: vxlan_drop_tunnel_def andthen_def attempt_def on_conn_def send_tunnel_def link_defs on_link_api skip_def
      DelVXLanTunnel_def addDelVXLanTunnel_def api_index_def call_def Let_def on_link_def [of "DelVXLanTunnel _ _ _"]
      split: if_splits api_reply.splits)

lemma vxlan_del:
  assumes "vxlan_DelConnectivity env cn s = (Done, s')"
  shows "entry_of s' (vxlan_table (fst s') cn) cn = None"
proof -
  obtain t s1 where t: "mget (vxlanIfs (fst s)) (vxlan_key (cn_NextHop cn) (cn_Vni cn)) = Some t"
    and r: "on_link (RouteDel (ce_vpp env) (sw_route (cn_Dst cn) (vx_SwIfIndex t) (cn_NextHop cn) (vxlan_table (fst s) cn))) s = (Done, s1)"
    and d: "snd s' = snd s1 \<or> (\<exists>s2. snd s2 = snd s1 \<and> vxlan_drop_tunnel env cn t s2 = (Done, s'))"
    using assms by (fastforce simp: vxlan_DelConnectivity_def andthen_Done fail_def skip_def on_conn_def split: option.splits if_splits)
  have "vxlan_table (fst s') cn = vxlan_table (fst s) cn"
    using keeps_outcome [OF keeps_vxlan_Del assms, of "fst s"] by (intro vxlan_table_kept) simp
  moreover have "cn_Vni cn = 0 \<longrightarrow> vxlan_table (fst s) cn = 0" by (simp add: vxlan_table_def)
  ultimately show ?thesis
    using d on_link_RouteDel [OF r] by (auto simp: entry_of_def vxlan_drop_fib)
qed

lemma put_peer_Done:
  assumes "put_peer env cn p b s = (Done, s')" "\<And>s1 s2. b s1 = (Done, s2) \<Longrightarrow> fst s2 = fst s1"
  shows "\<exists>i. fst s' = fst s\<lparr>wireguardPeers := mput (ip_String (cn_NextHop cn)) (p\<lparr>wp_Index := i\<rparr>) (wireguardPeers (fst s))\<rparr>"
  using assms by (fastforce simp: put_peer_def andthen_Done on_conn_def split: option.splits prod.splits)

lemma wireguard_add:
  assumes "wireguard_AddConnectivity env cn s = (Done, s')"
  shows "\<exists>p. wireguard_path (fst s') cn = Some p \<and> entry_of s' 0 cn = Some [ToFibPath p (IsIP6 (IPNet_IP (cn_Dst cn)))]"
proof -
  obtain t key s1 where t: "mget (wireguardTunnels (fst s)) (wg_family cn) = Some t"
    and p: "wireguard_peer env cn t key s = (Done, s1)"
    and r: "on_link (RouteAdd (ce_vpp env) (sw_route (cn_Dst cn) (wg_SwIfIndex t) (IPNet_IP (cn_Dst cn)) 0)) s1 = (Done, s')"
    using assms by (auto simp: wireguard_AddConnectivity_def andthen_Done panic_def fail_def split: option.splits lookup.splits)
  have "wireguardTunnels (fst s1) = wireguardTunnels (fst s)"
    using p by (auto simp: wireguard_peer_def Let_def andthen_Done on_conn_def skip_def
        dest!: on_link_fst put_peer_Done split: option.splits if_splits)
  with on_link_RouteAdd [OF r] t show ?thesis by (simp add: wireguard_path_def entry_of_def)
qed

lemma wireguard_del:
  assumes "wireguard_DelConnectivity env cn s = (Done, s')"
  shows "entry_of s' 0 cn = None"
proof -
  obtain i s1 where "on_link (RouteDel (ce_vpp env) (sw_route (cn_Dst cn) i (IPNet_IP (cn_Dst cn)) 0)) s1 = (Done, s')"
    using assms by (auto simp: wireguard_DelConnectivity_def Let_def andthen_Done fail_def split: option.splits)
  from on_link_RouteDel [OF this] show ?thesis by (simp add: entry_of_def)
qed

interpretation flat: connectivity_provider "flat_AddConnectivity env" "flat_DelConnectivity env" "\<lambda>_ _. 0" flat_path for env
proof unfold_locales
  show "flat_AddConnectivity env cn s = (st, s') \<Longrightarrow> server_part (fst s') = server_part (fst s)" for cn s st s'
    by (auto simp: flat_AddConnectivity_def on_link_def split: prod.splits)
  show "flat_DelConnectivity env cn s = (st, s') \<Longrightarrow> server_part (fst s') = server_part (fst s)" for cn s st s'
    by (auto simp: flat_DelConnectivity_def on_link_def split: prod.splits)
qed (erule flat_add, erule flat_del)

interpretation ipip: connectivity_provider "ipip_AddConnectivity env" "ipip_DelConnectivity env" "\<lambda>_ _. 0" ipip_path for env
  by unfold_locales (erule ipip_add, erule ipip_del, erule keeps_outcome [OF keeps_ipip_Add [OF refl]], erule keeps_outcome [OF keeps_ipip_Del [OF refl]])

interpretation vxlan: connectivity_provider "vxlan_AddConnectivity env" "vxlan_DelConnectivity env" vxlan_table vxlan_path for env
  by unfold_locales (erule vxlan_add, erule vxlan_del, erule keeps_outcome [OF keeps_vxlan_Add [OF refl]], erule keeps_outcome [OF keeps_vxlan_Del [OF refl]])

interpretation wg: connectivity_provider "wireguard_AddConnectivity env" "wireguard_DelConnectivity env" "\<lambda>_ _. 0" wireguard_path for env
  by unfold_locales (erule wireguard_add, erule wireguard_del, erule keeps_outcome [OF keeps_wireguard_Add [OF refl]], erule keeps_outcome [OF keeps_wireguard_Del [OF refl]])

end
