(* ===== verification/ConnTunnels.thy ===== *)
theory ConnTunnels
  imports ConnContract FelixServe
begin

text \<open>
  What the tunnels of the connectivity providers guarantee over time: no route outlives its IP-in-IP tunnel, a
  WireGuard key arrives as it was sent; and what is lost when the agent restarts.
\<close>

section \<open>Keys survive their encoding\<close>

lemma b64_alphabet_ok: "distinct b64_alphabet" "length b64_alphabet = 64"
    "list_all (\<lambda>c. c \<noteq> CHR ''='' \<and> c \<noteq> CHR 0x0A \<and> c \<noteq> CHR 0x0D) b64_alphabet"
  by (simp_all add: b64_alphabet_def)

lemma b64_char [simp]:
  assumes "n < 64"
  shows "b64_value (b64_char n) = Some n" "b64_char n \<noteq> CHR ''=''" "b64_char n \<noteq> CHR 0x0A" "b64_char n \<noteq> CHR 0x0D"
proof -
  show "b64_value (b64_char n) = Some n"
    using assms b64_alphabet_ok map_of_zip_nth [of b64_alphabet "[0..<64]" n] by (simp add: b64_value_def b64_char_def)
  have "b64_char n \<in> set b64_alphabet" using assms by (simp add: b64_char_def b64_alphabet_ok(2))
  then show "b64_char n \<noteq> CHR ''=''" "b64_char n \<noteq> CHR 0x0A" "b64_char n \<noteq> CHR 0x0D"
    using b64_alphabet_ok(3) by (auto simp: list_all_iff)
qed

lemma u8_less: "unat (a :: u8) < 256"
  using unsigned_less [of a] by simp

lemma sextet_bounds [simp]:
  "unat (a :: u8) div 4 < 64" "unat a mod 4 * 16 < 64" "unat a mod 4 * 16 + unat (b :: u8) div 16 < 64"
  "unat b mod 16 * 4 < 64" "unat b mod 16 * 4 + unat (c :: u8) div 64 < 64" "unat c mod 64 < 64"
  using u8_less [of a] u8_less [of b] u8_less [of c] by linarith+

lemma digits:
  fixes r :: nat
  assumes "r < n"
  shows "(q * n + r) div n = q" "(q * n + r) mod n = r"
  using assms by simp_all

lemma octet_parts: "unat (b :: u8) div 16 < 16" "unat (c :: u8) div 64 < 4"
  using u8_less [of b] u8_less [of c] by linarith+

lemma b64_quanta_Encode: "b64_quanta (b64_EncodeToString bs) = Some bs"
  by (induction bs rule: b64_EncodeToString.induct)
    (simp_all add: Let_def digits octet_parts div_mult_mod_eq del: of_nat_add of_nat_mult)

lemma Encode_no_newline: "c \<in> set (b64_EncodeToString bs) \<Longrightarrow> c \<noteq> CHR 0x0A \<and> c \<noteq> CHR 0x0D"
  by (induction bs rule: b64_EncodeToString.induct) (auto simp: Let_def)

lemma b64_Decode_Encode: "b64_DecodeString (b64_EncodeToString bs) = Some bs"
  by (simp add: b64_DecodeString_def filter_id_conv [THEN iffD2] Encode_no_newline b64_quanta_Encode)

section \<open>No route outlives its tunnel\<close>

text \<open>The IP-in-IP tunnels VPP has, read off the history.\<close>

fun ipip_live :: "ahist \<Rightarrow> u32 \<Rightarrow> bool" where
  "ipip_live [] i = False"
| "ipip_live ((c, r) # h) i =
     (case c of
        IpipAddTunnel src dst table \<Rightarrow> r = ApiIndex i \<or> ipip_live h i
      | IpipDelTunnel j \<Rightarrow> if j = i \<and> r \<noteq> ApiFailed then False else ipip_live h i
      | _ \<Rightarrow> ipip_live h i)"

text \<open>VPP numbers its interfaces apart: a new tunnel has the index of no tunnel there is, nor the invalid one.\<close>

definition fresh_indexes :: "api \<Rightarrow> bool" where
  "fresh_indexes vpp \<longleftrightarrow> (\<forall>h src dst table i. vpp h (IpipAddTunnel src dst table) = ApiIndex i \<longrightarrow> \<not> ipip_live h i \<and> i \<noteq> InvalidID)"

text \<open>A destination as the routing server sends it: a network in canonical form, an IPv4 address in four or in
  sixteen bytes.\<close>

definition net_ok :: "ipnet \<Rightarrow> bool" where
  "net_ok n \<longleftrightarrow> canonical_net (n\<lparr>IPNet_IP := (case To4 (IPNet_IP n) of None \<Rightarrow> IPNet_IP n | Some a \<Rightarrow> a)\<rparr>)"

text \<open>The plain and the IP-in-IP provider at work, in any order and with any outcome of the single steps.\<close>

inductive tunnel_reach :: "conn_env \<Rightarrow> cstate \<Rightarrow> bool" for env where
  start: "ipipIfs c = [] \<Longrightarrow> tunnel_reach env (c, [])"
| flat_add: "tunnel_reach env s \<Longrightarrow> tunnel_reach env (snd (flat_AddConnectivity env cn s))"
| flat_del: "tunnel_reach env s \<Longrightarrow> tunnel_reach env (snd (flat_DelConnectivity env cn s))"
| ipip_add: "tunnel_reach env s \<Longrightarrow> net_ok (cn_Dst cn) \<Longrightarrow> tunnel_reach env (snd (ipip_AddConnectivity env cn s))"
| ipip_del: "tunnel_reach env s \<Longrightarrow> net_ok (cn_Dst cn) \<Longrightarrow> tunnel_reach env (snd (ipip_DelConnectivity env cn s))"

definition noted :: "ConnectivityServer \<Rightarrow> u32 \<Rightarrow> ipnet \<Rightarrow> bool" where
  "noted c i d \<longleftrightarrow> (case mget (ipipRoutes c) i of None \<Rightarrow> False | Some r \<Rightarrow> mhas r (ipnet_String d))"

text \<open>The tunnels on record exist; their indexes differ; a route of the main table over an interface uses a tunnel on
  record and is noted there.\<close>

definition tunnels_live :: "cstate \<Rightarrow> bool" where
  "tunnels_live s \<longleftrightarrow> (\<forall>k t. mget (ipipIfs (fst s)) k = Some t \<longrightarrow> ipip_live (snd s) (ipip_SwIfIndex t))"

definition tunnels_apart :: "cstate \<Rightarrow> bool" where
  "tunnels_apart s \<longleftrightarrow> (\<forall>k t k' t'. mget (ipipIfs (fst s)) k = Some t \<longrightarrow> mget (ipipIfs (fst s)) k' = Some t' \<longrightarrow>
     ipip_SwIfIndex t = ipip_SwIfIndex t' \<longrightarrow> k = k')"

definition on_record :: "ConnectivityServer \<Rightarrow> u32 \<Rightarrow> bool" where
  "on_record c i \<longleftrightarrow> (\<exists>k t. mget (ipipIfs c) k = Some t \<and> ipip_SwIfIndex t = i)"

definition over_tunnel :: "ConnectivityServer \<Rightarrow> vpp_prefix \<Rightarrow> u32 \<Rightarrow> bool" where
  "over_tunnel c p i \<longleftrightarrow> on_record c i \<and> (\<exists>d. net_ok d \<and> ToVppPrefix d = p \<and> noted c i d)"

definition routes_noted :: "cstate \<Rightarrow> bool" where
  "routes_noted s \<longleftrightarrow> (\<forall>p paths q. fib_of (snd s) 0 p = Some paths \<longrightarrow> q \<in> set paths \<longrightarrow> fp_SwIfIndex q \<noteq> InvalidID \<longrightarrow>
     over_tunnel (fst s) p (fp_SwIfIndex q))"

definition ipip_inv :: "cstate \<Rightarrow> bool" where
  "ipip_inv s \<longleftrightarrow> tunnels_live s \<and> tunnels_apart s \<and> routes_noted s"

lemma ToVppAddress_norm: "ToVppAddress (case To4 a of None \<Rightarrow> a | Some b \<Rightarrow> b) = ToVppAddress a"
  by (auto simp: ToVppAddress_def To4_def split: option.split)

lemma same_text_same_prefix:
  assumes "net_ok m" "net_ok n" "ipnet_String m = ipnet_String n"
  shows "ToVppPrefix m = ToVppPrefix n"
proof -
  let ?norm = "\<lambda>n. n\<lparr>IPNet_IP := (case To4 (IPNet_IP n) of None \<Rightarrow> IPNet_IP n | Some a \<Rightarrow> a)\<rparr>"
  have "ipnet_String (?norm n) = ipnet_String n" for n
    by (auto simp: ipnet_String_def networkNumberAndMask_def To4_def split: option.split)
  with assms have "?norm m = ?norm n"
    using ipnet_String_inj [of "?norm m" "?norm n"] by (simp add: net_ok_def)
  moreover have "ToVppPrefix (?norm n) = ToVppPrefix n" for n
    by (simp add: ToVppPrefix_def ToVppAddress_norm)
  ultimately show ?thesis by metis
qed

lemma noted_mark: "noted (c\<lparr>ipipRoutes := mark_route i (ipnet_String d) (ipipRoutes c)\<rparr>) j e \<longleftrightarrow>
    (i = j \<and> ipnet_String e = ipnet_String d) \<or> noted c j e"
  by (auto simp: noted_def mark_route_def split: option.split)

lemma noted_unmark: "noted (c\<lparr>ipipRoutes := unmark_route i (ipnet_String d) (ipipRoutes c)\<rparr>) j e \<longleftrightarrow>
    noted c j e \<and> \<not> (i = j \<and> ipnet_String e = ipnet_String d)"
  by (auto simp: noted_def unmark_route_def split: option.split)

lemma noted_other [simp]: "noted (c\<lparr>ipipIfs := x\<rparr>) = noted c" "noted (c\<lparr>conn_events := y\<rparr>) = noted c"
  by (simp_all add: noted_def fun_eq_iff)

lemma noted_no_routes: "no_routes i (ipipRoutes c) \<Longrightarrow> \<not> noted c i d"
  by (auto simp: no_routes_def noted_def split: option.splits)

text \<open>Creating a tunnel changes no route of the main table. It leaves a new tunnel on record, or the tunnels as they
  were.\<close>

lemma tunnel_setup_cases:
  fixes t :: IPIPTunnel
  assumes "tunnel_setup env i (on_link (DelIPIPTunnel (ce_vpp env) t)) s = (st, s')"
  shows "fst s' = fst s \<and> fib_of (snd s') = fib_of (snd s) \<and>
    (\<forall>j. j \<noteq> ipip_SwIfIndex t \<or> st = Done \<longrightarrow> ipip_live (snd s') j = ipip_live (snd s) j)"
  using assms by (auto simp: tunnel_setup_def andthen_def or_cleanup_def link_defs on_link_api fun_eq_iff split: if_splits)

lemma ipip_create_effect:
  assumes "ipip_create env cn s = (st, s')" "fresh_indexes (ce_vpp env)"
  shows "fib_of (snd s') 0 = fib_of (snd s) 0" "ipipRoutes (fst s') = ipipRoutes (fst s)"
    "ipip_live (snd s) j \<Longrightarrow> ipip_live (snd s') j"
    "st \<noteq> Done \<Longrightarrow> ipipIfs (fst s') = ipipIfs (fst s)"
    "st = Done \<Longrightarrow> \<exists>t. ipipIfs (fst s') = mput (ip_String (cn_NextHop cn)) t (ipipIfs (fst s)) \<and>
       ipip_live (snd s') (ipip_SwIfIndex t) \<and> \<not> ipip_live (snd s) (ipip_SwIfIndex t)"
proof -
  have "fib_of (snd s') 0 = fib_of (snd s) 0 \<and> ipipRoutes (fst s') = ipipRoutes (fst s) \<and>
    (\<forall>j. ipip_live (snd s) j \<longrightarrow> ipip_live (snd s') j) \<and> (st \<noteq> Done \<longrightarrow> ipipIfs (fst s') = ipipIfs (fst s)) \<and>
    (st = Done \<longrightarrow> (\<exists>t. ipipIfs (fst s') = mput (ip_String (cn_NextHop cn)) t (ipipIfs (fst s)) \<and>
       ipip_live (snd s') (ipip_SwIfIndex t) \<and> \<not> ipip_live (snd s) (ipip_SwIfIndex t)))"
    (is "?G s'")
  proof (cases "\<exists>src i. ce_vpp env (snd s) (IpipAddTunnel (NewAddress src) (NewAddress (cn_NextHop cn)) 0) = ApiIndex i \<and>
      (\<exists>ips. GetNodeIPs (fst s) = Some ips \<and> getNodeIPForConnectivity cn ips = Some src)")
    case False
    then show ?thesis
      using assms(1) by (auto simp: ipip_create_def Let_def panic_def fail_def AddIPIPTunnel_def api_index_def call_def
          fun_eq_iff split: option.splits api_reply.splits prod.splits)
  next
    case True
    then obtain src i ips where i: "ce_vpp env (snd s) (IpipAddTunnel (NewAddress src) (NewAddress (cn_NextHop cn)) 0) = ApiIndex i"
      "GetNodeIPs (fst s) = Some ips" "getNodeIPForConnectivity cn ips = Some src" by blast
    define t where "t = \<lparr>ipip_Src = src, ipip_Dst = cn_NextHop cn, ipip_TableID = 0, ipip_SwIfIndex = i\<rparr>"
    define s0 where "s0 = (fst s, (IpipAddTunnel (NewAddress src) (NewAddress (cn_NextHop cn)) 0, ApiIndex i) # snd s)"
    have new: "\<not> ipip_live (snd s) i" using assms(2) i(1) by (auto simp: fresh_indexes_def)
    have run: "andthen (tunnel_setup env i (on_link (DelIPIPTunnel (ce_vpp env) t)))
       (andthen (or_cleanup (on_link (DelIPIPTunnel (ce_vpp env) t)) (on_link (RouteAdd (ce_vpp env)
           (sw_route (ToMaxLenCIDR (cn_NextHop cn)) i [] PodVRFIndex))))
       (andthen (on_conn (\<lambda>c. c\<lparr>ipipIfs := mput (ip_String (cn_NextHop cn)) t (ipipIfs c)\<rparr>))
           (send_tunnel (TunnelAdded i)))) s0 = (st, s')"
      using assms(1) i by (simp add: ipip_create_def Let_def AddIPIPTunnel_def api_index_def call_def t_def s0_def)
    show ?thesis
    proof (cases rule: andthen_cases [OF run])
      case 1
      with tunnel_setup_cases [OF 1(1)] new show ?thesis by (auto simp: s0_def t_def)
    next
      case (2 s1)
      with tunnel_setup_cases [OF 2(1)] new show ?thesis
        by (auto simp: s0_def t_def andthen_def or_cleanup_def link_defs on_link_api on_conn_def send_tunnel_def fun_eq_iff split: if_splits)
    qed
  qed
  then show "fib_of (snd s') 0 = fib_of (snd s) 0" "ipipRoutes (fst s') = ipipRoutes (fst s)"
    "ipip_live (snd s) j \<Longrightarrow> ipip_live (snd s') j"
    "st \<noteq> Done \<Longrightarrow> ipipIfs (fst s') = ipipIfs (fst s)"
    "st = Done \<Longrightarrow> \<exists>t. ipipIfs (fst s') = mput (ip_String (cn_NextHop cn)) t (ipipIfs (fst s)) \<and>
       ipip_live (snd s') (ipip_SwIfIndex t) \<and> \<not> ipip_live (snd s) (ipip_SwIfIndex t)"
    by auto
qed

lemma noted_routes: "ipipRoutes c = ipipRoutes c' \<Longrightarrow> noted c = noted c'"
  by (simp add: noted_def fun_eq_iff)

lemma ipip_create_inv:
  assumes inv: "ipip_inv s" and fresh: "fresh_indexes (ce_vpp env)"
    and new: "\<not> mhas (ipipIfs (fst s)) (ip_String (cn_NextHop cn))" and run: "ipip_create env cn s = (st, s')"
  shows "ipip_inv s'"
proof -
  note e = ipip_create_effect [OF run fresh]
  have n: "noted (fst s') = noted (fst s)" by (rule noted_routes) (rule e(2))
  show ?thesis
  proof (cases "st = Done")
    case True
    from e(5) [OF True] obtain t where t: "ipipIfs (fst s') = mput (ip_String (cn_NextHop cn)) t (ipipIfs (fst s))"
      "ipip_live (snd s') (ipip_SwIfIndex t)" "\<not> ipip_live (snd s) (ipip_SwIfIndex t)" by blast
    have "tunnels_live s'" using inv t(1,2) e(3) by (auto simp: ipip_inv_def tunnels_live_def)
    moreover have "tunnels_apart s'"
      using inv t(1,3) by (fastforce simp: ipip_inv_def tunnels_live_def tunnels_apart_def)
    moreover have "on_record (fst s) i \<Longrightarrow> on_record (fst s') i" for i
      using new unfolding on_record_def t(1) by (auto simp: mhas_def) (metis option.distinct(1))
    then have "routes_noted s'" using inv by (simp add: ipip_inv_def routes_noted_def over_tunnel_def n e(1))
    ultimately show ?thesis by (simp add: ipip_inv_def)
  next
    case False
    with inv e(1,3) e(4) show ?thesis
      by (auto simp: ipip_inv_def tunnels_live_def tunnels_apart_def routes_noted_def over_tunnel_def on_record_def n)
  qed
qed

text \<open>Adding or removing one entry of the main table.\<close>

lemma routes_noted_write:
  assumes "routes_noted (c, h)" "\<And>p' i. p' \<noteq> p \<Longrightarrow> over_tunnel c p' i \<Longrightarrow> over_tunnel c' p' i"
    "fib_of h' 0 = (fib_of h 0)(p := e)" "\<And>paths q. e = Some paths \<Longrightarrow> q \<in> set paths \<Longrightarrow> fp_SwIfIndex q \<noteq> InvalidID \<Longrightarrow> over_tunnel c' p (fp_SwIfIndex q)"
  shows "routes_noted (c', h')"
  using assms unfolding routes_noted_def by (auto split: if_splits)

lemma ToFib_sw [simp]: "fp_SwIfIndex (ToFibPath (sw_path i gw) v) = i"
  by (simp add: ToFibPath_def sw_path_def Let_def)

lemma ipip_route_inv:
  assumes "ipip_inv s" "net_ok (cn_Dst cn)" "ipip_route env cn s = (st, s')"
  shows "ipip_inv s'"
proof (cases "mget (ipipIfs (fst s)) (ip_String (cn_NextHop cn))")
  case None
  with assms show ?thesis by (simp add: ipip_route_def panic_def)
next
  case (Some t)
  let ?r = "sw_route (cn_Dst cn) (ipip_SwIfIndex t) [] 0" and ?c = "fst s"
  let ?c' = "?c\<lparr>ipipRoutes := mark_route (ipip_SwIfIndex t) (ipnet_String (cn_Dst cn)) (ipipRoutes ?c)\<rparr>"
  let ?h' = "(IPRouteAddDel True (route_msg ?r), ce_vpp env (snd s) (IPRouteAddDel True (route_msg ?r))) # snd s"
  have live: "ipip_live ?h' = ipip_live (snd s)" by (simp add: fun_eq_iff)
  show ?thesis
  proof (cases "ce_vpp env (snd s) (IPRouteAddDel True (route_msg ?r)) = ApiFailed")
    case True
    then have "s' = (?c, ?h')" using assms(3) Some by (simp add: ipip_route_def link_defs on_link_api andthen_def)
    moreover have "fib_of ?h' 0 = fib_of (snd s) 0" using True by (simp add: fun_eq_iff)
    ultimately show ?thesis
      using assms(1) live by (simp add: ipip_inv_def tunnels_live_def tunnels_apart_def routes_noted_def)
  next
    case False
    then have s': "s' = (?c', ?h')"
      using assms(3) Some by (simp add: ipip_route_def link_defs on_link_api andthen_def on_conn_def)
    have ex: "on_record ?c (ipip_SwIfIndex t)" using Some by (auto simp: on_record_def)
    have same: "on_record ?c' = on_record ?c" by (simp add: on_record_def fun_eq_iff)
    have "routes_noted (?c', ?h')"
    proof (rule routes_noted_write [where c = ?c and h = "snd s" and p = "ToVppPrefix (cn_Dst cn)"])
      show "fib_of ?h' 0 = (fib_of (snd s) 0)(ToVppPrefix (cn_Dst cn) \<mapsto> [ToFibPath (sw_path (ipip_SwIfIndex t) []) (IsIP6 (IPNet_IP (cn_Dst cn)))])"
        using False by (auto simp: fun_eq_iff)
    qed (use assms ex in \<open>auto simp: ipip_inv_def over_tunnel_def same noted_mark\<close>)
    with assms(1) live show ?thesis by (simp add: s' ipip_inv_def tunnels_live_def tunnels_apart_def)
  qed
qed

lemma ipip_Add_inv:
  assumes "ipip_inv s" "fresh_indexes (ce_vpp env)" "net_ok (cn_Dst cn)"
  shows "ipip_inv (snd (ipip_AddConnectivity env cn s))"
proof -
  obtain st s' where run: "ipip_AddConnectivity env cn s = (st, s')" by (cases "ipip_AddConnectivity env cn s")
  let ?new = "if mhas (ipipIfs (fst s)) (ip_String (cn_NextHop cn)) then skip else ipip_create env cn"
  have step: "ipip_inv s1" if "?new s = (st1, s1)" for st1 s1
    using that ipip_create_inv [OF assms(1,2)] assms(1) by (auto simp: skip_def split: if_splits)
  from run [unfolded ipip_AddConnectivity_def] show ?thesis
  proof (cases rule: andthen_cases)
    case first
    with step run show ?thesis by simp
  next
    case (second s1)
    with ipip_route_inv [OF step [OF second(1)] assms(3) second(2)] run show ?thesis by simp
  qed
qed

text \<open>The tunnel without routes is dropped: its record goes, and only it may go in VPP.\<close>

lemma ipip_drop_effect:
  assumes "ipip_drop_tunnel env cn t s = (st, s')"
  shows "ipipIfs (fst s') = mdel (ip_String (cn_NextHop cn)) (ipipIfs (fst s))" "ipipRoutes (fst s') = ipipRoutes (fst s)"
    "fib_of (snd s') 0 = fib_of (snd s) 0" "j \<noteq> ipip_SwIfIndex t \<Longrightarrow> ipip_live (snd s') j = ipip_live (snd s) j"
  using assms by (auto simp: ipip_drop_tunnel_def andthen_def attempt_def on_conn_def send_tunnel_def link_defs on_link_api fun_eq_iff split: if_splits)

lemma ipip_drop_inv:
  assumes inv: "ipip_inv s" and t: "mget (ipipIfs (fst s)) (ip_String (cn_NextHop cn)) = Some t"
    and none: "no_routes (ipip_SwIfIndex t) (ipipRoutes (fst s))" and run: "ipip_drop_tunnel env cn t s = (st, s')"
  shows "ipip_inv s'"
proof -
  note e = ipip_drop_effect [OF run]
  have n: "noted (fst s') = noted (fst s)" by (rule noted_routes) (rule e(2))
  have other: "ipip_SwIfIndex u \<noteq> ipip_SwIfIndex t"
    if "mget (ipipIfs (fst s)) k = Some u" "k \<noteq> ip_String (cn_NextHop cn)" for k u
    using inv t that by (auto simp: ipip_inv_def tunnels_apart_def)
  have "tunnels_live s'"
    using inv e(4) other by (auto simp: ipip_inv_def tunnels_live_def e(1))
  moreover have "tunnels_apart s'" using inv by (auto simp: ipip_inv_def tunnels_apart_def e(1))
  moreover have "over_tunnel (fst s') p i" if o: "over_tunnel (fst s) p i" for p i
  proof -
    have "i \<noteq> ipip_SwIfIndex t" using o noted_no_routes [OF none] by (auto simp: over_tunnel_def)
    moreover obtain k u where "mget (ipipIfs (fst s)) k = Some u" "ipip_SwIfIndex u = i"
      using o by (auto simp: over_tunnel_def on_record_def)
    ultimately have "mget (ipipIfs (fst s')) k = Some u" using t by (auto simp: e(1))
    then have "on_record (fst s') i" using \<open>ipip_SwIfIndex u = i\<close> by (auto simp: on_record_def)
    with that show ?thesis by (simp add: over_tunnel_def n)
  qed
  then have "routes_noted s'" using inv by (simp add: ipip_inv_def routes_noted_def e(3))
  ultimately show ?thesis by (simp add: ipip_inv_def)
qed

lemma ipip_Del_inv:
  assumes "ipip_inv s" "net_ok (cn_Dst cn)"
  shows "ipip_inv (snd (ipip_DelConnectivity env cn s))"
proof (cases "mget (ipipIfs (fst s)) (ip_String (cn_NextHop cn))")
  case None
  with assms show ?thesis by (simp add: ipip_DelConnectivity_def fail_def)
next
  case (Some t)
  let ?i = "ipip_SwIfIndex t"
  let ?m = "IPRouteAddDel False (route_msg (sw_route (cn_Dst cn) ?i [] 0))" and ?c = "fst s"
  let ?c' = "?c\<lparr>ipipRoutes := unmark_route ?i (ipnet_String (cn_Dst cn)) (ipipRoutes ?c)\<rparr>"
  let ?h' = "(?m, ce_vpp env (snd s) ?m) # snd s"
  have live: "ipip_live ?h' = ipip_live (snd s)" by (simp add: fun_eq_iff)
  show ?thesis
  proof (cases "ce_vpp env (snd s) ?m = ApiFailed")
    case True
    then have "snd (ipip_DelConnectivity env cn s) = (?c, ?h')"
      using Some by (simp add: ipip_DelConnectivity_def link_defs on_link_api andthen_def)
    moreover have "fib_of ?h' 0 = fib_of (snd s) 0" using True by (simp add: fun_eq_iff)
    ultimately show ?thesis
      using assms(1) live by (simp add: ipip_inv_def tunnels_live_def tunnels_apart_def routes_noted_def)
  next
    case False
    have same: "on_record ?c' = on_record ?c" by (simp add: on_record_def fun_eq_iff)
    have kept: "over_tunnel ?c' p i" if "p \<noteq> ToVppPrefix (cn_Dst cn)" "over_tunnel ?c p i" for p i
      using that same_text_same_prefix [OF _ assms(2)] by (auto simp: over_tunnel_def same noted_unmark)
    have "routes_noted (?c', ?h')"
      by (rule routes_noted_write [where c = ?c and h = "snd s" and p = "ToVppPrefix (cn_Dst cn)" and e = None])
        (use assms(1) kept False in \<open>auto simp: ipip_inv_def fun_eq_iff\<close>)
    then have inv: "ipip_inv (?c', ?h')"
      using assms(1) live by (simp add: ipip_inv_def tunnels_live_def tunnels_apart_def)
    have "ipip_inv (snd (ipip_drop_tunnel env cn t (?c', ?h')))" if "no_routes ?i (ipipRoutes ?c')"
      using ipip_drop_inv [OF inv, of cn t env] Some that by (cases "ipip_drop_tunnel env cn t (?c', ?h')") simp
    with inv show ?thesis
      using False Some by (simp add: ipip_DelConnectivity_def link_defs on_link_api andthen_def on_conn_def skip_def)
  qed
qed

lemma flat_inv:
  assumes "ipip_inv s" "ir_TableID m = 0" "\<forall>q \<in> set (ir_Paths m). fp_SwIfIndex q = InvalidID"
  shows "ipip_inv (snd (on_link (api_exec vpp (IPRouteAddDel b m)) s))"
proof -
  let ?h' = "(IPRouteAddDel b m, vpp (snd s) (IPRouteAddDel b m)) # snd s"
  have "routes_noted (fst s, ?h')"
    using assms by (auto simp: ipip_inv_def routes_noted_def split: if_splits)
  moreover have "ipip_live ?h' = ipip_live (snd s)" by (simp add: fun_eq_iff)
  ultimately show ?thesis
    using assms by (simp add: on_link_api ipip_inv_def tunnels_live_def tunnels_apart_def)
qed

lemma tunnel_reach_inv:
  assumes "tunnel_reach env s" "fresh_indexes (ce_vpp env)"
  shows "ipip_inv s"
  using assms
proof (induction rule: tunnel_reach.induct)
  case (start c)
  then show ?case by (simp add: ipip_inv_def tunnels_live_def tunnels_apart_def routes_noted_def)
next
  case (flat_add s cn)
  then show ?case
    unfolding flat_AddConnectivity_def link_defs
    by (intro flat_inv) (simp_all add: route_msg_def Let_def ToFibPathList_def getRoutePaths_def ToFibPath_def)
next
  case (flat_del s cn)
  then show ?case
    unfolding flat_DelConnectivity_def link_defs
    by (intro flat_inv) (simp_all add: route_msg_def Let_def ToFibPathList_def getRoutePaths_def ToFibPath_def)
next
  case (ipip_add s cn)
  then show ?case by (simp add: ipip_Add_inv)
next
  case (ipip_del s cn)
  then show ?case by (simp add: ipip_Del_inv)
qed

text \<open>C31: however connectivity is added and removed over plain routes and IP-in-IP tunnels, and whichever of the single
  steps fail, no route of the main table leads into a tunnel that has been deleted.\<close>

theorem no_dangling_route:
  assumes "tunnel_reach env s" "fresh_indexes (ce_vpp env)"
    and "fib_of (snd s) 0 p = Some paths" "q \<in> set paths" "fp_SwIfIndex q \<noteq> InvalidID"
  shows "ipip_live (snd s) (fp_SwIfIndex q)"
proof -
  have inv: "ipip_inv s" using assms(1,2) by (rule tunnel_reach_inv)
  then have "on_record (fst s) (fp_SwIfIndex q)"
    using assms(3-5) by (auto simp: ipip_inv_def routes_noted_def over_tunnel_def)
  with inv show ?thesis unfolding ipip_inv_def tunnels_live_def on_record_def by metis
qed

text \<open>Two next hops, a service with one tunnel to give, and the provider after it added one destination.\<close>

definition one_tunnel_vpp :: api where
  "one_tunnel_vpp h c =
     (case c of IpipAddTunnel src dst table \<Rightarrow> if ipip_live h 7 then ApiFailed else ApiIndex 7 | _ \<Rightarrow> ApiOk)"

definition conn_cfg_ex :: ConnConfig where
  "conn_cfg_ex = \<lparr>RawValues = [], DefaultEndpointToHostAction = [], FailsafeInboundHostPorts = [], FailsafeOutboundHostPorts = [],
     VXLANVNI = 0, VXLANPort = 0, WireguardEnabled = False, WireguardListeningPort = 0\<rparr>"

definition conn_node_ex :: LocalNodeSpec where
  "conn_node_ex = \<lparr>LN_ASNumber = None, LN_Labels = [], LN_Name = ''node'',
     IPv4Address = Some \<lparr>IPNet_IP = [10, 0, 0, 1], IPNet_Mask = [255, 255, 255, 0]\<rparr>, IPv6Address = None\<rparr>"

definition conn_ex :: ConnectivityServer where
  "conn_ex = \<lparr>ipipIfs = [], ipipRoutes = [], vxlanIfs = [], vxlanRoutes = [], ip4NodeIndex = 0, ip6NodeIndex = 0,
     wireguardTunnels = [], wireguardPeers = [], nodesToWGPublicKey = [], connectivityMap = [], nodeBGPSpec = Some conn_node_ex,
     conn_felixConfig = conn_cfg_ex, nodeByAddr = [], networks = [], conn_events = [], conn_published = []\<rparr>"

definition cn_ex :: NodeConnectivity where
  "cn_ex = \<lparr>cn_Dst = \<lparr>IPNet_IP = [10, 1, 2, 0], IPNet_Mask = [255, 255, 255, 0]\<rparr>, cn_NextHop = [10, 0, 0, 2], cn_ResolvedProvider = [], cn_Vni = 0\<rparr>"

definition conn_env_ex :: "api \<Rightarrow> conn_env" where
  "conn_env_ex vpp = \<lparr>ce_vpp = vpp, ce_uplinks = [\<lparr>UL_SwIfIndex = 1, UL_IsMain = True, UL_PhysicalNetworkName = []\<rparr>],
     ce_peerEqual = (\<lambda>p q. p\<lparr>wp_Index := 0\<rparr> = q\<lparr>wp_Index := 0\<rparr>),
     ce_AddAllowedIp = (\<lambda>d p. if d \<in> set (wp_AllowedIps p) then p else p\<lparr>wp_AllowedIps := wp_AllowedIps p @ [d]\<rparr>),
     ce_DelAllowedIp = (\<lambda>d p. p\<lparr>wp_AllowedIps := filter (\<lambda>x. x \<noteq> d) (wp_AllowedIps p)\<rparr>),
     ce_nodeGet = True, ce_nodeUpdate = (\<lambda>_. True), ce_ip6First = False, ce_ipam = server_ex,
     ce_SRv6Enabled = False, ce_IPSecEnabled = False, ce_Always = ''always'', ce_CrossSubnet = ''cross-subnet'',
     ce_otherAdd = (\<lambda>_ _. skip), ce_otherDel = (\<lambda>_ _. skip), ce_otherRescan = (\<lambda>_. skip)\<rparr>"

lemmas conn_examples = one_tunnel_vpp_def conn_cfg_ex_def conn_node_ex_def conn_ex_def cn_ex_def conn_env_ex_def

lemma net_ok_ex: "net_ok (cn_Dst cn_ex)"
  by (simp add: net_ok_def cn_ex_def canonical_net_def wf_ipnet_def apply_mask_def To4_def net_eval upt_rec)

theorem no_dangling_route_witness:
  "fib_of (snd (snd (ipip_AddConnectivity (conn_env_ex one_tunnel_vpp) cn_ex (conn_ex, [])))) 0 (ToVppPrefix (cn_Dst cn_ex)) \<noteq> None \<and>
   ipip_live (snd (snd (ipip_AddConnectivity (conn_env_ex one_tunnel_vpp) cn_ex (conn_ex, [])))) 7"
proof -
  let ?s = "snd (ipip_AddConnectivity (conn_env_ex one_tunnel_vpp) cn_ex (conn_ex, []))"
  have r: "tunnel_reach (conn_env_ex one_tunnel_vpp) ?s"
    by (intro tunnel_reach.intros net_ok_ex) (simp add: conn_ex_def)
  have f: "fresh_indexes (ce_vpp (conn_env_ex one_tunnel_vpp))"
    by (simp add: fresh_indexes_def conn_env_ex_def one_tunnel_vpp_def InvalidID_def)
  have fib: "fib_of (snd ?s) 0 (ToVppPrefix (cn_Dst cn_ex)) = Some [ToFibPath (sw_path 7 []) False]"
    by (simp add: conn_examples ipip_AddConnectivity_def ipip_create_def ipip_route_def tunnel_setup_def AddIPIPTunnel_def api_index_def
        call_def GetNodeIPs_def getNodeIPForConnectivity_def IsIP6_def Let_def go_defs or_cleanup_def send_tunnel_def link_defs api_exec_eq)
  show ?thesis
    using no_dangling_route [OF r f fib, of "ToFibPath (sw_path 7 []) False"] fib by (simp add: InvalidID_def)
qed

section \<open>A published key arrives\<close>

lemma EnableDisable_publishes:
  assumes "wireguardTunnels (fst s) = (f, tun) # ts" "ce_nodeGet env" "ce_nodeUpdate env (b64_EncodeToString (wg_PublicKey tun))"
  shows "conn_published (fst (snd (wireguard_EnableDisable env True s))) = conn_published (fst s) @ [b64_EncodeToString (wg_PublicKey tun)]"
  using assms by (simp add: wireguard_EnableDisable_def skip_def attempt_def publishWireguardPublicKey_def on_conn_def)


definition wg_conn_ex :: ConnectivityServer where
  "wg_conn_ex = conn_ex\<lparr>wireguardTunnels :=
     [(''ip4'', \<lparr>wg_Addr = [10, 0, 0, 1], wg_Port = 51820, wg_SwIfIndex = 3, wg_PublicKey = [1, 2, 3, 4], wg_PrivateKey = [9]\<rparr>)]\<rparr>"


section \<open>After a restart\<close>

lemma show_nat_no_dash: "c \<in> set (show_nat n) \<Longrightarrow> c \<noteq> CHR ''-''"
  using show_nat_digits [of n] by (auto simp: list_all_iff is_digit_def)

lemma vxlan_key_vni:
  assumes "vxlan_key a v = vxlan_key b w"
  shows "v = w"
proof -
  have "takeWhile (\<lambda>c. c \<noteq> CHR ''-'') (rev (vxlan_key x u)) = rev (show_nat (unat u))" for x u
  proof -
    have "takeWhile (\<lambda>c. c \<noteq> CHR ''-'') (rev (show_nat (unat u)) @ CHR ''-'' # rev (ip_String x)) = rev (show_nat (unat u))"
      by (subst takeWhile_append2) (auto dest: show_nat_no_dash)
    then show ?thesis by (simp add: vxlan_key_def)
  qed
  with assms have "show_nat (unat v) = show_nat (unat w)" by (metis rev_rev_ident)
  then show ?thesis by (simp add: show_nat_inj word_unat_eq_iff)
qed

lemma vxlan_found_keys:
  assumes "k \<in> set (mkeys (vxlan_found c ips ts))"
  shows "\<exists>a. k = vxlan_key a (getVXLANVNI c)"
proof -
  have "k \<in> set (mkeys (fold (\<lambda>t m. if own_address ips (vx_SrcAddress t) \<and> vx_Vni t = getVXLANVNI c \<and>
          vx_DstPort t = getVXLANPort c \<and> vx_SrcPort t = getVXLANPort c
        then mput (vxlan_key (vx_DstAddress t) (vx_Vni t)) t m else m) ts m)) \<Longrightarrow>
      (\<exists>a. k = vxlan_key a (getVXLANVNI c)) \<or> k \<in> set (mkeys m)" for m
    by (induction ts arbitrary: m) (fastforce split: if_splits)+
  from this [of "[]"] assms show ?thesis by (simp add: vxlan_found_def)
qed

text \<open>C40: after a restart the VXLAN provider does not find its own tunnels. \<open>RescanState\<close> files them under the VNI they
  have, \<open>AddConnectivity\<close> and \<open>DelConnectivity\<close> look under the VNI 0 of the primary network, so every tunnel is
  created again and none can be removed.\<close>

theorem vxlan_rescan_lost:
  assumes "vxlan_RescanState env s = (Done, s')" "getVXLANVNI (fst s') \<noteq> 0" "cn_Vni cn = 0"
  shows "mget (vxlanIfs (fst s')) (vxlan_key (cn_NextHop cn) (cn_Vni cn)) = None \<and>
    vxlan_DelConnectivity env cn s' = (Fail EUnknownTunnel, s')"
proof -
  obtain s1 where s1: "vxlan_rescan_tunnels env s1 = (Done, s')"
    using assms(1) unfolding vxlan_RescanState_def andthen_Done by blast
  then obtain ips ts r where s': "fst s' = fst s1\<lparr>vxlanIfs := vxlan_found (fst s1) ips ts, vxlanRoutes := r\<rparr>"
    unfolding vxlan_rescan_tunnels_def
    by (cases "GetNodeIPs (fst s1)") (auto simp: panic_def Let_def split: prod.splits)
  define c where "c = fst s1"
  have c: "getVXLANVNI c = getVXLANVNI (fst s')" "vxlanIfs (fst s') = vxlan_found c ips ts"
    by (simp_all add: c_def s' getVXLANVNI_def)
  have "vxlan_key (cn_NextHop cn) 0 \<notin> set (mkeys (vxlan_found c ips ts))"
    using vxlan_found_keys [of _ c ips ts] assms(2) c(1) by (metis vxlan_key_vni)
  then have "mget (vxlanIfs (fst s')) (vxlan_key (cn_NextHop cn) 0) = None" by (simp add: c(2) mget_None_iff)
  with assms(3) show ?thesis by (simp add: vxlan_DelConnectivity_def fail_def)
qed

definition vxlan_up_vpp :: api where
  "vxlan_up_vpp h c =
     (case c of AddNodeNextMsg n m \<Rightarrow> ApiIndex 5 | IPRouteDump t v \<Rightarrow> ApiRoutes []
      | VxlanTunnelV2Dump \<Rightarrow> ApiVXLan [\<lparr>vx_SrcAddress = [10, 0, 0, 1], vx_DstAddress = [10, 0, 0, 2], vx_SrcPort = 4789,
          vx_DstPort = 4789, vx_Vni = 4096, vx_DecapNextIndex = 5, vx_SwIfIndex = 9\<rparr>]
      | _ \<Rightarrow> ApiOk)"

theorem vxlan_rescan_lost_witness:
  "(\<exists>s'. vxlan_RescanState (conn_env_ex vxlan_up_vpp) (conn_ex, []) = (Done, s') \<and> length (vxlanIfs (fst s')) = 1 \<and>
     fst (vxlan_DelConnectivity (conn_env_ex vxlan_up_vpp) cn_ex s') = Fail EUnknownTunnel)"
proof -
  let ?env = "conn_env_ex vxlan_up_vpp"
  obtain s' where r: "vxlan_RescanState ?env (conn_ex, []) = (Done, s')" and l: "length (vxlanIfs (fst s')) = 1"
    and f: "conn_felixConfig (fst s') = conn_cfg_ex"
    by (simp add: vxlan_RescanState_def vxlan_rescan_tunnels_def vxlan_found_def configureVXLANNodes_def AddNodeNext_def ListVXLanTunnels_def
        GetRoutes_def api_index_def call_def GetNodeIPs_def own_address_def ip_Equal_def getVXLANVNI_def getVXLANPort_def
        DefaultVXLANVni_def DefaultVXLANPort_def conn_env_ex_def vxlan_up_vpp_def conn_ex_def conn_node_ex_def conn_cfg_ex_def Let_def go_defs)
  have "getVXLANVNI (fst s') \<noteq> 0" by (simp add: getVXLANVNI_def f conn_cfg_ex_def DefaultVXLANVni_def)
  from vxlan_rescan_lost [OF r this, of cn_ex] r l show ?thesis by (auto simp: cn_ex_def)
qed

text \<open>After a restart the WireGuard provider removes the wrong peer. The peers it lists have no index, so that
  deleting connectivity over any of them removes the peer VPP numbers 0.\<close>

theorem wireguard_rescan_index:
  assumes "wireguard_RescanState env s = (Done, s')" "\<And>d p. wp_Index (ce_DelAllowedIp env d p) = wp_Index p"
    and "mget (wireguardPeers (fst s')) (ip_String (cn_NextHop cn)) = Some p" "mhas (wireguardTunnels (fst s')) (wg_family cn)"
  shows "wp_Index p = 0 \<and>
    (WireguardPeerRemove 0, ce_vpp env (snd s') (WireguardPeerRemove 0)) \<in> set (snd (snd (wireguard_DelConnectivity env cn s')))"
proof -
  obtain ts h1 where a: "ListWireguardTunnels (ce_vpp env) (snd s) = (ts, h1)" by (metis surj_pair)
  obtain o1 h2 where l: "ListWireguardPeers (ce_vpp env) h1 = (o1, h2)" by (metis surj_pair)
  have ps: "wireguardPeers (fst s') = fold (\<lambda>p m. mput (ip_String (wp_Addr p)) p m) (case o1 of None \<Rightarrow> [] | Some l \<Rightarrow> l) []"
    using assms(1) a l by (cases "GetNodeIPs (fst s)") (auto simp: wireguard_RescanState_def Let_def panic_def)
  have zero: "wp_Index q = 0" if "q \<in> set (case o1 of None \<Rightarrow> [] | Some l \<Rightarrow> l)" for q
    using l that by (auto simp: ListWireguardPeers_def split: prod.splits api_reply.splits)
  have "mget (fold (\<lambda>p m. mput (ip_String (wp_Addr p)) p m) qs m) k = Some p \<Longrightarrow> p \<in> set qs \<or> mget m k = Some p" for qs m k
    by (induction qs arbitrary: m) (fastforce split: if_splits)+
  from this [of _ "[]", OF assms(3) [unfolded ps]] have i: "wp_Index p = 0" using zero by simp
  with assms(2-4) show ?thesis
    by (auto simp: wireguard_DelConnectivity_def Let_def mhas_def link_defs on_link_api andthen_def put_peer_def AddWireguardPeer_def
        api_index_def call_def on_conn_def skip_def split: if_splits api_reply.splits)
qed

definition wg_up_vpp :: api where
  "wg_up_vpp h c =
     (case c of
        WireguardInterfaceDump i \<Rightarrow> ApiWgTunnels [\<lparr>wg_Addr = [10, 0, 0, 1], wg_Port = 51820, wg_SwIfIndex = 3, wg_PublicKey = [1], wg_PrivateKey = [2]\<rparr>]
      | WireguardPeersDump \<Rightarrow> ApiWgPeers [\<lparr>wp_Index = 4, wp_PublicKey = [5], wp_Port = 51820, wp_PersistentKeepalive = 1, wp_TableID = 0,
          wp_Addr = [10, 0, 0, 2], wp_SwIfIndex = 3, wp_AllowedIps = [cn_Dst cn_ex, ToMaxLenCIDR [10, 0, 0, 2]]\<rparr>]
      | _ \<Rightarrow> ApiOk)"

theorem wireguard_rescan_index_witness:
  "\<exists>s'. wireguard_RescanState (conn_env_ex wg_up_vpp) (conn_ex, []) = (Done, s') \<and>
     (WireguardPeerRemove 0, ApiOk) \<in> set (snd (snd (wireguard_DelConnectivity (conn_env_ex wg_up_vpp) cn_ex s')))"
proof -
  let ?env = "conn_env_ex wg_up_vpp"
  obtain s' where r: "wireguard_RescanState ?env (conn_ex, []) = (Done, s')"
    and t: "mhas (wireguardTunnels (fst s')) ''ip4''" and p: "mget (wireguardPeers (fst s')) (ip_String (cn_NextHop cn_ex)) \<noteq> None"
    by (simp add: wireguard_RescanState_def ListWireguardTunnels_def listWireguardTunnels_def ListWireguardPeers_def call_def GetNodeIPs_def
        ip_Equal_def conn_env_ex_def wg_up_vpp_def conn_ex_def conn_node_ex_def cn_ex_def Let_def mhas_def)
  from p obtain q where "mget (wireguardPeers (fst s')) (ip_String (cn_NextHop cn_ex)) = Some q" by blast
  from wireguard_rescan_index [OF r _ this] t r show ?thesis
    by (simp add: conn_env_ex_def wg_up_vpp_def wg_family_def cn_ex_def To4_def)
qed

end
