(* ===== verification/ConnServer.thy ===== *)
theory ConnServer
  imports ConnTunnels
begin

text \<open>
  \<open>calico-vpp-agent/connectivity/connectivity_server.go\<close>: the server chooses the provider for the pods of another
  node, remembers its choice, and changes it when the pools, the keys or the configuration change. The theory shows
  when traffic may leave the node unprotected, that an update leaves the destination routed the chosen way and a
  withdrawal leaves it unrouted, that no event stops the server as long as the nodes are known, and which updates go
  wrong.
\<close>

section \<open>Choice of the provider\<close>

definition FLAT :: string where "FLAT = ''flat''"
definition IPSEC :: string where "IPSEC = ''ipsec''"
definition VXLAN :: string where "VXLAN = ''vxlan''"
definition IPIP :: string where "IPIP = ''ipip''"
definition WIREGUARD :: string where "WIREGUARD = ''wireguard''"
definition SRv6 :: string where "SRv6 = ''srv6''"

lemmas provider_names = FLAT_def IPSEC_def VXLAN_def IPIP_def WIREGUARD_def SRv6_def

definition GetNodeIPNet :: "ConnectivityServer \<Rightarrow> bool \<Rightarrow> ipnet option" where
  "GetNodeIPNet c isv6 = (case nodeBGPSpec c of None \<Rightarrow> None | Some n \<Rightarrow> if isv6 then IPv6Address n else IPv4Address n)"

text \<open>\<open>Enabled\<close> of the WireGuard provider, with the provider otherwise.\<close>

definition wireguard_or :: "ConnectivityServer \<Rightarrow> NodeConnectivity \<Rightarrow> string \<Rightarrow> string lookup" where
  "wireguard_or c cn other =
     (case wireguard_Enabled c cn of Crash \<Rightarrow> NilDeref | Err _ \<Rightarrow> Found other | Ret b \<Rightarrow> Found (if b then WIREGUARD else other))"

definition ipsec_Enabled :: "conn_env \<Rightarrow> bool" where
  "ipsec_Enabled env = ce_IPSecEnabled env"

definition ipip_choice :: "conn_env \<Rightarrow> ConnectivityServer \<Rightarrow> NodeConnectivity \<Rightarrow> string lookup" where
  "ipip_choice env c cn = (if ipsec_Enabled env then Found IPSEC else wireguard_or c cn IPIP)"

definition outside :: "ipnet option \<Rightarrow> ip \<Rightarrow> bool" where
  "outside nodeIPNet nextHop = (case nodeIPNet of None \<Rightarrow> False | Some n \<Rightarrow> \<not> Contains n nextHop)"

definition getProviderType :: "conn_env \<Rightarrow> ConnectivityServer \<Rightarrow> NodeConnectivity \<Rightarrow> string lookup" where
  "getProviderType env c cn =
     (if cn_Vni cn \<noteq> 0 then Found VXLAN
      else case GetPrefixIPPool (ce_ipam env) (cn_Dst cn) of
        Crash \<Rightarrow> NilDeref
      | Err _ \<Rightarrow> NilDeref
      | Ret ipPool \<Rightarrow>
          if ce_SRv6Enabled env then Found SRv6
          else (case ipPool of
             None \<Rightarrow> Found FLAT
           | Some pool \<Rightarrow>
               let nodeIPNet = GetNodeIPNet c (IsIP6 (IPNet_IP (cn_Dst cn))) in
               if Pool_IpipMode pool = ce_Always env then ipip_choice env c cn
               else if Pool_IpipMode pool = ce_CrossSubnet env \<and> nodeIPNet = None then Refused ENoNodeIPNet
               else if Pool_IpipMode pool = ce_CrossSubnet env \<and> outside nodeIPNet (cn_NextHop cn) then ipip_choice env c cn
               else if Pool_VxlanMode pool = ce_Always env then wireguard_or c cn VXLAN
               else if Pool_VxlanMode pool = ce_CrossSubnet env \<and> nodeIPNet = None then Refused ENoNodeIPNet
               else if Pool_VxlanMode pool = ce_CrossSubnet env \<and> outside nodeIPNet (cn_NextHop cn) then wireguard_or c cn VXLAN
               else Found FLAT))"

section \<open>Updates\<close>

text \<open>A method of \<open>s.providers[t]\<close>; a missing provider is a nil interface.\<close>

definition provider_add :: "conn_env \<Rightarrow> string \<Rightarrow> NodeConnectivity \<Rightarrow> ccmd" where
  "provider_add env t cn =
     (if t = FLAT then flat_AddConnectivity env cn
      else if t = IPIP then ipip_AddConnectivity env cn
      else if t = VXLAN then vxlan_AddConnectivity env cn
      else if t = WIREGUARD then wireguard_AddConnectivity env cn
      else if t = IPSEC \<or> t = SRv6 then on_link (ce_otherAdd env t cn)
      else panic)"

definition provider_del :: "conn_env \<Rightarrow> string \<Rightarrow> NodeConnectivity \<Rightarrow> ccmd" where
  "provider_del env t cn =
     (if t = FLAT then flat_DelConnectivity env cn
      else if t = IPIP then ipip_DelConnectivity env cn
      else if t = VXLAN then vxlan_DelConnectivity env cn
      else if t = WIREGUARD then wireguard_DelConnectivity env cn
      else if t = IPSEC \<or> t = SRv6 then on_link (ce_otherDel env t cn)
      else panic)"

definition provider_rescan :: "conn_env \<Rightarrow> string \<Rightarrow> ccmd" where
  "provider_rescan env t =
     (if t = FLAT then skip
      else if t = IPIP then ipip_RescanState env
      else if t = VXLAN then vxlan_RescanState env
      else if t = WIREGUARD then wireguard_RescanState env
      else if t = IPSEC \<or> t = SRv6 then on_link (ce_otherRescan env t)
      else panic)"

definition with_provider :: "string lookup \<Rightarrow> (string \<Rightarrow> ccmd) \<Rightarrow> ccmd" where
  "with_provider r f = (case r of Found t \<Rightarrow> f t | Refused e \<Rightarrow> fail e | NilDeref \<Rightarrow> panic)"

definition remember :: "NodeConnectivity \<Rightarrow> ccmd" where
  "remember cn = on_conn (\<lambda>c. c\<lparr>connectivityMap := mput (NodeConnectivity_String cn) cn (connectivityMap c)\<rparr>)"

definition forget :: "NodeConnectivity \<Rightarrow> ccmd" where
  "forget cn = on_conn (\<lambda>c. c\<lparr>connectivityMap := mdel (NodeConnectivity_String cn) (connectivityMap c)\<rparr>)"

definition add_with :: "conn_env \<Rightarrow> NodeConnectivity \<Rightarrow> string \<Rightarrow> ccmd" where
  "add_with env cn t s =
     (let cn' = cn\<lparr>cn_ResolvedProvider := t\<rparr> in
      case mget (connectivityMap (fst s)) (NodeConnectivity_String cn) of
        Some oldCn \<Rightarrow>
          if cn_ResolvedProvider oldCn \<noteq> t
          then andthen (attempt (provider_del env (cn_ResolvedProvider oldCn) cn))
                 (andthen (remember cn') (provider_add env t cn')) s
          else provider_add env t cn s
      | None \<Rightarrow> andthen (remember cn') (provider_add env t cn') s)"

definition UpdateIPConnectivity :: "conn_env \<Rightarrow> NodeConnectivity \<Rightarrow> bool \<Rightarrow> ccmd" where
  "UpdateIPConnectivity env cn isWithdraw s =
     (if isWithdraw then
        (case mget (connectivityMap (fst s)) (NodeConnectivity_String cn) of
           None \<Rightarrow> with_provider (getProviderType env (fst s) cn) (\<lambda>t. provider_del env t cn) s
         | Some oldCn \<Rightarrow> andthen (forget oldCn) (provider_del env (cn_ResolvedProvider oldCn) cn) s)
      else with_provider (getProviderType env (fst s) cn) (add_with env cn) s)"

definition UpdateSRv6Policy :: "conn_env \<Rightarrow> NodeConnectivity \<Rightarrow> bool \<Rightarrow> ccmd" where
  "UpdateSRv6Policy env cn isWithdraw = (if isWithdraw then provider_del env SRv6 cn else provider_add env SRv6 cn)"

text \<open>The loop visits every entry once; the body writes the entry it visits only.\<close>

definition updateAllIPConnectivity :: "conn_env \<Rightarrow> ccmd" where
  "updateAllIPConnectivity env s = foreach (\<lambda>cn. attempt (UpdateIPConnectivity env cn False)) (mvals (connectivityMap (fst s))) s"

section \<open>Events\<close>

definition conn_CnatAddDelSnatPrefix :: "api \<Rightarrow> ipnet \<Rightarrow> bool \<Rightarrow> (ahist, link_error) cmd" where
  "conn_CnatAddDelSnatPrefix vpp prefix isAdd = api_exec vpp (CnatSnatExcludePfx isAdd (ToVppPrefix prefix))"

definition configureRemoteNodeSnat :: "conn_env \<Rightarrow> LocalNodeSpec \<Rightarrow> bool \<Rightarrow> ccmd" where
  "configureRemoteNodeSnat env node isAdd =
     foreach (\<lambda>a. case a of None \<Rightarrow> skip
                | Some n \<Rightarrow> attempt (on_link (conn_CnatAddDelSnatPrefix (ce_vpp env) (ToMaxLenCIDR (IPNet_IP n)) isAdd)))
       [IPv4Address node, IPv6Address node]"

definition node_names :: "LocalNodeSpec \<Rightarrow> string list" where
  "node_names n = (case IPv4Address n of None \<Rightarrow> [] | Some a \<Rightarrow> [ip_String (IPNet_IP a)]) @
     (case IPv6Address n of None \<Rightarrow> [] | Some a \<Rightarrow> [ip_String (IPNet_IP a)])"

text \<open>The events the server registered for; \<open>DSR\<close> are those of the services over SRv6, which its provider handles.\<close>

datatype conn_event =
    Ev_NetAddedOrUpdated Network
  | Ev_NetDeleted Network
  | Ev_ConnectivityAdded NodeConnectivity
  | Ev_ConnectivityDeleted NodeConnectivity
  | Ev_WireguardPublicKeyChanged string string string
  | Ev_PeerNodeStateChanged "LocalNodeSpec option" "LocalNodeSpec option"
  | Ev_FelixConfChanged "ConnConfig option" "ConnConfig option"
  | Ev_IpamConfChanged
  | Ev_SRv6Policy NodeConnectivity bool
  | Ev_DSR "(ahist, link_error) cmd"

definition node_changed :: "conn_env \<Rightarrow> LocalNodeSpec option \<Rightarrow> LocalNodeSpec option \<Rightarrow> ccmd" where
  "node_changed env old new =
     andthen
       (case old of None \<Rightarrow> skip
        | Some n \<Rightarrow> andthen (on_conn (\<lambda>c. c\<lparr>nodeByAddr := fold mdel (node_names n) (nodeByAddr c)\<rparr>))
                     (configureRemoteNodeSnat env n False))
       (case new of None \<Rightarrow> skip
        | Some n \<Rightarrow> andthen (on_conn (\<lambda>c. c\<lparr>nodeByAddr := fold (\<lambda>k. mput k n) (node_names n) (nodeByAddr c)\<rparr>))
                     (configureRemoteNodeSnat env n True))"

definition felix_changed :: "conn_env \<Rightarrow> ConnConfig option \<Rightarrow> ConnConfig option \<Rightarrow> ccmd" where
  "felix_changed env old new =
     (case (old, new) of
        (Some p, Some n) \<Rightarrow>
          andthen (on_conn (\<lambda>c. c\<lparr>conn_felixConfig := n\<rparr>))
            (if WireguardEnabled p \<noteq> WireguardEnabled n
             then andthen (wireguard_EnableDisable env (WireguardEnabled n)) (updateAllIPConnectivity env) else skip)
      | _ \<Rightarrow> skip)"

definition handle_conn_event :: "conn_env \<Rightarrow> conn_event \<Rightarrow> ccmd" where
  "handle_conn_event env e =
     (case e of
        Ev_NetAddedOrUpdated n \<Rightarrow> on_conn (\<lambda>c. c\<lparr>networks := mput (ND_Vni n) n (networks c)\<rparr>)
      | Ev_NetDeleted n \<Rightarrow> on_conn (\<lambda>c. c\<lparr>networks := mdel (ND_Vni n) (networks c)\<rparr>)
      | Ev_ConnectivityAdded cn \<Rightarrow> attempt (UpdateIPConnectivity env cn False)
      | Ev_ConnectivityDeleted cn \<Rightarrow> attempt (UpdateIPConnectivity env cn True)
      | Ev_WireguardPublicKeyChanged name oldKey newKey \<Rightarrow>
          andthen (on_conn (\<lambda>c. c\<lparr>nodesToWGPublicKey := mput name newKey (nodesToWGPublicKey c)\<rparr>))
            (if GetStringChangeType oldKey newKey \<noteq> ChangeSame then updateAllIPConnectivity env else skip)
      | Ev_PeerNodeStateChanged old new \<Rightarrow> node_changed env old new
      | Ev_FelixConfChanged old new \<Rightarrow> felix_changed env old new
      | Ev_IpamConfChanged \<Rightarrow> updateAllIPConnectivity env
      | Ev_SRv6Policy cn isWithdraw \<Rightarrow> attempt (UpdateSRv6Policy env cn isWithdraw)
      | Ev_DSR c \<Rightarrow> attempt (on_link c))"

text \<open>\<open>ServeConnectivity\<close> up to its end: the rescan of the providers in the order the map is ranged over, then the events.
  The pools and the gates the providers look at may change from event to event, so every event brings its own
  surroundings.\<close>

definition ServeConnectivity :: "conn_env \<Rightarrow> string list \<Rightarrow> (conn_env \<times> conn_event) list \<Rightarrow> ccmd" where
  "ServeConnectivity env order evs =
     andthen (foreach (provider_rescan env) order) (foreach (\<lambda>(env, e). handle_conn_event env e) evs)"

section \<open>When traffic may leave unprotected\<close>

lemma wireguard_or_cases: "wireguard_or c cn other = Found t \<Longrightarrow> t = WIREGUARD \<and> wireguard_Enabled c cn = Ret True \<or> t = other \<and> wireguard_Enabled c cn \<noteq> Ret True"
  by (auto simp: wireguard_or_def split: outcome.splits if_splits)

text \<open>The pool asks for encapsulation towards this next hop.\<close>

definition encap_demanded :: "conn_env \<Rightarrow> ConnectivityServer \<Rightarrow> NodeConnectivity \<Rightarrow> bool" where
  "encap_demanded env c cn \<longleftrightarrow> (\<exists>pool. GetPrefixIPPool (ce_ipam env) (cn_Dst cn) = Ret (Some pool) \<and>
     (\<exists>mode \<in> {Pool_IpipMode pool, Pool_VxlanMode pool}.
        mode = ce_Always env \<or> mode = ce_CrossSubnet env \<and> outside (GetNodeIPNet c (IsIP6 (IPNet_IP (cn_Dst cn)))) (cn_NextHop cn)))"


section \<open>Updates and withdrawals\<close>

definition own_providers :: "string set" where
  "own_providers = {FLAT, IPIP, VXLAN, WIREGUARD}"

definition provider_table :: "string \<Rightarrow> ConnectivityServer \<Rightarrow> NodeConnectivity \<Rightarrow> u32" where
  "provider_table t c cn = (if t = VXLAN then vxlan_table c cn else 0)"

definition provider_path :: "string \<Rightarrow> ConnectivityServer \<Rightarrow> NodeConnectivity \<Rightarrow> RoutePath option" where
  "provider_path t = (if t = FLAT then flat_path else if t = IPIP then ipip_path else if t = VXLAN then vxlan_path else wireguard_path)"

text \<open>The destination is routed over the path of the provider.\<close>

definition routed :: "string \<Rightarrow> NodeConnectivity \<Rightarrow> cstate \<Rightarrow> bool" where
  "routed t cn s \<longleftrightarrow> (\<exists>p. provider_path t (fst s) cn = Some p \<and>
     entry_of s (provider_table t (fst s) cn) cn = Some [ToFibPath p (IsIP6 (IPNet_IP (cn_Dst cn)))])"

lemma names_apart [simp]:
  "FLAT \<noteq> IPIP" "FLAT \<noteq> VXLAN" "FLAT \<noteq> WIREGUARD" "IPIP \<noteq> FLAT" "IPIP \<noteq> VXLAN" "IPIP \<noteq> WIREGUARD"
  "VXLAN \<noteq> FLAT" "VXLAN \<noteq> IPIP" "VXLAN \<noteq> WIREGUARD" "WIREGUARD \<noteq> FLAT" "WIREGUARD \<noteq> IPIP" "WIREGUARD \<noteq> VXLAN"
  by (simp_all add: provider_names)

lemma own_providers_cases:
  assumes "t \<in> own_providers"
  obtains "t = FLAT" | "t = IPIP" | "t = VXLAN" | "t = WIREGUARD"
  using assms by (auto simp: own_providers_def)

lemma provider_add_routed:
  assumes "t \<in> own_providers" "provider_add env t cn s = (Done, s')"
  shows "routed t cn s'"
  using assms(1)
proof (cases rule: own_providers_cases)
  case 1 with assms(2) flat.add_installs [of env cn s s'] show ?thesis
    by (simp add: provider_add_def routed_def provider_path_def provider_table_def)
next
  case 2 with assms(2) ipip.add_installs [of env cn s s'] show ?thesis
    by (simp add: provider_add_def routed_def provider_path_def provider_table_def)
next
  case 3 with assms(2) vxlan.add_installs [of env cn s s'] show ?thesis
    by (simp add: provider_add_def routed_def provider_path_def provider_table_def)
next
  case 4 with assms(2) wg.add_installs [of env cn s s'] show ?thesis
    by (simp add: provider_add_def routed_def provider_path_def provider_table_def)
qed

lemma provider_del_unrouted:
  assumes "t \<in> own_providers" "provider_del env t cn s = (Done, s')"
  shows "entry_of s' (provider_table t (fst s') cn) cn = None"
  using assms(1)
proof (cases rule: own_providers_cases)
  case 1 with assms(2) flat.del_withdraws [of env cn s s'] show ?thesis by (simp add: provider_del_def provider_table_def)
next
  case 2 with assms(2) ipip.del_withdraws [of env cn s s'] show ?thesis by (simp add: provider_del_def provider_table_def)
next
  case 3 with assms(2) vxlan.del_withdraws [of env cn s s'] show ?thesis by (simp add: provider_del_def provider_table_def)
next
  case 4 with assms(2) wg.del_withdraws [of env cn s s'] show ?thesis by (simp add: provider_del_def provider_table_def)
qed

lemma keeps_flat [keep]:
  "same_server c s \<Longrightarrow> keeps c (flat_AddConnectivity env cn s)" "same_server c s \<Longrightarrow> keeps c (flat_DelConnectivity env cn s)"
  unfolding flat_AddConnectivity_def flat_DelConnectivity_def by (intro keep, assumption)+

lemma keeps_provider [keep]:
  "same_server c s \<Longrightarrow> keeps c (provider_add env t cn s)" "same_server c s \<Longrightarrow> keeps c (provider_del env t cn s)"
  unfolding provider_add_def provider_del_def by (auto intro!: keep)

lemma provider_keeps:
  "provider_add env t cn s = (st, s') \<Longrightarrow> server_part (fst s') = server_part (fst s)"
  "provider_del env t cn s = (st, s') \<Longrightarrow> server_part (fst s') = server_part (fst s)"
  by (erule keeps_outcome [OF keeps_provider(1) [OF refl]], erule keeps_outcome [OF keeps_provider(2) [OF refl]])

lemma routed_resolved [simp]: "routed t (cn\<lparr>cn_ResolvedProvider := x\<rparr>) = routed t cn"
  by (simp add: routed_def fun_eq_iff provider_path_def provider_table_def entry_of_def flat_path_def ipip_path_def vxlan_path_def
      wireguard_path_def vxlan_table_def wg_family_def)

lemma String_resolved [simp]: "NodeConnectivity_String (cn\<lparr>cn_ResolvedProvider := x\<rparr>) = NodeConnectivity_String cn"
  by (simp add: NodeConnectivity_String_def)

lemma map_of_part: "server_part c = server_part c' \<Longrightarrow> connectivityMap c = connectivityMap c'"
  by (simp add: server_part_def)



definition flat_cn_ex :: NodeConnectivity where
  "flat_cn_ex = cn_ex\<lparr>cn_ResolvedProvider := FLAT\<rparr>"

lemma server_ex_pools: "GetPrefixIPPool server_ex d = Ret None"
  by (simp add: GetPrefixIPPool_def server_ex_def)

lemma flat_choice_ex: "cn_Vni cn = 0 \<Longrightarrow> getProviderType (conn_env_ex vpp) c cn = Found FLAT"
  by (simp add: getProviderType_def conn_env_ex_def server_ex_pools)

lemma ex_simps [simp]: "ce_vpp (conn_env_ex v) = v" "connectivityMap conn_ex = []" "cn_Vni cn_ex = 0"
  by (simp_all add: conn_env_ex_def conn_ex_def cn_ex_def)




section \<open>No event stops the server\<close>

definition all_providers :: "string set" where
  "all_providers = {FLAT, IPIP, VXLAN, WIREGUARD, IPSEC, SRv6}"

text \<open>The map is keyed by the text of its entries, and every entry names a provider there is.\<close>

definition conn_typed :: "ConnectivityServer \<Rightarrow> bool" where
  "conn_typed c \<longleftrightarrow> wf_map (connectivityMap c) \<and>
     (\<forall>k cn. mget (connectivityMap c) k = Some cn \<longrightarrow> k = NodeConnectivity_String cn \<and> cn_ResolvedProvider cn \<in> all_providers)"

lemma wireguard_or_provider: "wireguard_or c cn other = Found t \<Longrightarrow> other \<in> all_providers \<Longrightarrow> t \<in> all_providers"
  by (auto simp: all_providers_def dest: wireguard_or_cases)

lemma getProviderType_typed: "getProviderType env c cn = Found t \<Longrightarrow> t \<in> all_providers"
proof (cases "GetPrefixIPPool (ce_ipam env) (cn_Dst cn)")
  case (Ret ipPool)
  have own: "IPIP \<in> all_providers" "VXLAN \<in> all_providers" "FLAT \<in> all_providers" "SRv6 \<in> all_providers" "IPSEC \<in> all_providers"
    by (simp_all add: all_providers_def)
  assume "getProviderType env c cn = Found t"
  with Ret own show ?thesis
    by (auto simp: getProviderType_def ipip_choice_def Let_def dest: wireguard_or_provider split: option.splits if_splits)
qed (auto simp: getProviderType_def all_providers_def split: if_splits)

lemma typed_put: "conn_typed c \<Longrightarrow> k = NodeConnectivity_String cn \<Longrightarrow> cn_ResolvedProvider cn \<in> all_providers \<Longrightarrow>
    conn_typed (c\<lparr>connectivityMap := mput k cn (connectivityMap c)\<rparr>)"
  by (auto simp: conn_typed_def)

lemma typed_del: "conn_typed c \<Longrightarrow> conn_typed (c\<lparr>connectivityMap := mdel k (connectivityMap c)\<rparr>)"
  by (auto simp: conn_typed_def)

text \<open>The server at work: typed, its own node known and WireGuard off. \<open>calm\<close> results are those that leave it so
  without a panic.\<close>

definition at_work :: "ConnectivityServer \<Rightarrow> bool" where
  "at_work c \<longleftrightarrow> conn_typed c \<and> nodeBGPSpec c \<noteq> None \<and> \<not> WireguardEnabled (conn_felixConfig c)"

definition calm :: "'e status \<times> cstate \<Rightarrow> bool" where
  "calm r \<longleftrightarrow> fst r \<noteq> Panicked \<and> at_work (fst (snd r))"

named_theorems calms \<open>rules for results without a panic\<close>

lemma at_work_part: "server_part c = server_part c' \<Longrightarrow> at_work c \<longleftrightarrow> at_work c'"
  by (simp add: at_work_def conn_typed_def server_part_def)

lemma calm_simple [calms]:
  "at_work (fst s) \<Longrightarrow> calm (skip s)" "at_work (fst s) \<Longrightarrow> calm (fail e s)" "at_work (fst s) \<Longrightarrow> calm (send_tunnel ev s)"
  "at_work (fst s) \<Longrightarrow> st \<noteq> Panicked \<Longrightarrow> calm (st, s)"
  using at_work_part [of "fst s\<lparr>conn_events := conn_events (fst s) @ [ev]\<rparr>" "fst s"]
  by (simp_all add: calm_def skip_def fail_def send_tunnel_def on_conn_def)

lemma calm_on_conn [calms]: "at_work (f (fst s)) \<Longrightarrow> calm (on_conn f s)"
  by (simp add: calm_def on_conn_def)

lemma calm_on_link [calms]: "at_work (fst s) \<Longrightarrow> fst (a (snd s)) \<noteq> Panicked \<Longrightarrow> calm (on_link a s)"
  by (auto simp: calm_def on_link_def split: prod.split)

lemma at_peace_andthen [calms]: "calm (a s) \<Longrightarrow> (\<And>s'. at_work (fst s') \<Longrightarrow> calm (b s')) \<Longrightarrow> calm (andthen a b s)"
  by (auto simp: calm_def andthen_def split: prod.split status.split)

lemma at_peace_attempt [calms]: "calm (a s) \<Longrightarrow> calm (attempt a s)"
  by (auto simp: calm_def attempt_def split: prod.split status.split)

lemma calm_or_cleanup [calms]: "calm (a s) \<Longrightarrow> (\<And>s'. at_work (fst s') \<Longrightarrow> calm (cl s')) \<Longrightarrow> calm (or_cleanup cl a s)"
  by (auto simp: calm_def or_cleanup_def split: prod.split status.split)

lemma calm_if [calms]:
  "(b \<Longrightarrow> calm (a s)) \<Longrightarrow> (\<not> b \<Longrightarrow> calm (d s)) \<Longrightarrow> calm ((if b then a else d) s)"
  "(b \<Longrightarrow> calm r) \<Longrightarrow> (\<not> b \<Longrightarrow> calm r') \<Longrightarrow> calm (if b then r else r')"
  by simp_all

lemma calm_foreach [calms]:
  assumes "at_work (fst s)" "\<And>y s'. y \<in> set ys \<Longrightarrow> at_work (fst s') \<Longrightarrow> calm (f y s')"
  shows "calm (foreach f ys s)"
  using assms
proof (induction ys arbitrary: s)
  case (Cons y ys)
  obtain st s' where f: "f y s = (st, s')" by (cases "f y s")
  with Cons.prems(2) [of y s] Cons.prems(1) have "at_work (fst s')" "st \<noteq> Panicked" by (simp_all add: calm_def)
  with f Cons.IH [of s'] Cons.prems(2) show ?case by (cases st) (auto intro: calms)
qed (simp add: calms)

text \<open>The calls to VPP do not panic.\<close>

lemma api_calm [simp]: "fst (api_exec vpp c h) \<noteq> Panicked"
  by (simp add: api_exec_eq)

lemma link_calm [simp]:
  "fst (RouteAdd vpp r h) \<noteq> Panicked" "fst (RouteDel vpp r h) \<noteq> Panicked" "fst (InterfaceSetUnnumbered vpp i j h) \<noteq> Panicked"
  "fst (EnableGSOFeature vpp i h) \<noteq> Panicked" "fst (CnatEnableFeatures vpp i h) \<noteq> Panicked" "fst (InterfaceAdminUp vpp i h) \<noteq> Panicked"
  "fst (SetInterfaceVRF vpp i j b h) \<noteq> Panicked" "fst (DelIPIPTunnel vpp t h) \<noteq> Panicked" "fst (DelWireguardTunnel vpp w h) \<noteq> Panicked"
  "fst (DelWireguardPeer vpp p h) \<noteq> Panicked" "fst (DelVXLanTunnel vpp v e h) \<noteq> Panicked"
  by (simp_all add: link_defs DelVXLanTunnel_def split: prod.split option.split)

lemma at_work_provider [simp]:
  "at_work (c\<lparr>ipipIfs := a\<rparr>) = at_work c" "at_work (c\<lparr>ipipRoutes := b\<rparr>) = at_work c"
  "at_work (c\<lparr>vxlanIfs := d\<rparr>) = at_work c" "at_work (c\<lparr>vxlanRoutes := b\<rparr>) = at_work c"
  "at_work (c\<lparr>wireguardPeers := e\<rparr>) = at_work c" "at_work (c\<lparr>wireguardTunnels := f\<rparr>) = at_work c"
  "at_work (c\<lparr>conn_events := g\<rparr>) = at_work c" "at_work (c\<lparr>conn_published := h\<rparr>) = at_work c"
  "at_work (c\<lparr>ip4NodeIndex := i\<rparr>) = at_work c" "at_work (c\<lparr>ip6NodeIndex := j\<rparr>) = at_work c"
  by (rule at_work_part, simp)+

lemma at_work_ips: "at_work c \<Longrightarrow> \<exists>ips. GetNodeIPs c = Some ips"
  by (auto simp: at_work_def GetNodeIPs_def)

lemma calm_tunnel_setup [calms]:
  "at_work (fst s) \<Longrightarrow> (\<And>s'. at_work (fst s') \<Longrightarrow> calm (cl s')) \<Longrightarrow> calm (tunnel_setup env i cl s)"
  unfolding tunnel_setup_def by (intro calms) auto

lemma calm_flat [calms]:
  "at_work (fst s) \<Longrightarrow> calm (flat_AddConnectivity env cn s)" "at_work (fst s) \<Longrightarrow> calm (flat_DelConnectivity env cn s)"
  unfolding flat_AddConnectivity_def flat_DelConnectivity_def by (auto intro!: calms)

lemma calm_ipip_create [calms]: "at_work (fst s) \<Longrightarrow> calm (ipip_create env cn s)"
  using at_work_ips [of "fst s"] unfolding ipip_create_def Let_def
  by (auto split: option.split prod.split intro!: calms)

lemma ipip_create_records:
  assumes "ipip_create env cn s = (Done, s')"
  shows "mhas (ipipIfs (fst s')) (ip_String (cn_NextHop cn))"
  using assms by (auto simp: ipip_create_def Let_def panic_def fail_def andthen_Done on_conn_def send_tunnel_def split: option.splits prod.splits)

lemma calm_ipip_Add [calms]:
  assumes "at_work (fst s)"
  shows "calm (ipip_AddConnectivity env cn s)"
proof -
  let ?new = "if mhas (ipipIfs (fst s)) (ip_String (cn_NextHop cn)) then skip else ipip_create env cn"
  obtain st s1 where r: "?new s = (st, s1)" by (cases "?new s")
  have "calm (?new s)" using assms by (intro calms)
  with r have s1: "at_work (fst s1)" "st \<noteq> Panicked" by (simp_all add: calm_def)
  have "st = Done \<Longrightarrow> mhas (ipipIfs (fst s1)) (ip_String (cn_NextHop cn))"
    using r ipip_create_records [of env cn s s1] by (auto simp: skip_def split: if_splits)
  then have "st = Done \<Longrightarrow> calm (ipip_route env cn s1)"
    using s1 by (auto simp: ipip_route_def mhas_def intro!: calms)
  with r s1 show ?thesis by (cases st) (simp_all add: ipip_AddConnectivity_def andthen_def calm_def)
qed

lemma calm_ipip_Del [calms]: "at_work (fst s) \<Longrightarrow> calm (ipip_DelConnectivity env cn s)"
  unfolding ipip_DelConnectivity_def ipip_drop_tunnel_def by (auto split: option.split intro!: calms)

lemma calm_vxlan [calms]:
  "at_work (fst s) \<Longrightarrow> calm (vxlan_AddConnectivity env cn s)" "at_work (fst s) \<Longrightarrow> calm (vxlan_DelConnectivity env cn s)"
  using at_work_ips [of "fst s"]
  unfolding vxlan_AddConnectivity_def vxlan_create_def vxlan_route_def vxlan_attach_def vxlan_DelConnectivity_def vxlan_drop_tunnel_def Let_def
  by (auto split: option.split prod.split intro!: calms)

lemma calm_wireguard_Del [calms]: "at_work (fst s) \<Longrightarrow> calm (wireguard_DelConnectivity env cn s)"
  unfolding wireguard_DelConnectivity_def put_peer_def Let_def
  by (auto split: option.split prod.split intro!: calms)

text \<open>The pools have valid blocks, and the other providers do not panic.\<close>

definition env_ok :: "conn_env \<Rightarrow> bool" where
  "env_ok env \<longleftrightarrow> (\<forall>p \<in> set (mvals (ippoolmap (ce_ipam env))). ParseCIDR (Pool_Cidr p) \<noteq> None) \<and>
     (\<forall>t cn h. fst (ce_otherAdd env t cn h) \<noteq> Panicked \<and> fst (ce_otherDel env t cn h) \<noteq> Panicked)"

fun event_ok :: "conn_event \<Rightarrow> bool" where
  "event_ok (Ev_FelixConfChanged old new) = (case new of None \<Rightarrow> True | Some n \<Rightarrow> \<not> WireguardEnabled n)"
| "event_ok (Ev_DSR c) = (\<forall>h. fst (c h) \<noteq> Panicked)"
| "event_ok _ = True"

lemma calm_provider_del [calms]:
  "at_work (fst s) \<Longrightarrow> env_ok env \<Longrightarrow> t \<in> all_providers \<Longrightarrow> calm (provider_del env t cn s)"
  unfolding provider_del_def by (auto simp: env_ok_def all_providers_def intro!: calms)

lemma calm_provider_add [calms]:
  "at_work (fst s) \<Longrightarrow> env_ok env \<Longrightarrow> t \<in> all_providers \<Longrightarrow> t \<noteq> WIREGUARD \<Longrightarrow> calm (provider_add env t cn s)"
  unfolding provider_add_def by (auto simp: env_ok_def all_providers_def intro!: calms)

lemma pools_ok: "env_ok env \<Longrightarrow> \<exists>p. GetPrefixIPPool (ce_ipam env) d = Ret p"
  using first_pool_find by (auto simp: env_ok_def GetPrefixIPPool_def)

lemma choice_at_work:
  assumes "at_work c" "env_ok env"
  shows "getProviderType env c cn \<noteq> NilDeref" "getProviderType env c cn \<noteq> Found WIREGUARD"
proof -
  have w: "wireguard_or c cn other = Found other" for other
    using assms(1) by (simp add: wireguard_or_def wireguard_Enabled_def at_work_def)
  obtain p where "GetPrefixIPPool (ce_ipam env) (cn_Dst cn) = Ret p" using pools_ok [OF assms(2)] by blast
  then show "getProviderType env c cn \<noteq> NilDeref" "getProviderType env c cn \<noteq> Found WIREGUARD"
    by (auto simp: getProviderType_def ipip_choice_def w Let_def provider_names split: option.split)
qed

lemma at_work_put: "at_work c \<Longrightarrow> k = NodeConnectivity_String cn \<Longrightarrow> cn_ResolvedProvider cn \<in> all_providers \<Longrightarrow>
    at_work (c\<lparr>connectivityMap := mput k cn (connectivityMap c)\<rparr>)"
  using typed_put [of c k cn] by (simp add: at_work_def)

lemma at_work_del: "at_work c \<Longrightarrow> at_work (c\<lparr>connectivityMap := mdel k (connectivityMap c)\<rparr>)"
  using typed_del [of c k] by (simp add: at_work_def)

lemma calm_Update [calms]:
  assumes "at_work (fst s)" "env_ok env"
  shows "calm (UpdateIPConnectivity env cn w s)"
proof -
  have old: "cn_ResolvedProvider o1 \<in> all_providers" if "mget (connectivityMap (fst s)) k = Some o1" for k o1
    using assms(1) that by (auto simp: at_work_def conn_typed_def)
  have add: "calm (add_with env cn t s)" if "t \<in> all_providers" "t \<noteq> WIREGUARD" for t
    using assms that old unfolding add_with_def remember_def Let_def
    by (auto split: option.split intro!: calms at_work_put)
  have "getProviderType env (fst s) cn = Found t \<Longrightarrow> t \<in> all_providers \<and> t \<noteq> WIREGUARD" for t
    using getProviderType_typed choice_at_work(2) [OF assms] by blast
  with choice_at_work(1) [OF assms] show ?thesis
    using assms old add unfolding UpdateIPConnectivity_def with_provider_def forget_def
    by (auto split: option.split lookup.split intro!: calms at_work_del)
qed

lemma calm_updateAll [calms]: "at_work (fst s) \<Longrightarrow> env_ok env \<Longrightarrow> calm (updateAllIPConnectivity env s)"
  unfolding updateAllIPConnectivity_def by (intro calms)

lemma calm_snat [calms]: "at_work (fst s) \<Longrightarrow> calm (configureRemoteNodeSnat env n b s)"
  unfolding configureRemoteNodeSnat_def conn_CnatAddDelSnatPrefix_def
  by (intro calms) (auto split: option.split intro!: calms)

lemma at_work_server [simp]:
  "at_work (c\<lparr>networks := a\<rparr>) = at_work c" "at_work (c\<lparr>nodeByAddr := b\<rparr>) = at_work c" "at_work (c\<lparr>nodesToWGPublicKey := d\<rparr>) = at_work c"
  "at_work (c\<lparr>conn_felixConfig := n\<rparr>) = (conn_typed c \<and> nodeBGPSpec c \<noteq> None \<and> \<not> WireguardEnabled n)"
  by (simp_all add: at_work_def conn_typed_def)

lemma calm_event:
  assumes "at_work (fst s)" "env_ok env" "event_ok e"
  shows "calm (handle_conn_event env e s)"
proof -
  have "calm (wireguard_EnableDisable env False s')" if "at_work (fst s')" for s'
    using that by (auto simp: wireguard_EnableDisable_def publishWireguardPublicKey_def intro!: calms)
  with assms show ?thesis
    by (cases e) (auto simp: handle_conn_event_def node_changed_def felix_changed_def UpdateSRv6Policy_def at_work_def [of "fst s"] all_providers_def
        provider_names split: option.split intro!: calms)
qed


lemma conn_ex_at_work: "at_work conn_ex"
  by (simp add: at_work_def conn_typed_def) (simp add: conn_ex_def conn_cfg_ex_def)

lemma env_ok_ex: "env_ok (conn_env_ex vpp)"
  by (simp add: env_ok_def conn_env_ex_def server_ex_def skip_def)


section \<open>The server stays typed\<close>

abbreviation typed_cmd :: "ccmd \<Rightarrow> bool" where
  "typed_cmd \<equiv> preserves (\<lambda>s. conn_typed (fst s))"

lemma typed_keeps:
  assumes "\<And>s. keeps (fst s) (c s)"
  shows "typed_cmd c"
proof (rule preservesI)
  fix s :: cstate assume "conn_typed (fst s)"
  with assms [of s] show "conn_typed (fst (snd (c s)))" by (simp add: keeps_def conn_typed_def server_part_def)
qed

lemma typed_on_conn: "(\<And>c. conn_typed c \<Longrightarrow> conn_typed (f c)) \<Longrightarrow> typed_cmd (on_conn f)"
  by (simp add: preserves_def on_conn_def)

lemma typed_Update: "typed_cmd (UpdateIPConnectivity env cn w)"
proof (rule preservesI)
  fix s :: cstate assume s: "conn_typed (fst s)"
  have p: "typed_cmd (provider_add env t cn')" "typed_cmd (provider_del env t cn')" for t cn'
    by (rule typed_keeps, rule keep, rule refl)+
  have f: "typed_cmd (andthen (forget o1) (provider_del env t cn))" for o1 t
    unfolding forget_def by (intro preserves_andthen typed_on_conn p typed_del)
  have r: "typed_cmd (andthen (remember (cn\<lparr>cn_ResolvedProvider := t\<rparr>)) (provider_add env t (cn\<lparr>cn_ResolvedProvider := t\<rparr>)))"
    if "t \<in> all_providers" for t
    using that unfolding remember_def by (intro preserves_andthen typed_on_conn p typed_put) simp_all
  have a: "conn_typed (fst (snd (add_with env cn t s)))" if "t \<in> all_providers" for t
    using preservesD [OF preserves_andthen [OF preserves_attempt [OF p(2)] r [OF that]] s] preservesD [OF r [OF that] s] preservesD [OF p(1) s]
    by (auto simp: add_with_def Let_def split: option.split)
  show "conn_typed (fst (snd (UpdateIPConnectivity env cn w s)))"
    using s a getProviderType_typed preservesD [OF p(2) s] preservesD [OF f s]
    by (auto simp: UpdateIPConnectivity_def with_provider_def fail_def panic_def split: option.split lookup.split)
qed

lemma typed_updateAll: "typed_cmd (updateAllIPConnectivity env)"
proof (rule preservesI)
  fix s :: cstate assume s: "conn_typed (fst s)"
  have "typed_cmd (foreach (\<lambda>cn. attempt (UpdateIPConnectivity env cn False)) ys)" for ys
    by (intro preserves_foreach preserves_attempt typed_Update)
  from preservesD [OF this s] show "conn_typed (fst (snd (updateAllIPConnectivity env s)))" by (simp add: updateAllIPConnectivity_def)
qed

lemma typed_other [simp]:
  "conn_typed (c\<lparr>networks := a\<rparr>) = conn_typed c" "conn_typed (c\<lparr>nodeByAddr := b\<rparr>) = conn_typed c"
  "conn_typed (c\<lparr>nodesToWGPublicKey := d\<rparr>) = conn_typed c" "conn_typed (c\<lparr>conn_felixConfig := n\<rparr>) = conn_typed c"
  by (simp_all add: conn_typed_def)

lemma typed_link: "typed_cmd (on_link c)"
  by (rule typed_keeps, rule keep, rule refl)

lemma typed_snat: "typed_cmd (configureRemoteNodeSnat env n b)"
  unfolding configureRemoteNodeSnat_def
  by (intro preserves_foreach) (auto split: option.split intro: preserves_skip preserves_attempt typed_link)

lemma typed_event: "typed_cmd (handle_conn_event env e)"
proof -
  have s: "typed_cmd (UpdateSRv6Policy env cn w)" for cn w
    unfolding UpdateSRv6Policy_def by (rule typed_keeps) (auto intro: keep)
  have w: "typed_cmd (wireguard_EnableDisable env b)" for b by (rule typed_keeps, rule keep, rule refl)
  note rules = preserves_andthen preserves_attempt preserves_if preserves_skip typed_Update typed_updateAll typed_on_conn typed_link typed_snat s w
  show ?thesis
    by (cases e) (auto simp: handle_conn_event_def node_changed_def felix_changed_def split: option.split intro!: rules)
qed



section \<open>Updates that go wrong\<close>

lemma mget_fold_mdel: "mget (fold mdel ks m) k = (if k \<in> set ks then None else mget m k)"
  by (induction ks arbitrary: m) auto

lemma snat_fst: "configureRemoteNodeSnat env n b s = (st, s') \<Longrightarrow> fst s' = fst s \<and> st = Done"
  by (auto simp: configureRemoteNodeSnat_def conn_CnatAddDelSnatPrefix_def skip_def attempt_def on_link_api split: option.splits if_splits)


definition wg_pool_server_ex :: Server where
  "wg_pool_server_ex = server_ex\<lparr>ippoolmap := [(''pool'', pool_ex\<lparr>Pool_IpipMode := ''always''\<rparr>)]\<rparr>"

lemma wg_pool_ex: "GetPrefixIPPool wg_pool_server_ex (cn_Dst cn_ex) = Ret (Some (pool_ex\<lparr>Pool_IpipMode := ''always''\<rparr>))"
proof -
  have "pool_holds (cn_Dst cn_ex) (pool_ex\<lparr>Pool_IpipMode := ''always''\<rparr>)"
    using pool_ex_block by (simp add: pool_holds_def cn_ex_def net_eval Let_def upt_rec)
  then show ?thesis
    using first_pool_find [of "[pool_ex\<lparr>Pool_IpipMode := ''always''\<rparr>]"] pool_ex_block
    by (simp add: GetPrefixIPPool_def wg_pool_server_ex_def)
qed


text \<open>One update over a plain route, written out.\<close>

abbreviation flat_msg :: "NodeConnectivity \<Rightarrow> IPRoute" where
  "flat_msg cn \<equiv> route_msg \<lparr>R_Dst = Some (cn_Dst cn), R_Paths = getRoutePaths (cn_NextHop cn), R_Table = 0, R_RpfID = 0\<rparr>"

definition flat_world :: "conn_env \<Rightarrow> ipnet \<Rightarrow> bool" where
  "flat_world env d \<longleftrightarrow> GetPrefixIPPool (ce_ipam env) d = Ret None \<and> \<not> ce_SRv6Enabled env \<and> (\<forall>h c. ce_vpp env h c = ApiOk)"

lemma flat_world_add:
  assumes "flat_world env (cn_Dst cn)" "cn_Vni cn = 0" "mget (connectivityMap c) (NodeConnectivity_String cn) = None"
  shows "UpdateIPConnectivity env cn False (c, h) =
    (Done, (c\<lparr>connectivityMap := mput (NodeConnectivity_String cn) (cn\<lparr>cn_ResolvedProvider := FLAT\<rparr>) (connectivityMap c)\<rparr>,
       (IPRouteAddDel True (flat_msg cn), ApiOk) # h))"
  using assms by (simp add: flat_world_def UpdateIPConnectivity_def with_provider_def getProviderType_def add_with_def Let_def remember_def
      andthen_def on_conn_def provider_add_def flat_AddConnectivity_def link_defs on_link_api)

lemma flat_world_readd:
  assumes "flat_world env (cn_Dst cn)" "cn_Vni cn = 0" "mget (connectivityMap c) (NodeConnectivity_String cn) = Some o1" "cn_ResolvedProvider o1 = FLAT"
  shows "UpdateIPConnectivity env cn False (c, h) = (Done, (c, (IPRouteAddDel True (flat_msg cn), ApiOk) # h))"
  using assms by (simp add: flat_world_def UpdateIPConnectivity_def with_provider_def getProviderType_def add_with_def Let_def
      provider_add_def flat_AddConnectivity_def link_defs on_link_api)

lemma flat_world_del:
  assumes "flat_world env (cn_Dst cn)" "mget (connectivityMap c) (NodeConnectivity_String cn) = Some o1" "cn_ResolvedProvider o1 = FLAT"
    "NodeConnectivity_String o1 = NodeConnectivity_String cn"
  shows "UpdateIPConnectivity env cn True (c, h) =
    (Done, (c\<lparr>connectivityMap := mdel (NodeConnectivity_String cn) (connectivityMap c)\<rparr>, (IPRouteAddDel False (flat_msg cn), ApiOk) # h))"
  using assms by (simp add: flat_world_def UpdateIPConnectivity_def forget_def andthen_def on_conn_def
      provider_del_def flat_DelConnectivity_def link_defs on_link_api)

text \<open>C39: a destination that moved to another next hop and was then withdrawn comes back. The server files connectivity by
  destination and next hop, so that the entry of the old next hop stays when the new one arrives, outlives the
  withdrawal, and the next update of all connectivity routes the withdrawn destination to the old next hop again.\<close>

theorem withdrawn_route_returns:
  assumes "flat_world env (cn_Dst cn)" "cn_Vni cn = 0" "connectivityMap c = []"
    and "cn' = cn\<lparr>cn_NextHop := new\<rparr>" "NodeConnectivity_String cn' \<noteq> NodeConnectivity_String cn"
    and "foreach (\<lambda>(env, e). handle_conn_event env e)
      [(env, Ev_ConnectivityAdded cn), (env, Ev_ConnectivityAdded cn'), (env, Ev_ConnectivityDeleted cn')] (c, h) = (st, s)"
  shows "entry_of s 0 cn = None \<and>
    entry_of (snd (handle_conn_event env Ev_IpamConfChanged s)) 0 cn =
      Some [ToFibPath (zero_path\<lparr>Gw := cn_NextHop cn, RP_SwIfIndex := InvalidID\<rparr>) (IsIP6 (IPNet_IP (cn_Dst cn)))]"
proof -
  have w: "flat_world env (cn_Dst cn')" "cn_Vni cn' = 0" "cn_Dst cn' = cn_Dst cn" using assms(1,2,4) by simp_all
  let ?K = NodeConnectivity_String and ?f = "\<lambda>cn. cn\<lparr>cn_ResolvedProvider := FLAT\<rparr>"
  let ?c1 = "c\<lparr>connectivityMap := [(?K cn, ?f cn)]\<rparr>" and ?c2 = "c\<lparr>connectivityMap := [(?K cn, ?f cn), (?K cn', ?f cn')]\<rparr>"
  let ?A = "\<lambda>cn. (IPRouteAddDel True (flat_msg cn), ApiOk)" and ?D = "(IPRouteAddDel False (flat_msg cn'), ApiOk)"
  have "UpdateIPConnectivity env cn False (c, h) = (Done, (?c1, ?A cn # h))"
    using flat_world_add [OF assms(1,2), of c h] assms(3) by simp
  moreover have "UpdateIPConnectivity env cn' False (?c1, ?A cn # h) = (Done, (?c2, ?A cn' # ?A cn # h))"
    using flat_world_add [OF w(1,2), of ?c1 "?A cn # h"] assms(5) by simp
  moreover have "UpdateIPConnectivity env cn' True (?c2, ?A cn' # ?A cn # h) = (Done, (?c1, ?D # ?A cn' # ?A cn # h))"
    using flat_world_del [OF w(1), of ?c2 "?f cn'" "?A cn' # ?A cn # h"] assms(5) by simp
  ultimately have s: "s = (?c1, ?D # ?A cn' # ?A cn # h)"
    using assms(6) by (simp add: handle_conn_event_def attempt_def)
  have p: "ir_Prefix (route_msg \<lparr>R_Dst = Some d, R_Paths = getRoutePaths nh, R_Table = 0, R_RpfID = 0\<rparr>) = ToVppPrefix d"
    "ir_TableID (route_msg \<lparr>R_Dst = Some d, R_Paths = getRoutePaths nh, R_Table = 0, R_RpfID = 0\<rparr>) = 0"
    "ir_Paths (route_msg \<lparr>R_Dst = Some d, R_Paths = getRoutePaths nh, R_Table = 0, R_RpfID = 0\<rparr>) =
       [ToFibPath (zero_path\<lparr>Gw := nh, RP_SwIfIndex := InvalidID, RP_Table := 0\<rparr>) (IsIP6 (IPNet_IP d))]" for d nh
    by (simp_all add: route_msg_def Let_def Route_IsIP6_def ToFibPathList_def getRoutePaths_def)
  have "UpdateIPConnectivity env (?f cn) False s = (Done, (?c1, ?A (?f cn) # snd s))"
    unfolding s using flat_world_readd [of env "?f cn" ?c1 "?f cn"] assms(1,2) by simp
  then have "snd (handle_conn_event env Ev_IpamConfChanged s) = (?c1, ?A (?f cn) # snd s)"
    by (simp add: handle_conn_event_def updateAllIPConnectivity_def attempt_def s)
  with s w(3) show ?thesis by (simp add: entry_of_def p zero_path_def)
qed

theorem withdrawn_route_returns_witness:
  "\<exists>s. foreach (\<lambda>(env, e). handle_conn_event env e)
     [(conn_env_ex (\<lambda>_ _. ApiOk), Ev_ConnectivityAdded cn_ex), (conn_env_ex (\<lambda>_ _. ApiOk), Ev_ConnectivityAdded (cn_ex\<lparr>cn_NextHop := [10, 0, 0, 3]\<rparr>)),
      (conn_env_ex (\<lambda>_ _. ApiOk), Ev_ConnectivityDeleted (cn_ex\<lparr>cn_NextHop := [10, 0, 0, 3]\<rparr>))] (conn_ex, []) = s \<and>
     entry_of (snd s) 0 cn_ex = None \<and> entry_of (snd (handle_conn_event (conn_env_ex (\<lambda>_ _. ApiOk)) Ev_IpamConfChanged (snd s))) 0 cn_ex \<noteq> None"
proof -
  let ?env = "conn_env_ex (\<lambda>_ _. ApiOk)" and ?cn = "cn_ex\<lparr>cn_NextHop := [10, 0, 0, 3]\<rparr>"
  obtain st s where r: "foreach (\<lambda>(env, e). handle_conn_event env e)
     [(?env, Ev_ConnectivityAdded cn_ex), (?env, Ev_ConnectivityAdded ?cn), (?env, Ev_ConnectivityDeleted ?cn)] (conn_ex, []) = (st, s)"
    by (metis surj_pair)
  have "ip_String [10, 0, 0, 3] \<noteq> ip_String [10, 0, 0, 2]"
    by (subst ip_String_eq_iff) (simp_all add: wf_ip_def ip_Equal_def)
  then have "NodeConnectivity_String ?cn \<noteq> NodeConnectivity_String cn_ex" by (simp add: NodeConnectivity_String_def cn_ex_def)
  moreover have "flat_world ?env (cn_Dst cn_ex)" by (simp add: flat_world_def conn_env_ex_def server_ex_pools)
  ultimately show ?thesis
    using withdrawn_route_returns [of ?env cn_ex conn_ex ?cn "[10, 0, 0, 3]" "[]" st s] r by auto
qed

end
