(* ===== verification/Spec2Isabelle.thy ===== *)
theory Spec2Isabelle
  imports IndexAllocator FelixServe EgressWatcher RouteSync ConnServer
begin

text \<open>
  A verification of the control plane of the Calico/VPP dataplane agent: the Go program under \<open>src/\<close> that turns
  network policies, egress policies and routes into the configuration of the VPP packet processor.

  \<^bold>\<open>The program and its parts.\<close> The agent (\<open>calico-vpp-agent\<close>) holds servers that each receive events and
  program VPP through the binding \<open>vpplink\<close>. The Felix server receives the policies Calico's Felix computes,
  keeps them as two copies of a policy state (a pending one while Felix synchronises, a configured one after it)
  and mirrors the configured one into the \<open>npol\<close> plugin of VPP: IP sets, rules that refer to sets, policies that
  list rules, and interfaces that list policies. The SRv6 egress part watches a Kubernetes object, the egress
  policy: on every node the headend manager steers the traffic of the selected local pods into an SRv6 policy, or
  drops it while that policy is not available; on the policy's endpoint the gateway manager decapsulates it into a
  table of the tenant and keeps the return routes.

  \<^bold>\<open>How the program is modelled.\<close> Structs are records with the fields of the source, enumerations are datatypes,
  machine integers are words of their width, strings are character lists. A Go map is an association list with the
  operations of \<open>Prelude\<close>; a loop over a map visits it in the order of that list, and the invariants do not depend
  on the order. A function that returns an error is a command \<open>('s, 'e) cmd\<close> that returns a status (done, failed
  with an error, or panicked) with the new state, so that every early return and every nil dereference is a branch.
  VPP, the Kubernetes client, the BGP announcer and the resolver of pod selectors are outside the repository: each
  is a parameter, a function from the history of earlier calls to a reply. A call appends itself and its reply to
  the history, so what VPP holds is read off the history (for instance \<open>vpp_conf\<close> and \<open>held\<close>), and failures of
  any call at any moment are covered because the reply function is arbitrary. Where a property needs a promise of
  such a service it is a named hypothesis of the theorem, with a witness that shows a service that keeps it.

  \<^bold>\<open>The theories.\<close>

  \<^item> \<open>Prelude\<close>: maps, commands, services, with the lemma collections the other theories use.
  \<^item> \<open>NetAddr\<close>: the parts of Go's \<open>net\<close>, \<open>net/netip\<close>, \<open>strings\<close> and \<open>strconv\<close> the program calls: parsing
    and printing of addresses and prefixes.
  \<^item> \<open>IndexAllocator\<close>: \<open>vpplink/index_allocator.go\<close>. Indices handed out are distinct while they are held; the
    theory also shows that \<open>TakeIndex\<close> does not keep an index from being handed out again.
  \<^item> \<open>Npol\<close>: \<open>vpplink/types/npol.go\<close>, \<open>vpplink/types/ip_types.go\<close>, \<open>vpplink/npol.go\<close>: the messages to
    the policy plugin. Encoders are shown to lose nothing (round trips and the meaning of the encoded rule).
  \<^item> \<open>FelixIPSet\<close>, \<open>FelixPolicy\<close>, \<open>FelixEndpoints\<close>: \<open>felix/ipset.go\<close>; \<open>felix/rule.go\<close> and
    \<open>felix/policy.go\<close>; \<open>felix/workload_endpoint.go\<close> and \<open>felix/host_endpoint.go\<close>. What each operation leaves in
    VPP on success, that an update never leaves a policy that refers to a deleted rule, and that the policies of
    the agent itself always come before those of the user on the host interfaces.
  \<^item> \<open>FelixServer\<close>, \<open>FelixSync\<close>: every handler of \<open>felix/felix_server.go\<close>. \<open>FelixReconcile\<close>: the
    reconciliation at the end of a synchronisation leaves exactly the pending state in VPP. \<open>FelixInvariant\<close>:
    the bookkeeping every handler keeps, by two locales of state predicates interpreted on the server's own.
    \<open>FelixServe\<close>: the server's life as sequences of steps, and the invariants, isolation and protocol along it.
  \<^item> \<open>EgressManager\<close>: \<open>srv6egress/manager.go\<close>, \<open>steering.go\<close>, \<open>types.go\<close> of the agent and the objects of
    \<open>srv6egress/apis/v1\<close>. Along every sequence of operations a destination is never steered and dropped at once by
    one policy; a reconciliation whose calls succeed installs exactly what the policies ask for, and the next one
    makes no call.
  \<^item> \<open>EgressGateway\<close>: \<open>srv6egress/gateway.go\<close>. Tables of tenants never collide, return routes are counted
    exactly, and a reconciliation whose calls succeed leaves exactly the wanted fences.
  \<^item> \<open>EgressWatcher\<close>: \<open>srv6egress/watcher.go\<close>. After a list and any events the managers hold exactly the
    policies of the cluster.

  \<^bold>\<open>Interfaces.\<close> The locales state contracts between components and are interpreted on the definitions of the
  model: \<open>id_allocator\<close> (the allocator's laws), \<open>member_kind\<close> (what the three kinds of IP sets share),
  \<open>request_kind\<close> (a pair of an install and a remove request, for steering and for blackholes),
  \<open>server_keeps\<close> and its extension \<open>server_keeps_heps\<close> (a predicate on the Felix server that the primitive
  updates keep is kept by every handler), and \<open>policy_sink\<close> (what the watcher relies on from a manager).

  \<^bold>\<open>Bounds.\<close> No definition takes fuel. Loops of the source that may not end are partial functions whose value
  \<open>None\<close> is that they do not return (\<open>fill_loop\<close> of the index allocator, \<open>vrf_scan\<close> of the gateway);
  \<open>gateway_returns\<close> shows that the second one returns while a table number is free. All other loops are over
  finite data and recursion is structural or has its termination proof.

  \<^bold>\<open>Not modelled.\<close> Logging; goroutines, channels and mutexes (each server handles one event at a time, which is
  what its loop or its mutex enforces, so an operation is one step); the wire formats of gRPC, protobuf and the
  binary API below the message structures; the connection and start-up code of every program; CNI and pod
  interfaces, the VPP manager, the Prometheus and health servers, the command line tool (netlink, namespaces,
  processes and HTTP: I/O around little logic); the embedded BGP server (calls of a library); code written by
  generators.
\<close>

end
